(* ===== verification/Go_Base.thy ===== *)
theory Go_Base
  imports Complex_Main "HOL-Library.Char_ord" "HOL-Library.List_Lexorder"
    "HOL-Library.Finite_Map" "HOL-Library.Sublist" "HOL-Library.Multiset"
begin

text \<open>
  The prelude of the development: what the Go program uses of the language and of its
  standard library.

  \<^item> Strings and byte slices are lists of bytes (\<^typ>\<open>string\<close>); the order of
    \<^theory_text>\<open>List_Lexorder\<close> over \<^theory_text>\<open>Char_ord\<close> is Go's byte-wise order on strings.
  \<^item> An \<open>error\<close> is a value of \<open>goerror\<close>: a leaf made by \<open>fmt.Errorf\<close>, a wrapped error
    (\<open>%w\<close>), or an error that comes from outside the repository.
  \<^item> A Go map is a finite map; the order in which \<open>range\<close> visits it is not determined by
    the language, so a function whose result depends on that order takes it as an argument,
    and \<open>range_order\<close> says that it enumerates the map.
  \<^item> \<open>time.Time\<close> is the instant in nanoseconds since the Unix epoch, \<open>time.Duration\<close> a
    number of nanoseconds kept in 64 bits.
  \<^item> \<open>float64\<close> values are the finite ones (exact rationals), the infinities and NaN; the
    program only compares them.
\<close>

section \<open>Collections of facts\<close>

named_theorems go_defs \<open>definitions that the component proofs unfold\<close>
named_theorems go_consts \<open>numeric constants of the program\<close>

section \<open>Errors\<close>

datatype extern_kind =
    WriterFailed | WriterClosed | CtxCanceled | CtxDeadline | IOEOF | NotExist | OtherKind

datatype goerror =
    Errorf string
  | Wrapf string goerror
  | Extern extern_kind string

type_synonym 'a result = "goerror + 'a"

text \<open>\<open>err.Error()\<close> and \<open>errors.Is\<close> along the chain of wrapped errors.\<close>

fun error_text :: "goerror \<Rightarrow> string" where
  "error_text (Errorf s) = s"
| "error_text (Wrapf s e) = s @ '': '' @ error_text e"
| "error_text (Extern k s) = s"

fun errors_Is :: "goerror \<Rightarrow> extern_kind \<Rightarrow> bool" where
  "errors_Is (Errorf s) k = False"
| "errors_Is (Wrapf s e) k = errors_Is e k"
| "errors_Is (Extern k' s) k = (k' = k)"

text \<open>The \<open>keep\<close> idiom: remember the first error that is not nil.\<close>

fun first_error :: "goerror option \<Rightarrow> goerror option \<Rightarrow> goerror option" where
  "first_error None e = e"
| "first_error (Some e0) e = Some e0"

lemma first_error_None [simp]: "first_error a b = None \<longleftrightarrow> a = None \<and> b = None"
  by (cases a) auto

lemma first_error_None_right [simp]: "first_error a None = a"
  by (cases a) auto

lemma fold_first_error:
  "fold (\<lambda>e acc. first_error acc e) es acc =
     (case acc of Some e \<Rightarrow> Some e | None \<Rightarrow> (case filter (\<lambda>e. e \<noteq> None) es of [] \<Rightarrow> None | e # _ \<Rightarrow> e))"
  by (induction es arbitrary: acc) (auto split: option.splits)

section \<open>Maps and the order of \<open>range\<close>\<close>

definition range_order :: "'k list \<Rightarrow> ('k, 'v) fmap \<Rightarrow> bool" where
  "range_order ks m \<longleftrightarrow> distinct ks \<and> set ks = fmdom' m"

text \<open>The entries in the order they are visited; a key no longer in the map is skipped.\<close>

definition range_entries :: "'k list \<Rightarrow> ('k, 'v) fmap \<Rightarrow> ('k \<times> 'v) list" where
  "range_entries ks m = List.map_filter (\<lambda>k. map_option (Pair k) (fmlookup m k)) ks"

definition range_values :: "'k list \<Rightarrow> ('k, 'v) fmap \<Rightarrow> 'v list" where
  "range_values ks m = List.map_filter (fmlookup m) ks"

lemma range_entries_Nil [simp]: "range_entries [] m = []"
  by (simp add: range_entries_def)

lemma range_entries_Cons [simp]:
  "range_entries (k # ks) m =
     (case fmlookup m k of None \<Rightarrow> range_entries ks m | Some v \<Rightarrow> (k, v) # range_entries ks m)"
  by (simp add: range_entries_def split: option.splits)

lemma range_values_Nil [simp]: "range_values [] m = []"
  by (simp add: range_values_def)

lemma range_values_Cons [simp]:
  "range_values (k # ks) m =
     (case fmlookup m k of None \<Rightarrow> range_values ks m | Some v \<Rightarrow> v # range_values ks m)"
  by (simp add: range_values_def split: option.splits)

lemma range_values_entries: "range_values ks m = map snd (range_entries ks m)"
  by (induction ks) (auto split: option.splits)

lemma in_range_entries:
  "(k, v) \<in> set (range_entries ks m) \<longleftrightarrow> k \<in> set ks \<and> fmlookup m k = Some v"
  by (induction ks) (auto split: option.splits)

lemma in_range_values:
  "v \<in> set (range_values ks m) \<longleftrightarrow> (\<exists>k\<in>set ks. fmlookup m k = Some v)"
  by (induction ks) (auto split: option.splits)

lemma range_order_entries:
  "range_order ks m \<Longrightarrow> (k, v) \<in> set (range_entries ks m) \<longleftrightarrow> fmlookup m k = Some v"
  by (auto simp: in_range_entries range_order_def fmlookup_dom'_iff)

lemma range_order_values:
  "range_order ks m \<Longrightarrow> set (range_values ks m) = fmran' m"
  by (fastforce simp: in_range_values range_order_def fmlookup_ran'_iff intro: fmdom'I)

lemma range_order_length:
  "range_order ks m \<Longrightarrow> length ks = card (fmdom' m)"
  by (auto simp: range_order_def dest: distinct_card)

lemma range_order_member: "range_order ks m \<Longrightarrow> k \<in> set ks \<longleftrightarrow> fmlookup m k \<noteq> None"
  by (auto simp: range_order_def fmlookup_dom'_iff)

lemma range_keys_order: "range_order ks m \<Longrightarrow> map fst (range_entries ks m) = ks"
proof -
  have "\<forall>k\<in>set ks. fmlookup m k \<noteq> None \<Longrightarrow> map fst (range_entries ks m) = ks"
    by (induction ks) (auto split: option.splits)
  then show "range_order ks m \<Longrightarrow> ?thesis"
    by (simp add: range_order_member)
qed

text \<open>Building a map from the entries of another.\<close>

lemma fmmap_fmupd1 [simp]: "fmmap g (fmupd k v m) = fmupd k (g v) (fmmap g m)"
  by (rule fmap_ext) simp

lemma fold_fmupd_lookup:
  "distinct (map fst kvs) \<Longrightarrow>
     fmlookup (fold (\<lambda>(k, v). fmupd k (g v)) kvs m) k = (case map_of kvs k of None \<Rightarrow> fmlookup m k | Some v \<Rightarrow> Some (g v))"
  by (induction kvs arbitrary: m) (auto split: option.splits dest!: map_of_SomeD, force)

lemma fold_range_entries:
  assumes "range_order ord m"
  shows "fold (\<lambda>(k, v). fmupd k (g v)) (range_entries ord m) fmempty = fmmap g m"
proof (rule fmap_ext)
  fix k
  have d: "distinct (map fst (range_entries ord m))" using assms by (simp add: range_keys_order [OF assms], simp add: range_order_def)
  have "map_of (range_entries ord m) k = fmlookup m k"
  proof (cases "fmlookup m k")
    case None
    then have "k \<notin> fst ` set (range_entries ord m)" by (force simp: in_range_entries)
    with None show ?thesis by (metis map_of_eq_None_iff)
  next
    case (Some v)
    with assms d show ?thesis by (simp add: range_order_entries)
  qed
  then show "fmlookup (fold (\<lambda>(k, v). fmupd k (g v)) (range_entries ord m) fmempty) k = fmlookup (fmmap g m) k"
    using fold_fmupd_lookup [OF d, of g fmempty k] by (simp split: option.splits)
qed

end
