(* ===== verification/Go_Text.thy ===== *)
theory Go_Text
  imports Go_Base
begin

text \<open>
  Text and byte-string functions of Go's standard library that the program calls:
  \<open>strings.IndexByte\<close>, \<open>strings.SplitN\<close>, \<open>strings.HasPrefix\<close>, decimal printing
  (\<open>%d\<close>) and \<open>strconv.ParseInt\<close>, with the lemmas about them and about the byte-wise
  order of strings that the key codecs rest on.
\<close>

section \<open>The byte order\<close>

abbreviation byte_max :: char where "byte_max \<equiv> CHR 0xFF"

definition byte_succ :: "char \<Rightarrow> char" where
  "byte_succ c = char_of (of_char c + (1 :: nat))"

lemma of_char_less_256: "(of_char c :: nat) < 256"
  by (metis mod_less_divisor of_char_mod_256 zero_less_numeral)

lemma byte_le_max: "c \<le> byte_max"
proof -
  have "(of_char c :: nat) \<le> 255" using of_char_less_256 [of c] by linarith
  then show ?thesis by (simp add: less_eq_char_def)
qed

lemma byte_max_le: "byte_max \<le> c \<longleftrightarrow> c = byte_max"
  using byte_le_max [of c] by auto

lemma byte_succ_less: "c < byte_max \<Longrightarrow> d < byte_succ c \<longleftrightarrow> d \<le> c"
proof -
  assume "c < byte_max"
  then have "(of_char c :: nat) < 255"
    by (simp add: less_char_def)
  then have "(of_char (byte_succ c) :: nat) = of_char c + 1"
    by (simp add: byte_succ_def)
  then show ?thesis
    by (auto simp: less_char_def less_eq_char_def)
qed

lemma replicate_max_le: "replicate n byte_max \<le> ds \<longleftrightarrow> prefix (replicate n byte_max) ds"
proof (induction n arbitrary: ds)
  case 0
  then show ?case by simp
next
  case (Suc n)
  then show ?case
    by (cases ds) (auto simp: leD [OF byte_le_max])
qed

text \<open>
  The byte strings between a prefix and the bound obtained by incrementing its last byte that
  is not 0xff are exactly those with that prefix.
\<close>

lemma lex_prefix_interval:
  assumes "\<And>d. d < c' \<longleftrightarrow> d \<le> (c :: char)"
  shows "q @ c # replicate n byte_max \<le> k \<and> k < q @ [c'] \<longleftrightarrow> prefix (q @ c # replicate n byte_max) k"
proof (induction q arbitrary: k)
  case Nil
  show ?case
  proof (cases k)
    case Nil
    then show ?thesis by simp
  next
    case (Cons d ds)
    have "c # replicate n byte_max \<le> k \<longleftrightarrow> c < d \<or> c = d \<and> prefix (replicate n byte_max) ds"
      by (simp add: Cons replicate_max_le)
    moreover have "k < [c'] \<longleftrightarrow> d \<le> c"
      by (simp add: Cons assms)
    ultimately show ?thesis by (auto simp: Cons)
  qed
next
  case (Cons a q)
  show ?case
  proof (cases k)
    case Nil
    then show ?thesis by simp
  next
    case (Cons d ds)
    then show ?thesis
      using Cons.IH [of ds] by (cases "a = d") (simp_all, force)
  qed
qed

section \<open>Cutting strings\<close>

fun index_byte :: "string \<Rightarrow> char \<Rightarrow> nat option" where
  "index_byte [] c = None"
| "index_byte (x # xs) c = (if x = c then Some 0 else map_option Suc (index_byte xs c))"

lemma index_byte_None [simp]: "index_byte s c = None \<longleftrightarrow> c \<notin> set s"
  by (induction s) auto

lemma index_byte_append [simp]: "c \<notin> set s \<Longrightarrow> index_byte (s @ c # t) c = Some (length s)"
  by (induction s) auto

lemma index_byte_Some: "index_byte s c = Some i \<Longrightarrow> i < length s \<and> s ! i = c \<and> c \<notin> set (take i s)"
  by (induction s arbitrary: i) (auto split: if_splits)

text \<open>\<open>strings.SplitN(s, sep, n)\<close> for a separator of one byte and \<open>n \<ge> 0\<close>.\<close>

fun splitN :: "nat \<Rightarrow> char \<Rightarrow> string \<Rightarrow> string list" where
  "splitN 0 c s = []"
| "splitN (Suc 0) c s = [s]"
| "splitN (Suc (Suc n)) c s =
     (case index_byte s c of None \<Rightarrow> [s] | Some i \<Rightarrow> take i s # splitN (Suc n) c (drop (Suc i) s))"

text \<open>\<open>%q\<close> of a text of printable ASCII characters without quotes and backslashes.\<close>

definition fmt_q :: "string \<Rightarrow> string" where
  "fmt_q s = [CHR 0x22] @ s @ [CHR 0x22]"

definition hasPrefix :: "string \<Rightarrow> string \<Rightarrow> bool" where
  "hasPrefix s p \<longleftrightarrow> prefix p s"

section \<open>Decimal text\<close>

definition digit_char :: "nat \<Rightarrow> char" where
  "digit_char d = char_of (48 + d)"

fun fmt_nat :: "nat \<Rightarrow> string" where
  "fmt_nat n = (if n < 10 then [digit_char n] else fmt_nat (n div 10) @ [digit_char (n mod 10)])"

declare fmt_nat.simps [simp del]

definition fmt_int :: "int \<Rightarrow> string" where
  "fmt_int i = (if i < 0 then ''-'' @ fmt_nat (nat (- i)) else fmt_nat (nat i))"

definition is_digit :: "char \<Rightarrow> bool" where
  "is_digit c \<longleftrightarrow> (48 :: nat) \<le> of_char c \<and> of_char c \<le> (57 :: nat)"

definition digit_val :: "char \<Rightarrow> nat" where
  "digit_val c = of_char c - 48"

definition parse_nat :: "string \<Rightarrow> nat option" where
  "parse_nat s = (if s \<noteq> [] \<and> list_all is_digit s
     then Some (foldl (\<lambda>n c. 10 * n + digit_val c) 0 s) else None)"

text \<open>
  \<open>strconv.ParseInt(s, 10, 64)\<close>: the value and whether the error is nil. A syntax error gives
  0, a value out of range the nearest bound, both with an error.
\<close>

definition parse_int64 :: "string \<Rightarrow> int \<times> bool" where
  "parse_int64 s =
     (let neg = (s \<noteq> [] \<and> hd s = CHR ''-'');
          body = (if s \<noteq> [] \<and> (hd s = CHR ''-'' \<or> hd s = CHR ''+'') then tl s else s)
      in case parse_nat body of
           None \<Rightarrow> (0, False)
         | Some n \<Rightarrow>
             (if neg then (if n \<le> 2 ^ 63 then (- int n, True) else (- (2 ^ 63), False))
              else (if n < 2 ^ 63 then (int n, True) else (2 ^ 63 - 1, False))))"

text \<open>\<open>strings.ToLower\<close> of an ASCII text.\<close>

definition lower_char :: "char \<Rightarrow> char" where
  "lower_char c = (let n = of_char c :: nat in if 65 \<le> n \<and> n \<le> 90 then char_of (n + 32) else c)"

definition ToLower :: "string \<Rightarrow> string" where
  "ToLower s = map lower_char s"

text \<open>The UTF-8 bytes of a dash.\<close>

definition em_dash :: string where "em_dash = [CHR 0xE2, CHR 0x80, CHR 0x94]"

lemma digit_char_simps [simp]:
  assumes "d < 10"
  shows "is_digit (digit_char d)" and "digit_val (digit_char d) = d"
  using assms by (simp_all add: is_digit_def digit_val_def digit_char_def)

lemma digit_char_neq [simp]:
  assumes "d < 10"
  shows "digit_char d \<noteq> CHR '':''" "digit_char d \<noteq> CHR ''-''" "digit_char d \<noteq> CHR ''+''"
proof -
  have "(of_char (digit_char d) :: nat) = 48 + d" using assms by (simp add: digit_char_def)
  then show "digit_char d \<noteq> CHR '':''" "digit_char d \<noteq> CHR ''-''" "digit_char d \<noteq> CHR ''+''"
    using assms by (auto dest: arg_cong [where f = "of_char :: char \<Rightarrow> nat"])
qed

lemma fmt_nat_digits: "list_all is_digit (fmt_nat n)"
proof (induction n rule: fmt_nat.induct)
  case (1 n)
  then show ?case by (cases "n < 10") (simp_all add: fmt_nat.simps [of n])
qed

lemma fmt_nat_nonempty [simp]: "fmt_nat n \<noteq> []"
  by (subst fmt_nat.simps) simp

lemma fmt_nat_value: "foldl (\<lambda>n c. 10 * n + digit_val c) 0 (fmt_nat n) = n"
proof (induction n rule: fmt_nat.induct)
  case (1 n)
  then show ?case by (cases "n < 10") (simp_all add: fmt_nat.simps [of n])
qed

lemma parse_fmt_nat [simp]: "parse_nat (fmt_nat n) = Some n"
  by (simp add: parse_nat_def fmt_nat_digits fmt_nat_value)

lemma not_digit_sign: "\<not> is_digit (CHR ''-'')" "\<not> is_digit (CHR ''+'')" "\<not> is_digit (CHR '':'')"
  by (simp_all add: is_digit_def)

lemma fmt_nat_hd: "hd (fmt_nat n) \<noteq> CHR ''-''" "hd (fmt_nat n) \<noteq> CHR ''+''"
  using fmt_nat_digits [of n] fmt_nat_nonempty [of n]
  by (cases "fmt_nat n"; auto simp: not_digit_sign)+

lemma parse_fmt_int:
  assumes "- (2 ^ 63) \<le> i" and "i < 2 ^ 63"
  shows "parse_int64 (fmt_int i) = (i, True)"
proof (cases "i < 0")
  case True
  then have "nat (- i) \<le> 2 ^ 63" using assms(1) by (simp add: nat_le_iff)
  with True show ?thesis by (simp add: parse_int64_def fmt_int_def)
next
  case False
  then have "nat i < 2 ^ 63" using assms(2) by (simp add: nat_less_iff)
  with False show ?thesis by (simp add: parse_int64_def fmt_int_def fmt_nat_hd)
qed

lemma fmt_nat_no_colon: "CHR '':'' \<notin> set (fmt_nat n)"
  using fmt_nat_digits [of n] not_digit_sign by (auto simp: list_all_iff)

lemma fmt_int_no_colon: "CHR '':'' \<notin> set (fmt_int i)"
  by (simp add: fmt_int_def fmt_nat_no_colon)

lemma fmt_int_inj: "fmt_int i = fmt_int j \<Longrightarrow> i = j"
proof -
  have nat_inj: "fmt_nat m = fmt_nat n \<Longrightarrow> m = n" for m n
    by (metis parse_fmt_nat option.inject)
  have sign: "fmt_nat m \<noteq> CHR ''-'' # s" for m s
    using fmt_nat_hd(1) [of m] by auto
  show "fmt_int i = fmt_int j \<Longrightarrow> i = j"
    using sign [symmetric] sign by (auto simp: fmt_int_def split: if_splits dest!: nat_inj)
qed

text \<open>A text with a separator after a part without one splits in one way only.\<close>

lemma colon_split:
  "CHR '':'' \<notin> set a \<Longrightarrow> CHR '':'' \<notin> set b \<Longrightarrow> a @ CHR '':'' # x = b @ CHR '':'' # y \<longleftrightarrow> a = b \<and> x = (y :: string)"
proof (induction a arbitrary: b)
  case Nil
  then show ?case by (cases b) auto
next
  case (Cons c a)
  then show ?case by (cases b) auto
qed

end
