(* ===== verification/Go_Time.thy ===== *)
theory Go_Time
  imports Go_Base
begin

text \<open>
  Instants, durations and floating-point values. \<open>time.Time\<close> is an instant in nanoseconds
  since the Unix epoch (the wall clock and the location of a value play no part in the
  comparisons the program makes); \<open>time.Duration\<close> is a signed 64-bit number of nanoseconds:
  \<open>Time.Sub\<close> saturates at its bounds, products and shifts wrap around.
\<close>

type_synonym time = int
type_synonym duration = int

definition wrap64 :: "int \<Rightarrow> int" where
  "wrap64 x = (x + 2 ^ 63) mod 2 ^ 64 - 2 ^ 63"

abbreviation int64 :: "int \<Rightarrow> bool" where
  "int64 x \<equiv> - (2 ^ 63) \<le> x \<and> x < 2 ^ 63"

definition nanos_per_second :: int where [go_consts]: "nanos_per_second = 1000000000"
definition millisecond :: duration where [go_consts]: "millisecond = 1000000"
definition second :: duration where [go_consts]: "second = 1000000000"
definition minute :: duration where [go_consts]: "minute = 60 * 1000000000"
definition hour :: duration where [go_consts]: "hour = 3600 * 1000000000"

text \<open>The zero \<open>time.Time\<close> is January 1, year 1, 00:00:00 UTC.\<close>

definition time_zero :: time where [go_consts]: "time_zero = - 62135596800 * 1000000000"

definition time_IsZero :: "time \<Rightarrow> bool" where
  "time_IsZero t \<longleftrightarrow> t = time_zero"

definition time_Sub :: "time \<Rightarrow> time \<Rightarrow> duration" where
  "time_Sub t u = max (- (2 ^ 63)) (min (2 ^ 63 - 1) (t - u))"

text \<open>\<open>t.Truncate(d)\<close> rounds down to a multiple of \<open>d\<close> since the zero time.\<close>

definition time_Truncate :: "time \<Rightarrow> duration \<Rightarrow> time" where
  "time_Truncate t d = (if d \<le> 0 then t else t - (t - time_zero) mod d)"

definition time_UnixNano :: "time \<Rightarrow> int" where
  "time_UnixNano t = wrap64 t"

text \<open>\<open>time.Unix(sec, nsec)\<close> for a normalised \<open>nsec\<close>, and the instants a JSON text can hold
  (\<open>Time.MarshalJSON\<close> refuses a year outside 0 to 9999).\<close>

definition time_Unix :: "int \<Rightarrow> int \<Rightarrow> time" where
  "time_Unix sec nsec = sec * 1000000000 + nsec"

definition time_json_ok :: "time \<Rightarrow> bool" where
  "time_json_ok t \<longleftrightarrow> - 62167219200 * 1000000000 \<le> t \<and> t < 253402300800 * 1000000000"

lemma wrap64_id [simp]: "int64 x \<Longrightarrow> wrap64 x = x"
  by (simp add: wrap64_def)

lemma wrap64_bounds: "int64 (wrap64 x)"
  by (simp add: wrap64_def)

lemma time_Sub_ge: "0 < d \<Longrightarrow> d < 2 ^ 63 \<Longrightarrow> time_Sub t u \<ge> d \<longleftrightarrow> t - u \<ge> d"
  by (auto simp: time_Sub_def)

lemma time_Sub_le: "0 \<le> d \<Longrightarrow> d < 2 ^ 63 - 1 \<Longrightarrow> time_Sub t u \<le> d \<longleftrightarrow> t - u \<le> d"
  by (auto simp: time_Sub_def)

lemma time_Truncate_le: "time_Truncate t d \<le> t"
  by (simp add: time_Truncate_def)

lemma time_Truncate_gt: "0 < d \<Longrightarrow> t < time_Truncate t d + d"
  by (simp add: time_Truncate_def)

lemma time_Truncate_second: "time_Truncate t second = t - t mod 1000000000"
proof -
  have "(t - time_zero) mod 1000000000 = (t + 62135596800 * 1000000000) mod 1000000000"
    by (simp add: time_zero_def)
  also have "\<dots> = t mod 1000000000"
    by (rule mod_mult_self1)
  finally show ?thesis by (simp add: time_Truncate_def second_def)
qed

lemma time_Truncate_mono: "t \<le> u \<Longrightarrow> time_Truncate t second \<le> time_Truncate u second"
  unfolding time_Truncate_second
  by (smt (verit) minus_mod_eq_mult_div mult_left_mono zdiv_mono1)

section \<open>Floating point\<close>

datatype float64 = Fin rat | PosInf | NegInf | NaN

fun float_le :: "float64 \<Rightarrow> float64 \<Rightarrow> bool" where
  "float_le (Fin x) (Fin y) = (x \<le> y)"
| "float_le NaN y = False"
| "float_le x NaN = False"
| "float_le NegInf y = True"
| "float_le x PosInf = True"
| "float_le x y = False"

fun float_finite :: "float64 \<Rightarrow> bool" where
  "float_finite (Fin x) = True"
| "float_finite x = False"

lemma float_finite_iff: "float_finite f \<longleftrightarrow> (\<exists>x. f = Fin x)"
  by (cases f) auto

end
