(* ===== verification/Go_Json.thy ===== *)
theory Go_Json
  imports Go_Time
begin

text \<open>
  \<open>encoding/json\<close> at the level of documents: what \<open>json.Marshal\<close> produces and what
  \<open>json.Unmarshal\<close> makes of it. A number is the exact value of the float it encodes, the
  RFC 3339 text of an instant is \<open>JTime\<close>. \<open>Marshal\<close> of a struct is the object of its
  fields in declaration order, without the empty fields marked \<open>omitempty\<close>; it fails on a
  float that is not finite and on an instant no RFC 3339 text can hold. \<open>Unmarshal\<close> into a
  struct visits the members in order, ignores unknown names and \<open>null\<close>, lets a later member
  win, and remembers the first type error. Member names are compared exactly (the documents the
  program reads back are the ones it wrote), and the texts of the library's errors are
  abbreviated. Texts are taken to be valid UTF-8, which \<open>Marshal\<close> writes as it is: that it replaces
  invalid bytes is not modelled.
\<close>

datatype json =
    JNull
  | JBool bool
  | JNum rat
  | JString string
  | JTime time
  | JArray "json list"
  | JObject "(string \<times> json) list"

definition json_type_error :: goerror where
  "json_type_error = Extern OtherKind ''json: cannot unmarshal''"

definition json_value_error :: goerror where
  "json_value_error = Extern OtherKind ''json: unsupported value''"

definition json_time_error :: goerror where
  "json_time_error = Extern OtherKind ''Time.MarshalJSON: year outside of range [0,9999]''"

section \<open>Encoding\<close>

text \<open>A member is a name with the result of encoding its value, or nothing when it is omitted.\<close>

type_synonym member = "(string \<times> json) option result"

definition mem_string :: "string \<Rightarrow> string \<Rightarrow> member" where
  "mem_string n s = Inr (Some (n, JString s))"

definition mem_string_omit :: "string \<Rightarrow> string \<Rightarrow> member" where
  "mem_string_omit n s = Inr (if s = [] then None else Some (n, JString s))"

definition mem_bool_omit :: "string \<Rightarrow> bool \<Rightarrow> member" where
  "mem_bool_omit n b = Inr (if b then Some (n, JBool b) else None)"

fun mem_float :: "string \<Rightarrow> float64 \<Rightarrow> member" where
  "mem_float n (Fin x) = Inr (Some (n, JNum x))"
| "mem_float n f = Inl json_value_error"

fun mem_float_omit :: "string \<Rightarrow> float64 \<Rightarrow> member" where
  "mem_float_omit n (Fin x) = Inr (if x = 0 then None else Some (n, JNum x))"
| "mem_float_omit n f = Inl json_value_error"

definition mem_int_omit :: "string \<Rightarrow> int \<Rightarrow> member" where
  "mem_int_omit n i = Inr (if i = 0 then None else Some (n, JNum (of_int i)))"

definition mem_time :: "string \<Rightarrow> time \<Rightarrow> member" where
  "mem_time n t = (if time_json_ok t then Inr (Some (n, JTime t)) else Inl json_time_error)"

definition mem_json :: "string \<Rightarrow> json result \<Rightarrow> member" where
  "mem_json n r = (case r of Inl e \<Rightarrow> Inl e | Inr j \<Rightarrow> Inr (Some (n, j)))"

text \<open>\<open>omitempty\<close> on a map drops the empty map; its members come in the order of their keys.\<close>

definition mem_strmap_omit :: "string \<Rightarrow> (string \<times> string) list \<Rightarrow> member" where
  "mem_strmap_omit n kvs =
     Inr (if kvs = [] then None else Some (n, JObject (map (\<lambda>(k, v). (k, JString v)) kvs)))"

fun members :: "member list \<Rightarrow> (string \<times> json) list result" where
  "members [] = Inr []"
| "members (m # ms) =
     (case m of Inl e \<Rightarrow> Inl e
      | Inr x \<Rightarrow> (case members ms of Inl e \<Rightarrow> Inl e
                 | Inr xs \<Rightarrow> Inr (case x of None \<Rightarrow> xs | Some p \<Rightarrow> p # xs)))"

definition json_object :: "member list \<Rightarrow> json result" where
  "json_object ms = map_sum id JObject (members ms)"

section \<open>Decoding\<close>

text \<open>
  A field decoder takes the struct so far and the member's value: \<open>Inr\<close> the updated struct,
  \<open>Inl\<close> a type error. \<open>null\<close> leaves every field as it is.
\<close>

type_synonym 's field_decoder = "json \<Rightarrow> 's \<Rightarrow> 's result"

fun dec_string :: "(string \<Rightarrow> 's \<Rightarrow> 's) \<Rightarrow> 's field_decoder" where
  "dec_string upd (JString s) st = Inr (upd s st)"
| "dec_string upd JNull st = Inr st"
| "dec_string upd j st = Inl json_type_error"

fun dec_float :: "(float64 \<Rightarrow> 's \<Rightarrow> 's) \<Rightarrow> 's field_decoder" where
  "dec_float upd (JNum x) st = Inr (upd (Fin x) st)"
| "dec_float upd JNull st = Inr st"
| "dec_float upd j st = Inl json_type_error"

text \<open>A number that is not an integer of 64 bits is a type error for an integer field.\<close>

fun dec_int :: "(int \<Rightarrow> 's \<Rightarrow> 's) \<Rightarrow> 's field_decoder" where
  "dec_int upd (JNum x) st =
     (if of_int \<lfloor>x\<rfloor> = x \<and> int64 \<lfloor>x\<rfloor> then Inr (upd \<lfloor>x\<rfloor> st) else Inl json_type_error)"
| "dec_int upd JNull st = Inr st"
| "dec_int upd j st = Inl json_type_error"

fun dec_bool :: "(bool \<Rightarrow> 's \<Rightarrow> 's) \<Rightarrow> 's field_decoder" where
  "dec_bool upd (JBool b) st = Inr (upd b st)"
| "dec_bool upd JNull st = Inr st"
| "dec_bool upd j st = Inl json_type_error"

fun dec_time :: "(time \<Rightarrow> 's \<Rightarrow> 's) \<Rightarrow> 's field_decoder" where
  "dec_time upd (JTime t) st = Inr (upd t st)"
| "dec_time upd JNull st = Inr st"
| "dec_time upd j st = Inl json_type_error"

fun decode_members ::
  "(string \<Rightarrow> 's field_decoder option) \<Rightarrow> (string \<times> json) list \<Rightarrow> 's \<Rightarrow> goerror option \<Rightarrow> 's \<times> goerror option"
where
  "decode_members fs [] st e = (st, e)"
| "decode_members fs ((n, j) # ms) st e =
     (case fs n of
        None \<Rightarrow> decode_members fs ms st e
      | Some d \<Rightarrow> (case d j st of
                     Inl e' \<Rightarrow> decode_members fs ms st (first_error e (Some e'))
                   | Inr st' \<Rightarrow> decode_members fs ms st' e))"

fun decode_struct :: "(string \<Rightarrow> 's field_decoder option) \<Rightarrow> 's \<Rightarrow> json \<Rightarrow> 's result" where
  "decode_struct fs st (JObject ms) =
     (case decode_members fs ms st None of (st', None) \<Rightarrow> Inr st' | (st', Some e) \<Rightarrow> Inl e)"
| "decode_struct fs st JNull = Inr st"
| "decode_struct fs st j = Inl json_type_error"

lemmas json_encode_defs [go_defs] =
  mem_string_def mem_string_omit_def mem_bool_omit_def mem_int_omit_def mem_time_def mem_json_def mem_strmap_omit_def
  json_object_def

lemma json_object_error:
  "Inl e \<in> set ms \<Longrightarrow> \<exists>e'. json_object ms = Inl e'"
  by (induction ms) (auto simp: json_object_def split: sum.splits option.splits)

lemma json_object_ok:
  "(\<And>m. m \<in> set ms \<Longrightarrow> \<exists>x. m = Inr x) \<Longrightarrow> \<exists>j. json_object ms = Inr j"
proof (induction ms)
  case Nil
  then show ?case by (simp add: json_object_def)
next
  case (Cons m ms)
  then obtain j x where "json_object ms = Inr j" "m = Inr x"
    by (meson list.set_intros(1) list.set_intros(2))
  then show ?case by (cases "members ms") (auto simp: json_object_def)
qed

end
