(* ===== verification/Isle_Store.thy ===== *)
theory Isle_Store
  imports Go_Json
begin

text \<open>
  The interface of IsleDB, the embedded store the program is built on. IsleDB is code outside
  the repository: the operations the program calls are the fields of the record \<open>isle\<close>, over an
  abstract state \<open>'s\<close> of one database prefix and an abstract type \<open>'c\<close> of change-feed cursors.
  Every definition of the pipeline takes such a record as an argument.

  What the program relies on is stated by three locales. \<open>change_feed\<close> is the paging contract of
  a change reader: the pages from a cursor, concatenated, are the changes from that cursor to the
  head, and the distance to the head shrinks. \<open>isle_store\<close> extends it with the contents: a put is
  visible in the current contents, a flush commits them, a refresh shows what is committed to the
  reader, a scan returns the view in key order, and folding the change feed gives the committed
  contents. \<open>live_store\<close> adds the states in which every call succeeds. All are interpreted on \<open>mem_isle\<close>, a store kept in memory.
\<close>

section \<open>Operations\<close>

datatype change_op = ChangePut | ChangeDelete

record Change =
  ch_Operation :: change_op
  ch_Key :: string
  ch_Value :: json

record 'c Page =
  pg_Changes :: "Change list"
  pg_Next :: 'c
  pg_CaughtUp :: bool

type_synonym 's action = "'s \<Rightarrow> goerror option \<times> 's"

text \<open>What an iterator yields, in order, and its error at the end.\<close>

type_synonym iteration = "(string \<times> json) list \<times> goerror option"

record ('s, 'c) isle =
  isle_Put :: "string \<Rightarrow> json \<Rightarrow> 's action"
  isle_Flush :: "'s action"
  isle_WriterClose :: "'s action"
  isle_Refresh :: "'s action"
  isle_NewIterator :: "'s \<Rightarrow> string \<Rightarrow> string \<Rightarrow> iteration result"
  isle_BootstrapView :: "'s \<Rightarrow> (string \<Rightarrow> string \<Rightarrow> iteration result) result"
  isle_ReaderClose :: "'s action"
  isle_MaintRunOnce :: "'s action"
  isle_MaintClose :: "'s action"
  isle_MaintCancel :: "'s \<Rightarrow> 's"
  isle_DBClose :: "'s action"
  isle_BucketClose :: "'s action"
  isle_OpenChangeReader :: "'s \<Rightarrow> goerror option"
  isle_Bounds :: "'s \<Rightarrow> 'c result"
  isle_CursorIsZero :: "'c \<Rightarrow> bool"
  isle_Read :: "'s \<Rightarrow> 'c \<Rightarrow> 'c Page result"
  isle_Head :: "'s \<Rightarrow> 'c"      \<comment> \<open>the head of the bounds; \<open>isle_Bounds\<close> gives the oldest cursor\<close>

section \<open>Contents\<close>

type_synonym kv = "(string, json) fmap"

fun apply_change :: "Change \<Rightarrow> kv \<Rightarrow> kv" where
  "apply_change c m = (case ch_Operation c of ChangePut \<Rightarrow> fmupd (ch_Key c) (ch_Value c) m
                                            | ChangeDelete \<Rightarrow> fmdrop (ch_Key c) m)"

definition feed_map :: "Change list \<Rightarrow> kv" where
  "feed_map cs = fold apply_change cs fmempty"

definition put_change :: "string \<Rightarrow> json \<Rightarrow> Change" where
  "put_change k v = \<lparr>ch_Operation = ChangePut, ch_Key = k, ch_Value = v\<rparr>"

text \<open>The entries with keys from \<open>lo\<close> (included) to \<open>hi\<close> (excluded), in key order.\<close>

definition kv_keys :: "string \<Rightarrow> string \<Rightarrow> kv \<Rightarrow> string list" where
  "kv_keys lo hi m = sorted_list_of_fset (ffilter (\<lambda>k. lo \<le> k \<and> k < hi) (fmdom m))"

definition kv_range :: "string \<Rightarrow> string \<Rightarrow> kv \<Rightarrow> (string \<times> json) list" where
  "kv_range lo hi m = map (\<lambda>k. (k, the (fmlookup m k))) (kv_keys lo hi m)"

lemma feed_map_append: "feed_map (xs @ ys) = fold apply_change ys (feed_map xs)"
  by (simp add: feed_map_def)

lemma feed_map_put: "feed_map (cs @ [put_change k v]) = fmupd k v (feed_map cs)"
  by (simp add: feed_map_def put_change_def)

lemma fold_apply_change_dom:
  "fmlookup (fold apply_change cs m) k \<noteq> None \<Longrightarrow> fmlookup m k \<noteq> None \<or> k \<in> ch_Key ` set cs"
  by (induction cs arbitrary: m) (fastforce split: change_op.splits if_splits)+

lemma feed_map_dom: "fmdom' (feed_map cs) \<subseteq> ch_Key ` set cs"
  using fold_apply_change_dom [of cs fmempty] by (auto simp: feed_map_def fmlookup_dom'_iff)

lemma feed_map_card: "card (fmdom' (feed_map cs)) \<le> length cs"
  using card_mono [OF _ feed_map_dom, of cs] card_image_le [of "set cs" ch_Key] card_length [of cs]
  by simp

lemma map_fst_kv_range [simp]: "map fst (kv_range lo hi m) = kv_keys lo hi m"
  by (simp add: kv_range_def comp_def)

lemma set_kv_keys [simp]: "set (kv_keys lo hi m) = {k \<in> fmdom' m. lo \<le> k \<and> k < hi}"
  by (auto simp: kv_keys_def fmlookup_dom'_iff fmlookup_dom_iff)

lemma sorted_kv_keys: "sorted (kv_keys lo hi m)" and distinct_kv_keys: "distinct (kv_keys lo hi m)"
  by (simp_all add: kv_keys_def sorted_list_of_fset.rep_eq)

lemma in_kv_range: "(k, v) \<in> set (kv_range lo hi m) \<longleftrightarrow> fmlookup m k = Some v \<and> lo \<le> k \<and> k < hi"
  by (auto simp: kv_range_def fmlookup_dom'_iff)

section \<open>The contract of a change reader\<close>

locale change_feed =
  fixes ops :: "('s, 'c) isle"
    and feed :: "'s \<Rightarrow> Change list"
    and rest :: "'s \<Rightarrow> 'c \<Rightarrow> Change list"
    and lag :: "'s \<Rightarrow> 'c \<Rightarrow> nat"
  assumes bounds_zero: "isle_Bounds ops s = Inr c \<Longrightarrow> isle_CursorIsZero ops c \<Longrightarrow> feed s = []"
    and bounds_oldest: "isle_Bounds ops s = Inr c \<Longrightarrow> \<not> isle_CursorIsZero ops c \<Longrightarrow> rest s c = feed s"
    and read_rest: "isle_Read ops s c = Inr pg \<Longrightarrow>
      rest s c = pg_Changes pg @ (if pg_CaughtUp pg then [] else rest s (pg_Next pg))"
    and read_lag: "isle_Read ops s c = Inr pg \<Longrightarrow> \<not> pg_CaughtUp pg \<Longrightarrow> lag s (pg_Next pg) < lag s c"

text \<open>No call of a change reader fails in state \<open>s\<close>.\<close>

definition readable :: "('s, 'c) isle \<Rightarrow> 's \<Rightarrow> bool" where
  "readable ops s \<longleftrightarrow> isle_OpenChangeReader ops s = None \<and> (\<exists>c. isle_Bounds ops s = Inr c) \<and>
     (\<forall>c. \<exists>pg. isle_Read ops s c = Inr pg)"

section \<open>The contract of a store\<close>

locale isle_store = change_feed ops feed rest lag
  for ops :: "('s, 'c) isle" and feed rest lag +
  fixes current :: "'s \<Rightarrow> kv"
    and committed :: "'s \<Rightarrow> kv"
    and view :: "'s \<Rightarrow> kv"
  assumes put_ok: "isle_Put ops k v s = (None, s') \<Longrightarrow> current s' = fmupd k v (current s)"
    and flush_ok: "isle_Flush ops s = (None, s') \<Longrightarrow> current s' = current s \<and> committed s' = current s"
    and refresh_ok: "isle_Refresh ops s = (None, s') \<Longrightarrow>
      current s' = current s \<and> committed s' = committed s \<and> view s' = committed s"
    and maintenance_keeps: "isle_MaintRunOnce ops s = (None, s') \<Longrightarrow>
      current s' = current s \<and> committed s' = committed s \<and> view s' = view s"
    and iterate: "isle_NewIterator ops s lo hi = Inr (es, None) \<Longrightarrow> es = kv_range lo hi (view s)"
    and bootstrap: "isle_BootstrapView ops s = Inr it \<Longrightarrow> it lo hi = Inr (es, None) \<Longrightarrow>
      es = kv_range lo hi (committed s)"
    and feed_commits: "feed_map (feed s) = committed s"
begin

lemma feed_covers: "card (fmdom' (committed s)) \<le> length (feed s)"
  using feed_map_card [of "feed s"] by (simp add: feed_commits)

end

text \<open>
  The states \<open>live\<close> describes are those in which the store serves every call: a writer that no
  other process has fenced off, over a storage service that answers. The calls keep it so.
\<close>

locale live_store = isle_store ops feed rest lag current committed view
  for ops :: "('s, 'c) isle" and feed rest lag current committed view +
  fixes live :: "'s \<Rightarrow> bool"
  assumes live_put: "live s \<Longrightarrow> \<exists>s'. isle_Put ops k v s = (None, s') \<and> live s'"
    and live_flush: "live s \<Longrightarrow> \<exists>s'. isle_Flush ops s = (None, s') \<and> live s'"
    and live_refresh: "live s \<Longrightarrow> \<exists>s'. isle_Refresh ops s = (None, s') \<and> live s'"
    and live_maintenance: "live s \<Longrightarrow> \<exists>s'. isle_MaintRunOnce ops s = (None, s') \<and> live s'"
    and live_iterate: "live s \<Longrightarrow> \<exists>es. isle_NewIterator ops s lo hi = Inr (es, None)"
    and live_bootstrap: "live s \<Longrightarrow> \<exists>it. isle_BootstrapView ops s = Inr it \<and> (\<forall>lo hi. \<exists>es. it lo hi = Inr (es, None))"
    and live_readable: "live s \<Longrightarrow> readable ops s"

section \<open>A store in memory\<close>

text \<open>
  \<open>mm_Log\<close> is the committed change feed, \<open>mm_Pending\<close> the puts not yet flushed, \<open>mm_View\<close> what
  the reader has loaded and \<open>mm_Fenced\<close> the error every write gives once another process owns the
  prefix. A cursor is one more than an index of the log, and a page holds at most \<open>n\<close> changes.
\<close>

record mem =
  mm_Log :: "Change list"
  mm_Pending :: "Change list"
  mm_View :: kv
  mm_Fenced :: "goerror option"

definition mem_empty :: mem where
  "mem_empty = \<lparr>mm_Log = [], mm_Pending = [], mm_View = fmempty, mm_Fenced = None\<rparr>"

definition mem_guard :: "(mem \<Rightarrow> mem) \<Rightarrow> mem action" where
  "mem_guard f s = (case mm_Fenced s of Some e \<Rightarrow> (Some e, s) | None \<Rightarrow> (None, f s))"

definition mem_isle :: "nat \<Rightarrow> (mem, nat) isle" where
  "mem_isle n = \<lparr>
     isle_Put = (\<lambda>k v. mem_guard (\<lambda>s. s\<lparr>mm_Pending := mm_Pending s @ [put_change k v]\<rparr>)),
     isle_Flush = mem_guard (\<lambda>s. s\<lparr>mm_Log := mm_Log s @ mm_Pending s, mm_Pending := []\<rparr>),
     isle_WriterClose = mem_guard (\<lambda>s. s),
     isle_Refresh = (\<lambda>s. (None, s\<lparr>mm_View := feed_map (mm_Log s)\<rparr>)),
     isle_NewIterator = (\<lambda>s lo hi. Inr (kv_range lo hi (mm_View s), None)),
     isle_BootstrapView = (\<lambda>s. Inr (\<lambda>lo hi. Inr (kv_range lo hi (feed_map (mm_Log s)), None))),
     isle_ReaderClose = (\<lambda>s. (None, s)),
     isle_MaintRunOnce = mem_guard (\<lambda>s. s),
     isle_MaintClose = mem_guard (\<lambda>s. s),
     isle_MaintCancel = (\<lambda>s. s),
     isle_DBClose = (\<lambda>s. (None, s)),
     isle_BucketClose = (\<lambda>s. (None, s)),
     isle_OpenChangeReader = (\<lambda>s. None),
     isle_Bounds = (\<lambda>s. Inr (if mm_Log s = [] then 0 else 1)),
     isle_CursorIsZero = (\<lambda>c. c = 0),
     isle_Read = (\<lambda>s c. Inr \<lparr>pg_Changes = take (Suc n) (drop (c - 1) (mm_Log s)),
       pg_Next = max 1 c + length (take (Suc n) (drop (c - 1) (mm_Log s))), pg_CaughtUp = (length (mm_Log s) \<le> max 1 c + n)\<rparr>),
     isle_Head = (\<lambda>s. if mm_Log s = [] then 0 else Suc (length (mm_Log s)))\<rparr>"

definition mem_rest :: "mem \<Rightarrow> nat \<Rightarrow> Change list" where
  "mem_rest s c = drop (c - 1) (mm_Log s)"

definition mem_lag :: "mem \<Rightarrow> nat \<Rightarrow> nat" where
  "mem_lag s c = length (mm_Log s) - (max 1 c - 1)"

definition mem_current :: "mem \<Rightarrow> kv" where
  "mem_current s = feed_map (mm_Log s @ mm_Pending s)"

definition mem_committed :: "mem \<Rightarrow> kv" where
  "mem_committed s = feed_map (mm_Log s)"

lemmas mem_defs = mem_isle_def mem_guard_def mem_rest_def mem_lag_def mem_current_def mem_committed_def

interpretation mem_feed: change_feed "mem_isle n" mm_Log mem_rest mem_lag
proof unfold_locales
  fix s :: mem and c pg
  assume read: "isle_Read (mem_isle n) s c = Inr pg"
  have "Suc n + (c - 1) = max 1 c + n" by (cases c) auto
  then have "drop (c - 1) (mm_Log s) = take (Suc n) (drop (c - 1) (mm_Log s)) @ drop (max 1 c + n) (mm_Log s)"
    using append_take_drop_id [of "Suc n" "drop (c - 1) (mm_Log s)"] by (simp only: drop_drop)
  moreover have "max 1 c + length (take (Suc n) (drop (c - 1) (mm_Log s))) = max 1 c + Suc n" if "\<not> length (mm_Log s) \<le> max 1 c + n"
    using that by (cases c) auto
  ultimately show "mem_rest s c = pg_Changes pg @ (if pg_CaughtUp pg then [] else mem_rest s (pg_Next pg))"
    using read by (auto simp: mem_defs)
  show "\<not> pg_CaughtUp pg \<Longrightarrow> mem_lag s (pg_Next pg) < mem_lag s c"
    using read by (auto simp: mem_defs)
qed (auto simp: mem_defs split: if_splits)

interpretation mem_store: isle_store "mem_isle n" mm_Log mem_rest mem_lag mem_current mem_committed mm_View
  by unfold_locales
    (auto simp: mem_defs feed_map_put [symmetric] split: option.splits simp del: append_assoc simp flip: append_assoc)

lemma mem_readable: "readable (mem_isle n) s"
  by (simp add: readable_def mem_defs)

definition mem_live :: "mem \<Rightarrow> bool" where
  "mem_live s \<longleftrightarrow> mm_Fenced s = None"

interpretation mem_live_store: live_store "mem_isle n" mm_Log mem_rest mem_lag mem_current mem_committed mm_View mem_live
  by unfold_locales (auto simp: mem_defs mem_live_def readable_def)

end
