(* ===== verification/Pipeline_Config.thy ===== *)
theory Pipeline_Config
  imports Go_Text Go_Time Isle_Store
begin

text \<open>
  \<open>internal/pipeline/store.go\<close> and \<open>internal/pipeline/bucket.go\<close>: the storage configuration, the
  environment variables it reads and sets, bucket URLs, cache paths and the creation of the bucket.

  The process environment is a function from names to values, empty where a variable is unset.
  \<open>time.ParseDuration\<close>, \<open>url.Parse\<close> and the calls of the AWS SDK are arguments: what they
  return is an input of the definitions that use it.
\<close>

type_synonym osenv = "string \<Rightarrow> string"
type_synonym Backend = string

definition BackendMemory :: Backend where "BackendMemory = ''memory''"
definition BackendMinIO :: Backend where "BackendMinIO = ''minio''"
definition BackendTigris :: Backend where "BackendTigris = ''tigris''"

lemmas backend_defs = BackendMemory_def BackendMinIO_def BackendTigris_def

definition DefaultChangeFeedRetainFor :: duration where [go_consts]: "DefaultChangeFeedRetainFor = 30 * 24 * hour"
definition MaxChangeFeedRetainFor :: duration where [go_consts]: "MaxChangeFeedRetainFor = 365 * 24 * hour"
definition DefaultCacheRoot :: string where "DefaultCacheRoot = ''data/cache/gedung-peristiwa''"

record StoreConfig =
  sc_Backend :: Backend
  sc_PrefixRoot :: string
  sc_CacheRoot :: string
  sc_MinEndpoint :: string
  sc_MinBucket :: string
  sc_TigrisBucket :: string
  sc_ChangeFeedRetainFor :: duration

definition NormalizeChangeFeedRetainFor :: "duration \<Rightarrow> duration" where
  "NormalizeChangeFeedRetainFor d =
     (if d \<le> 0 then DefaultChangeFeedRetainFor
      else if d > MaxChangeFeedRetainFor then MaxChangeFeedRetainFor else d)"

definition changeFeedRetainForFromEnv :: "(string \<Rightarrow> duration result) \<Rightarrow> osenv \<Rightarrow> string \<Rightarrow> duration" where
  "changeFeedRetainForFromEnv parseDuration env key =
     (if env key = [] then DefaultChangeFeedRetainFor
      else (case parseDuration (env key) of
              Inl _ \<Rightarrow> DefaultChangeFeedRetainFor
            | Inr d \<Rightarrow> NormalizeChangeFeedRetainFor d))"

definition envOr :: "osenv \<Rightarrow> string \<Rightarrow> string \<Rightarrow> string" where
  "envOr env key d = (if env key \<noteq> [] then env key else d)"

definition StoreConfigFromEnv :: "(string \<Rightarrow> duration result) \<Rightarrow> osenv \<Rightarrow> Backend \<Rightarrow> string \<Rightarrow> StoreConfig" where
  "StoreConfigFromEnv parseDuration env backend prefixSuffix =
     \<lparr>sc_Backend = backend, sc_PrefixRoot = prefixSuffix, sc_CacheRoot = DefaultCacheRoot,
      sc_MinEndpoint = envOr env ''MINIO_ENDPOINT'' ''localhost:9000'',
      sc_MinBucket = envOr env ''MINIO_BUCKET'' ''gedung-peristiwa'',
      sc_TigrisBucket = envOr env ''TIGRIS_BUCKET'' (envOr env ''MINIO_BUCKET'' ''gedung-peristiwa''),
      sc_ChangeFeedRetainFor = changeFeedRetainForFromEnv parseDuration env ''CHANGEFEED_RETAIN_FOR''\<rparr>"

definition tenantPrefix :: "string \<Rightarrow> string \<Rightarrow> string" where
  "tenantPrefix tenantID sfx = (if sfx \<noteq> [] then tenantID @ ''-'' @ sfx else tenantID)"

definition default_var :: "string \<Rightarrow> string \<Rightarrow> osenv \<Rightarrow> osenv" where
  "default_var key src env = (if env key = [] \<and> env src \<noteq> [] then env(key := env src) else env)"

definition ensureS3Env :: "Backend \<Rightarrow> osenv \<Rightarrow> osenv" where
  "ensureS3Env backend env =
     (let e1 = default_var ''AWS_ACCESS_KEY_ID'' ''MINIO_ACCESS_KEY'' env;
          e2 = default_var ''AWS_SECRET_ACCESS_KEY'' ''MINIO_SECRET_KEY'' e1;
          e3 = (if backend = BackendMinIO then
                  (let e = e2(''AWS_S3_USE_PATH_STYLE'' := ''true'') in
                   if e ''AWS_REGION'' = [] then e(''AWS_REGION'' := ''us-east-1'') else e)
                else e2)
      in if e3 ''AWS_REGION'' = [] \<and> backend = BackendTigris then e3(''AWS_REGION'' := ''auto'') else e3)"

definition minioBucketURL :: "osenv \<Rightarrow> string \<Rightarrow> string \<Rightarrow> string" where
  "minioBucketURL env bucket endpoint =
     (let region = envOr env ''AWS_REGION'' ''us-east-1'';
          ep = (if \<not> hasPrefix endpoint ''http://'' \<and> \<not> hasPrefix endpoint ''https://''
                then ''http://'' @ endpoint else endpoint)
      in ''s3://'' @ bucket @ ''?endpoint='' @ ep @ ''&region='' @ region @ ''&use_path_style=true'')"

definition tigrisBucketURL :: "osenv \<Rightarrow> string \<Rightarrow> string" where
  "tigrisBucketURL env bucket = ''s3://'' @ bucket @ ''?region='' @ envOr env ''AWS_REGION'' ''auto''"

section \<open>Paths\<close>

text \<open>\<open>filepath.Join\<close> and \<open>filepath.Clean\<close> on slash-separated paths.\<close>

fun path_split :: "string \<Rightarrow> string list" where
  "path_split [] = [[]]"
| "path_split (c # s) = (if c = CHR ''/'' then [] # path_split s
     else (case path_split s of [] \<Rightarrow> [[c]] | w # ws \<Rightarrow> (c # w) # ws))"

fun path_join :: "string list \<Rightarrow> string" where
  "path_join [] = []"
| "path_join [w] = w"
| "path_join (w # ws) = w @ ''/'' @ path_join ws"

text \<open>The stack holds the components kept so far, the last one first.\<close>

fun clean_step :: "bool \<Rightarrow> string \<Rightarrow> string list \<Rightarrow> string list" where
  "clean_step rooted w st =
     (if w = [] \<or> w = ''.'' then st
      else if w = ''..'' then
        (case st of [] \<Rightarrow> (if rooted then [] else [w]) | t # ts \<Rightarrow> (if t = ''..'' then w # st else ts))
      else w # st)"

definition filepath_Clean :: "string \<Rightarrow> string" where
  "filepath_Clean p =
     (let rooted = (p \<noteq> [] \<and> hd p = CHR ''/'');
          body = path_join (rev (fold (clean_step rooted) (path_split p) []))
      in if rooted then CHR ''/'' # body else if body = [] then ''.'' else body)"

definition filepath_Join :: "string list \<Rightarrow> string" where
  "filepath_Join elems =
     (case dropWhile (\<lambda>e. e = []) elems of [] \<Rightarrow> [] | es \<Rightarrow> filepath_Clean (path_join (filter (\<lambda>e. e \<noteq> []) es)))"

definition cacheDir :: "StoreConfig \<Rightarrow> string \<Rightarrow> string" where
  "cacheDir cfg tenantID = filepath_Join [sc_CacheRoot cfg, tenantPrefix tenantID (sc_PrefixRoot cfg)]"

definition AgencyCacheDir :: "StoreConfig \<Rightarrow> string \<Rightarrow> string" where
  "AgencyCacheDir cfg agencyID = cacheDir cfg agencyID"

section \<open>Buckets\<close>

record bucket_env =
  be_Parse :: "string \<Rightarrow> (string \<times> (string \<Rightarrow> string)) result" \<comment> \<open>host and query of a URL\<close>
  be_LoadConfig :: "string \<Rightarrow> goerror option"                  \<comment> \<open>by region\<close>
  be_Create :: "string \<Rightarrow> string \<Rightarrow> (goerror \<times> string option) option"
    \<comment> \<open>by endpoint and bucket: the error, and its API error code if it has one\<close>

definition ensureS3Bucket :: "bucket_env \<Rightarrow> string \<Rightarrow> Backend \<Rightarrow> osenv action" where
  "ensureS3Bucket be bucketURL backend env =
     (case be_Parse be bucketURL of
        Inl e \<Rightarrow> (Some (Wrapf ''parse bucket url'' e), env)
      | Inr (host, query) \<Rightarrow>
          (if host = [] then (Some (Errorf (''bucket name missing in url '' @ fmt_q bucketURL)), env)
           else
             (let env' = ensureS3Env backend env;
                  region = (if query ''region'' = [] then envOr env' ''AWS_REGION'' ''us-east-1'' else query ''region'')
              in case be_LoadConfig be region of
                   Some e \<Rightarrow> (Some (Wrapf ''load aws config'' e), env')
                 | None \<Rightarrow>
                     (case be_Create be (query ''endpoint'') host of
                        None \<Rightarrow> (None, env')
                      | Some (e, code) \<Rightarrow>
                          (if code = Some ''BucketAlreadyOwnedByYou'' \<or> code = Some ''BucketAlreadyExists''
                           then (None, env')
                           else (Some (Wrapf (''create bucket '' @ fmt_q host) e), env'))))))"

definition ensureBucket :: "bucket_env \<Rightarrow> StoreConfig \<Rightarrow> osenv action" where
  "ensureBucket be cfg env =
     (if sc_Backend cfg = BackendMemory then (None, env)
      else if sc_Backend cfg = BackendMinIO then
        ensureS3Bucket be (minioBucketURL env (sc_MinBucket cfg) (sc_MinEndpoint cfg)) BackendMinIO env
      else if sc_Backend cfg = BackendTigris then
        ensureS3Bucket be (tigrisBucketURL env (sc_TigrisBucket cfg)) BackendTigris env
      else (Some (Errorf (''unknown backend '' @ fmt_q (sc_Backend cfg))), env))"

fun str_contains :: "string \<Rightarrow> string \<Rightarrow> bool" where
  "str_contains [] p = (p = [])"
| "str_contains (c # s) p = (hasPrefix (c # s) p \<or> str_contains s p)"

definition isBucketMissingErr :: "goerror option \<Rightarrow> bool" where
  "isBucketMissingErr err =
     (case err of None \<Rightarrow> False
      | Some e \<Rightarrow> (let msg = error_text e in
          str_contains msg ''NoSuchBucket'' \<or> str_contains msg ''NotFound'' \<and> str_contains msg ''ListObjects''))"

section \<open>Properties\<close>

text \<open>However the retention is configured, the change feed is kept for more than no time and
  at most a year; a retention of up to a year given explicitly is used as it is, also one below
  the default of thirty days.\<close>

lemma retention_bounds:
  "0 < sc_ChangeFeedRetainFor (StoreConfigFromEnv parseDuration env backend sfx) \<and>
   sc_ChangeFeedRetainFor (StoreConfigFromEnv parseDuration env backend sfx) \<le> MaxChangeFeedRetainFor \<and>
   NormalizeChangeFeedRetainFor (NormalizeChangeFeedRetainFor d) = NormalizeChangeFeedRetainFor d \<and>
   NormalizeChangeFeedRetainFor hour = hour \<and> hour < DefaultChangeFeedRetainFor"
  by (auto simp: StoreConfigFromEnv_def changeFeedRetainForFromEnv_def NormalizeChangeFeedRetainFor_def go_consts
      split: sum.splits)

lemma default_var_apply:
  "default_var key src env k = (if k = key \<and> env k = [] then env src else env k)"
  by (auto simp: default_var_def)

lemma ensureS3Env_apply:
  "ensureS3Env b env k =
     (if k = ''AWS_ACCESS_KEY_ID'' then (if env k = [] then env ''MINIO_ACCESS_KEY'' else env k)
      else if k = ''AWS_SECRET_ACCESS_KEY'' then (if env k = [] then env ''MINIO_SECRET_KEY'' else env k)
      else if k = ''AWS_S3_USE_PATH_STYLE'' then (if b = BackendMinIO then ''true'' else env k)
      else if k = ''AWS_REGION'' then
        (if env k \<noteq> [] then env k
         else if b = BackendMinIO then ''us-east-1'' else if b = BackendTigris then ''auto'' else [])
      else env k)"
proof -
  have r: "default_var ''AWS_SECRET_ACCESS_KEY'' ''MINIO_SECRET_KEY'' (default_var ''AWS_ACCESS_KEY_ID'' ''MINIO_ACCESS_KEY'' env)
      ''AWS_REGION'' = env ''AWS_REGION''"
    by (simp add: default_var_apply)
  show ?thesis
    by (cases "b = BackendMinIO"; cases "env ''AWS_REGION'' = []"; cases "b = BackendTigris")
      (simp_all add: ensureS3Env_def Let_def r default_var_apply backend_defs)
qed

text \<open>Preparing the S3 environment never overwrites credentials or a region that are set, is
  idempotent, and leaves a region set for both S3 backends.\<close>

lemma ensureS3Env_safe:
  "list_all (\<lambda>k. env k = [] \<or> ensureS3Env b env k = env k) [''AWS_ACCESS_KEY_ID'', ''AWS_SECRET_ACCESS_KEY'', ''AWS_REGION''] \<and>
   ensureS3Env b (ensureS3Env b env) = ensureS3Env b env \<and>
   ensureS3Env BackendMinIO env ''AWS_REGION'' \<noteq> [] \<and> ensureS3Env BackendTigris env ''AWS_REGION'' \<noteq> []"
proof -
  have "ensureS3Env b (ensureS3Env b env) k = ensureS3Env b env k" for k
    by (simp add: ensureS3Env_apply)
  then have "ensureS3Env b (ensureS3Env b env) = ensureS3Env b env" ..
  then show ?thesis
    by (simp add: ensureS3Env_apply backend_defs)
qed

lemma tenantPrefix_inj:
  "tenantPrefix a sfx = tenantPrefix b sfx \<longleftrightarrow> a = b"
  by (simp add: tenantPrefix_def)

end
