(* ===== verification/Change_Feed.thy ===== *)
theory Change_Feed
  imports Isle_Store
begin

text \<open>
  \<open>internal/pipeline/changefeed.go\<close>: counting, draining and summarising the change feed of one
  prefix, and scanning keys. The three feed functions share one loop that reads page after page;
  it is \<open>read_pages\<close>, a partial function, so that a feed that never catches up has the value
  \<^term>\<open>None\<close>. Under the paging contract the loop always returns, and what it computes
  does not depend on how the feed is cut into pages.
\<close>

section \<open>The page loop\<close>

partial_function (option) read_pages ::
  "('s, 'c) isle \<Rightarrow> 's \<Rightarrow> (Change list \<Rightarrow> 'a action) \<Rightarrow> 'c \<Rightarrow> 'a \<Rightarrow> (goerror option \<times> 'a) option" where
  [code]: "read_pages ops s step cursor acc =
     (case isle_Read ops s cursor of
        Inl e \<Rightarrow> Some (Some e, acc)
      | Inr page \<Rightarrow>
          (case step (pg_Changes page) acc of
             (Some e, acc') \<Rightarrow> Some (Some e, acc')
           | (None, acc') \<Rightarrow>
               (if pg_CaughtUp page then Some (None, acc')
                else read_pages ops s step (pg_Next page) acc')))"

text \<open>Opening the reader, asking for its bounds, and the loop; an error before the loop, or an
  empty feed, returns the accumulator unchanged.\<close>

definition read_feed ::
  "('s, 'c) isle \<Rightarrow> 's \<Rightarrow> (Change list \<Rightarrow> 'a action) \<Rightarrow> 'a \<Rightarrow> (goerror option \<times> 'a) option" where
  "read_feed ops s step acc =
     (case isle_OpenChangeReader ops s of
        Some e \<Rightarrow> Some (Some e, acc)
      | None \<Rightarrow>
          (case isle_Bounds ops s of
             Inl e \<Rightarrow> Some (Some e, acc)
           | Inr oldest \<Rightarrow>
               (if isle_CursorIsZero ops oldest then Some (None, acc)
                else read_pages ops s step oldest acc)))"

section \<open>Counting, draining, summarising\<close>

definition CountChangeFeed :: "('s, 'c) isle \<Rightarrow> 's \<Rightarrow> (goerror option \<times> nat) option" where
  "CountChangeFeed ops s = read_feed ops s (\<lambda>chs n. (None, n + length chs)) 0"

text \<open>The loop over the changes of one page; \<open>apply\<close> may have effects on a state \<open>'a\<close>.\<close>

fun apply_changes :: "(Change \<Rightarrow> 'a action) \<Rightarrow> Change list \<Rightarrow> (nat \<times> 'a) action" where
  "apply_changes apply [] (n, a) = (None, (n, a))"
| "apply_changes apply (ch # chs) (n, a) =
     (case apply ch a of
        (Some e, a') \<Rightarrow> (Some e, (n, a'))
      | (None, a') \<Rightarrow> apply_changes apply chs (n + 1, a'))"

definition DrainChangeFeed ::
  "('s, 'c) isle \<Rightarrow> 's \<Rightarrow> (Change \<Rightarrow> 'a action) \<Rightarrow> 'a \<Rightarrow> (goerror option \<times> (nat \<times> 'a)) option" where
  "DrainChangeFeed ops s apply a = read_feed ops s (apply_changes apply) (0, a)"

record ChangeFeedSummary =
  cs_ChangeCount :: nat
  cs_From :: int
  cs_To :: int
  cs_Empty :: bool

definition ChangeFeedSummary_zero :: ChangeFeedSummary where
  "ChangeFeedSummary_zero = \<lparr>cs_ChangeCount = 0, cs_From = 0, cs_To = 0, cs_Empty = False\<rparr>"

definition summarize_change :: "(string \<Rightarrow> int) option \<Rightarrow> Change \<Rightarrow> ChangeFeedSummary \<Rightarrow> ChangeFeedSummary" where
  "summarize_change timestampNS ch sm =
     (if ch_Operation ch \<noteq> ChangePut then sm
      else let sum1 = sm\<lparr>cs_ChangeCount := cs_ChangeCount sm + 1\<rparr> in
        case timestampNS of None \<Rightarrow> sum1
        | Some f \<Rightarrow> (let ts = f (ch_Key ch) in
            if ts \<le> 0 then sum1
            else let sum2 = (if cs_From sum1 = 0 \<or> ts < cs_From sum1 then sum1\<lparr>cs_From := ts\<rparr> else sum1)
              in (if ts > cs_To sum2 then sum2\<lparr>cs_To := ts\<rparr> else sum2)))"

definition SummarizeChangeFeed ::
  "('s, 'c) isle \<Rightarrow> 's \<Rightarrow> (string \<Rightarrow> int) option \<Rightarrow> (goerror option \<times> ChangeFeedSummary) option" where
  "SummarizeChangeFeed ops s timestampNS =
     (case isle_OpenChangeReader ops s of
        Some e \<Rightarrow> Some (Some e, ChangeFeedSummary_zero)
      | None \<Rightarrow>
          (case isle_Bounds ops s of
             Inl e \<Rightarrow> Some (Some e, ChangeFeedSummary_zero)
           | Inr oldest \<Rightarrow>
               (if isle_CursorIsZero ops oldest then Some (None, ChangeFeedSummary_zero\<lparr>cs_Empty := True\<rparr>)
                else
                  (case read_pages ops s (\<lambda>chs sm. (None, fold (summarize_change timestampNS) chs sm)) oldest
                          ChangeFeedSummary_zero of
                     None \<Rightarrow> None
                   | Some (Some e, sm) \<Rightarrow> Some (Some e, sm)
                   | Some (None, sm) \<Rightarrow> Some (None, sm\<lparr>cs_Empty := (cs_ChangeCount sm = 0)\<rparr>)))))"

section \<open>Scanning keys\<close>

definition RefreshReader :: "('s, 'c) isle \<Rightarrow> bool \<Rightarrow> 's action" where
  "RefreshReader ops present s = (if \<not> present then (Some (Errorf ''nil reader''), s) else isle_Refresh ops s)"

definition ScanKeysIter :: "('s, 'c) isle \<Rightarrow> string \<Rightarrow> string \<Rightarrow> 's \<Rightarrow> string list result \<times> 's" where
  "ScanKeysIter ops minKey maxKey s =
     (case isle_Refresh ops s of
        (Some e, s') \<Rightarrow> (Inl e, s')
      | (None, s') \<Rightarrow>
          (case isle_NewIterator ops s' minKey maxKey of
             Inl e \<Rightarrow> (Inl e, s')
           | Inr (es, Some e) \<Rightarrow> (Inl e, s')
           | Inr (es, None) \<Rightarrow> (Inr (map fst es), s')))"

section \<open>The loop under the paging contract\<close>

text \<open>A page function that treats a page as the sequence of its changes.\<close>

definition page_hom :: "(Change list \<Rightarrow> 'a action) \<Rightarrow> bool" where
  "page_hom step \<longleftrightarrow> (\<forall>a. step [] a = (None, a)) \<and>
     (\<forall>xs ys a. step (xs @ ys) a = (case step xs a of (Some e, a') \<Rightarrow> (Some e, a') | (None, a') \<Rightarrow> step ys a'))"

lemma page_hom_fold: "page_hom (\<lambda>chs a. (None, fold f chs a))"
  by (simp add: page_hom_def)

lemma page_hom_apply: "page_hom (apply_changes f)"
proof -
  have "apply_changes f (xs @ ys) (n, a) =
      (case apply_changes f xs (n, a) of (Some e, p) \<Rightarrow> (Some e, p) | (None, p) \<Rightarrow> apply_changes f ys p)" for xs ys n a
    by (induction f xs "(n, a)" arbitrary: n a rule: apply_changes.induct) (auto split: prod.splits option.splits)
  then show ?thesis by (simp add: page_hom_def)
qed

context change_feed
begin

lemma read_pages_returns: "\<exists>r. read_pages ops s step c acc = Some r"
proof (induction "lag s c" arbitrary: c acc rule: less_induct)
  case less
  have "\<exists>r. read_pages ops s step (pg_Next pg) acc' = Some r"
    if "isle_Read ops s c = Inr pg" "\<not> pg_CaughtUp pg" for pg acc'
    using less that read_lag by blast
  then show ?case
    by (subst read_pages.simps) (auto split: sum.splits option.splits prod.splits)
qed

lemma read_pages_rest:
  assumes "page_hom step" and "\<And>c. \<exists>pg. isle_Read ops s c = Inr pg"
  shows "read_pages ops s step c acc = Some (step (rest s c) acc)"
proof (induction "lag s c" arbitrary: c acc rule: less_induct)
  case less
  obtain pg where pg: "isle_Read ops s c = Inr pg" using assms(2) by blast
  have IH: "read_pages ops s step (pg_Next pg) acc' = Some (step (rest s (pg_Next pg)) acc')"
    if "\<not> pg_CaughtUp pg" for acc'
    using less that pg read_lag by blast
  have "step (rest s c) acc = (case step (pg_Changes pg) acc of (Some e, a') \<Rightarrow> (Some e, a')
      | (None, a') \<Rightarrow> step (if pg_CaughtUp pg then [] else rest s (pg_Next pg)) a')"
    using assms(1) read_rest [OF pg] by (simp add: page_hom_def)
  then show ?case
    using IH pg assms(1) by (subst read_pages.simps) (auto simp: page_hom_def split: option.splits prod.splits)
qed

lemma read_feed_returns: "\<exists>r. read_feed ops s step acc = Some r"
  using read_pages_returns by (auto simp: read_feed_def split: option.splits sum.splits)

lemma read_feed_all:
  assumes "page_hom step" and "readable ops s"
  shows "read_feed ops s step acc = Some (step (feed s) acc)"
proof -
  obtain c where c: "isle_OpenChangeReader ops s = None" "isle_Bounds ops s = Inr c"
    using assms(2) by (auto simp: readable_def)
  show ?thesis
    using c assms read_pages_rest [OF assms(1), of s] bounds_zero [OF c(2)] bounds_oldest [OF c(2)]
    by (auto simp: read_feed_def readable_def page_hom_def)
qed

lemma summarize_all:
  assumes "readable ops s"
  shows "SummarizeChangeFeed ops s tsf =
    Some (None, (fold (summarize_change tsf) (feed s) ChangeFeedSummary_zero)
      \<lparr>cs_Empty := (cs_ChangeCount (fold (summarize_change tsf) (feed s) ChangeFeedSummary_zero) = 0)\<rparr>)"
proof -
  obtain c where c: "isle_OpenChangeReader ops s = None" "isle_Bounds ops s = Inr c"
    using assms by (auto simp: readable_def)
  show ?thesis
    using c assms read_pages_rest [OF page_hom_fold, of s "summarize_change tsf"] bounds_zero [OF c(2)] bounds_oldest [OF c(2)]
    by (auto simp: SummarizeChangeFeed_def readable_def ChangeFeedSummary_zero_def)
qed

lemma summarize_returns: "\<exists>r. SummarizeChangeFeed ops s tsf = Some r"
proof -
  have "\<exists>r. read_pages ops s step c acc = Some r" for step :: "Change list \<Rightarrow> ChangeFeedSummary action" and c acc
    by (rule read_pages_returns)
  then show ?thesis
    by (auto simp: SummarizeChangeFeed_def split: option.splits sum.splits prod.splits) (metis option.distinct(1))
qed

end

section \<open>What the feed functions compute\<close>

text \<open>C38: the feed loops end whatever the store answers, as long as every page that is not caught
  up brings the cursor nearer to the head.\<close>

theorem feed_loops_terminate:
  fixes ops :: "('s, 'c) isle" and apply_f :: "Change \<Rightarrow> 'a action"
  assumes "change_feed ops feed rest lag"
  shows "\<exists>n d sm. CountChangeFeed ops s = Some n \<and> DrainChangeFeed ops s apply_f a = Some d \<and>
    SummarizeChangeFeed ops s timestampNS = Some sm"
proof -
  have "\<exists>n. CountChangeFeed ops s = Some n" "\<exists>d. DrainChangeFeed ops s apply_f a = Some d"
    unfolding CountChangeFeed_def DrainChangeFeed_def by (rule change_feed.read_feed_returns [OF assms])+
  then show ?thesis
    using change_feed.summarize_returns [OF assms, of s timestampNS] by blast
qed

definition sample_feed :: mem where
  "sample_feed = mem_empty\<lparr>mm_Log :=
     [put_change ''a:1:5'' JNull, put_change ''a:2:3'' JNull, put_change ''a:3:x'' JNull,
      \<lparr>ch_Operation = ChangeDelete, ch_Key = ''a:1:1'', ch_Value = JNull\<rparr>]\<rparr>"

theorem feed_loops_terminate_witness:
  "\<exists>n d sm. CountChangeFeed (mem_isle 1) sample_feed = Some n \<and>
    DrainChangeFeed (mem_isle 1) sample_feed (\<lambda>ch (a :: nat). (None, Suc a)) 0 = Some d \<and>
    SummarizeChangeFeed (mem_isle 1) sample_feed None = Some sm"
  by (rule feed_loops_terminate [OF mem_feed.change_feed_axioms])

text \<open>The state of the callback after the first \<open>i\<close> changes of a feed.\<close>

definition applied :: "(Change \<Rightarrow> 'a action) \<Rightarrow> Change list \<Rightarrow> 'a \<Rightarrow> nat \<Rightarrow> 'a" where
  "applied f chs a i = fold (\<lambda>ch x. snd (f ch x)) (take i chs) a"

lemma apply_changes_applied:
  "\<exists>e k a'. apply_changes f chs (n, a) = (e, (n + k, a')) \<and> (\<forall>i < k. fst (f (chs ! i) (applied f chs a i)) = None) \<and>
     (case e of None \<Rightarrow> k = length chs \<and> a' = applied f chs a k
      | Some x \<Rightarrow> k < length chs \<and> f (chs ! k) (applied f chs a k) = (Some x, a'))"
proof (induction chs arbitrary: n a)
  case (Cons ch chs)
  obtain r a1 where ch: "f ch a = (r, a1)" by fastforce
  show ?case
  proof (cases r)
    case None
    obtain e k a' where IH: "apply_changes f chs (n + 1, a1) = (e, (n + 1 + k, a'))"
        "\<forall>i < k. fst (f (chs ! i) (applied f chs a1 i)) = None"
        "case e of None \<Rightarrow> k = length chs \<and> a' = applied f chs a1 k | Some x \<Rightarrow> k < length chs \<and> f (chs ! k) (applied f chs a1 k) = (Some x, a')"
      using Cons.IH by blast
    have "applied f (ch # chs) a (Suc i) = applied f chs a1 i" for i by (simp add: applied_def ch)
    moreover have "applied f (ch # chs) a 0 = a" by (simp add: applied_def)
    ultimately show ?thesis
      using IH None ch by (intro exI [of _ e] exI [of _ "Suc k"] exI [of _ a']) (auto simp: less_Suc_eq_0_disj split: option.splits)
  next
    case (Some x)
    then show ?thesis using ch by (intro exI [of _ "Some x"] exI [of _ 0] exI [of _ a1]) (simp add: applied_def)
  qed
qed (simp add: applied_def)

text \<open>C15: when no call fails, draining applies the changes of the feed one after the other, each
  once, to the state the ones before it left, up to the first that the callback refuses, and returns
  that error, the number of changes applied and the last state; counting gives the number of
  changes. How the feed is paged plays no part.\<close>

theorem drain_is_sequential:
  fixes ops :: "('s, 'c) isle" and apply_f :: "Change \<Rightarrow> 'a action"
  assumes "change_feed ops feed rest lag" and "readable ops s"
  shows "(\<exists>e k a'. DrainChangeFeed ops s apply_f a = Some (e, (k, a')) \<and>
      (\<forall>i < k. fst (apply_f (feed s ! i) (applied apply_f (feed s) a i)) = None) \<and>
      (case e of None \<Rightarrow> k = length (feed s) \<and> a' = applied apply_f (feed s) a k
       | Some x \<Rightarrow> k < length (feed s) \<and> apply_f (feed s ! k) (applied apply_f (feed s) a k) = (Some x, a'))) \<and>
    CountChangeFeed ops s = Some (None, length (feed s))"
proof -
  have "page_hom (\<lambda>chs n. (None, n + length chs))"
    by (simp add: page_hom_def)
  from change_feed.read_feed_all [OF assms(1) this assms(2)] apply_changes_applied [of apply_f "feed s" 0 a] show ?thesis
    by (simp add: DrainChangeFeed_def CountChangeFeed_def change_feed.read_feed_all [OF assms(1) page_hom_apply assms(2)])
qed

theorem drain_is_sequential_witness:
  "DrainChangeFeed (mem_isle 1) sample_feed (\<lambda>ch ks. (None, ks @ [ch_Key ch])) [] =
     Some (None, (4, [''a:1:5'', ''a:2:3'', ''a:3:x'', ''a:1:1''])) \<and>
   CountChangeFeed (mem_isle 1) sample_feed = Some (None, 4)"
proof -
  let ?f = "\<lambda>ch ks. (None, ks @ [ch_Key ch])"
  obtain e k a' where d: "DrainChangeFeed (mem_isle 1) sample_feed ?f [] = Some (e, (k, a'))"
      "case e of None \<Rightarrow> k = length (mm_Log sample_feed) \<and> a' = applied ?f (mm_Log sample_feed) [] k
       | Some x \<Rightarrow> k < length (mm_Log sample_feed) \<and> ?f (mm_Log sample_feed ! k) (applied ?f (mm_Log sample_feed) [] k) = (Some x, a')"
    and c: "CountChangeFeed (mem_isle 1) sample_feed = Some (None, length (mm_Log sample_feed))"
    using drain_is_sequential [OF mem_feed.change_feed_axioms mem_readable, of 1 sample_feed ?f "[]"] by blast
  then show ?thesis
    by (cases e) (simp_all add: applied_def sample_feed_def mem_empty_def put_change_def)
qed

section \<open>Summaries\<close>

definition put_times :: "(string \<Rightarrow> int) \<Rightarrow> Change list \<Rightarrow> int list" where
  "put_times f chs = filter (\<lambda>t. 0 < t) (map (\<lambda>ch. f (ch_Key ch)) (filter (\<lambda>ch. ch_Operation ch = ChangePut) chs))"

lemma summarize_count:
  "cs_ChangeCount (fold (summarize_change tsf) chs sm) =
     cs_ChangeCount sm + length (filter (\<lambda>ch. ch_Operation ch = ChangePut) chs)"
  by (induction chs arbitrary: sm) (auto simp: summarize_change_def Let_def split: option.splits)

lemma put_times_Cons [simp]:
  "put_times f (ch # chs) =
     (if ch_Operation ch = ChangePut \<and> 0 < f (ch_Key ch) then f (ch_Key ch) # put_times f chs else put_times f chs)"
  by (simp add: put_times_def)

lemma summarize_change_range:
  "cs_From (summarize_change (Some f) ch sm) =
     (if ch_Operation ch = ChangePut \<and> 0 < f (ch_Key ch)
      then (if cs_From sm = 0 then f (ch_Key ch) else min (f (ch_Key ch)) (cs_From sm)) else cs_From sm)"
  "cs_To (summarize_change (Some f) ch sm) =
     (if ch_Operation ch = ChangePut \<and> 0 < f (ch_Key ch) then max (f (ch_Key ch)) (cs_To sm) else cs_To sm)"
  by (auto simp: summarize_change_def Let_def)

lemma summarize_from:
  "0 \<le> cs_From sm \<Longrightarrow> cs_From (fold (summarize_change (Some f)) chs sm) =
     (if cs_From sm = 0 then (if put_times f chs = [] then 0 else Min (set (put_times f chs)))
      else Min (insert (cs_From sm) (set (put_times f chs))))"
proof (induction chs arbitrary: sm)
  case (Cons ch chs)
  have "0 \<le> cs_From (summarize_change (Some f) ch sm)"
    using Cons.prems by (simp add: summarize_change_range)
  from Cons.IH [OF this] Cons.prems show ?case
    by (cases "put_times f chs = []") (auto simp: summarize_change_range min.left_commute min.commute)
qed (simp add: put_times_def)

lemma summarize_to:
  "cs_To (fold (summarize_change (Some f)) chs sm) = Max (insert (cs_To sm) (set (put_times f chs)))"
proof (induction chs arbitrary: sm)
  case (Cons ch chs)
  show ?case
    by (cases "put_times f chs = []") (auto simp: Cons.IH summarize_change_range max.left_commute max.commute)
qed (simp add: put_times_def)

lemma Max_insert_0: "(\<And>t. t \<in> set ts \<Longrightarrow> (0 :: int) < t) \<Longrightarrow> Max (insert 0 (set ts)) = (if ts = [] then 0 else Max (set ts))"
  by (auto simp: max_def) (metis Max_in List.finite_set less_imp_le set_empty)

text \<open>When no call fails, the summary counts the puts of the feed; its range goes from the
  earliest to the latest positive timestamp of the puts, both 0 when there is none, and it is
  empty exactly when there is no put.\<close>

lemma summary_range:
  fixes ops :: "('s, 'c) isle"
  assumes "change_feed ops feed rest lag" and "readable ops s"
  shows "\<exists>sm. SummarizeChangeFeed ops s (Some f) = Some (None, sm) \<and>
    cs_ChangeCount sm = length (filter (\<lambda>ch. ch_Operation ch = ChangePut) (feed s)) \<and>
    cs_Empty sm = (cs_ChangeCount sm = 0) \<and>
    cs_From sm = (if put_times f (feed s) = [] then 0 else Min (set (put_times f (feed s)))) \<and>
    cs_To sm = (if put_times f (feed s) = [] then 0 else Max (set (put_times f (feed s))))"
proof -
  have "t \<in> set (put_times f (feed s)) \<Longrightarrow> 0 < t" for t by (auto simp: put_times_def)
  then show ?thesis
    using change_feed.summarize_all [OF assms, of "Some f"]
    by (simp add: summarize_count summarize_from summarize_to Max_insert_0 ChangeFeedSummary_zero_def)
qed

lemma summary_range_example:
  "\<exists>sm. SummarizeChangeFeed (mem_isle 1) sample_feed (Some (\<lambda>k. int (length k))) = Some (None, sm) \<and>
    cs_ChangeCount sm = 3 \<and> cs_From sm = 5 \<and> cs_To sm = 5"
  using summary_range [OF mem_feed.change_feed_axioms mem_readable, of 1 sample_feed "\<lambda>k. int (length k)"]
  by (auto simp: sample_feed_def mem_empty_def put_change_def put_times_def)

end
