(* ===== verification/Prefix_DB.thy ===== *)
theory Prefix_DB
  imports Pipeline_Config Change_Feed
begin

text \<open>
  \<open>internal/pipeline/db.go\<close>: opening and closing the handles of one database prefix.

  What the store, the file system and the bucket service answer while a prefix is opened is the
  record \<open>open_env\<close>. Opening returns, beside its result, the sequence of handles it opened and
  closed, so that a handle left open on a failure path shows.
\<close>

section \<open>Handles and configuration\<close>

datatype handle = HBucket | HDB | HWriter | HReader | HMaintenance

datatype handle_event = Opened handle | Closed handle

record 's PrefixDB =
  pd_ID :: string
  pd_Prefix :: string
  pd_CacheDir :: string
  pd_State :: 's
  pd_DB :: bool            \<comment> \<open>the handles: whether the pointer is not nil\<close>
  pd_Writer :: bool
  pd_Reader :: bool
  pd_Maintenance :: bool
  pd_closeBucket :: bool
  pd_maintCancel :: bool

record PrefixOpenConfig =
  oc_Store :: StoreConfig
  oc_PrefixID :: string
  oc_FlushEvery :: duration
  oc_Retention :: bool
  oc_RunMaint :: bool

record 's open_env =
  oe_Bucket :: bucket_env
  oe_OpenBucket :: "string \<Rightarrow> 's result"
  oe_OpenURL :: "string \<Rightarrow> string \<Rightarrow> 's result"
  oe_MkdirAll :: "string \<Rightarrow> goerror option"
  oe_OpenWriter :: "duration \<Rightarrow> 's action"
  oe_OpenReader :: "string \<Rightarrow> 's action"
  oe_OpenMaintenance :: "duration option \<Rightarrow> 's action"

section \<open>Opening\<close>

text \<open>The result is the database with its change feed enabled and whether there is a bucket to
  close; the environment variables may change.\<close>

definition openIsleDB ::
  "'s open_env \<Rightarrow> StoreConfig \<Rightarrow> string \<Rightarrow> osenv \<Rightarrow> ('s \<times> bool) result \<times> handle_event list \<times> osenv" where
  "openIsleDB oe cfg prefixID env =
     (let pre = tenantPrefix prefixID (sc_PrefixRoot cfg);
          s3 = (\<lambda>url.
            (let env1 = ensureS3Env (sc_Backend cfg) env in
             case ensureBucket (oe_Bucket oe) cfg env1 of
               (Some e, env2) \<Rightarrow> (Inl (Wrapf ''ensure bucket'' e), [], env2)
             | (None, env2) \<Rightarrow>
                 (case oe_OpenURL oe (url env2) pre of
                    Inl e \<Rightarrow> (Inl e, [], env2)
                  | Inr s \<Rightarrow> (Inr (s, False), [Opened HDB], env2))))
      in if sc_Backend cfg = BackendMemory then
           (case oe_OpenBucket oe pre of
              Inl e \<Rightarrow> (Inl e, [Opened HBucket, Closed HBucket], env)
            | Inr s \<Rightarrow> (Inr (s, True), [Opened HBucket, Opened HDB], env))
         else if sc_Backend cfg = BackendMinIO then
           s3 (\<lambda>e. minioBucketURL e (sc_MinBucket cfg) (sc_MinEndpoint cfg))
         else if sc_Backend cfg = BackendTigris then
           s3 (\<lambda>e. tigrisBucketURL e (sc_TigrisBucket cfg))
         else (Inl (Errorf (''unknown backend '' @ fmt_q (sc_Backend cfg))), [], env))"

definition close_db :: "bool \<Rightarrow> handle_event list" where
  "close_db closeBucket = Closed HDB # (if closeBucket then [Closed HBucket] else [])"

definition OpenPrefixDB ::
  "'s open_env \<Rightarrow> PrefixOpenConfig \<Rightarrow> osenv \<Rightarrow> 's PrefixDB result \<times> handle_event list \<times> osenv" where
  "OpenPrefixDB oe cfg env =
     (case openIsleDB oe (oc_Store cfg) (oc_PrefixID cfg) env of
        (Inl e, tr, env') \<Rightarrow> (Inl (Wrapf (''open db '' @ oc_PrefixID cfg) e), tr, env')
      | (Inr (s, closeBucket), tr, env') \<Rightarrow>
          (let cache = cacheDir (oc_Store cfg) (oc_PrefixID cfg) in
           case oe_MkdirAll oe cache of
             Some e \<Rightarrow> (Inl e, tr @ close_db closeBucket, env')
           | None \<Rightarrow>
          (case oe_OpenWriter oe (oc_FlushEvery cfg) s of
             (Some e, _) \<Rightarrow>
               (Inl (Wrapf (''open writer '' @ oc_PrefixID cfg) e), tr @ close_db closeBucket, env')
           | (None, s1) \<Rightarrow>
          (case oe_OpenReader oe cache s1 of
             (Some e, _) \<Rightarrow>
               (Inl (Wrapf (''open reader '' @ oc_PrefixID cfg) e),
                tr @ [Opened HWriter, Closed HWriter] @ close_db closeBucket, env')
           | (None, s2) \<Rightarrow>
          (case oe_OpenMaintenance oe
                  (if oc_Retention cfg
                   then Some (NormalizeChangeFeedRetainFor (sc_ChangeFeedRetainFor (oc_Store cfg))) else None) s2 of
             (Some e, _) \<Rightarrow>
               (Inl (Wrapf (''open maintenance '' @ oc_PrefixID cfg) e),
                tr @ [Opened HWriter, Opened HReader, Closed HReader, Closed HWriter] @ close_db closeBucket, env')
           | (None, s3) \<Rightarrow>
               (Inr \<lparr>pd_ID = oc_PrefixID cfg,
                     pd_Prefix = tenantPrefix (oc_PrefixID cfg) (sc_PrefixRoot (oc_Store cfg)),
                     pd_CacheDir = cache, pd_State = s3, pd_DB = True, pd_Writer = True, pd_Reader = True,
                     pd_Maintenance = True, pd_closeBucket = closeBucket, pd_maintCancel = oc_RunMaint cfg\<rparr>,
                tr @ [Opened HWriter, Opened HReader, Opened HMaintenance], env'))))))"

record 's ReaderDB =
  rd_State :: 's
  rd_closeBucket :: bool

definition OpenReaderDB ::
  "'s open_env \<Rightarrow> StoreConfig \<Rightarrow> string \<Rightarrow> osenv \<Rightarrow> 's ReaderDB result \<times> handle_event list \<times> osenv" where
  "OpenReaderDB oe cfg prefixID env =
     (case openIsleDB oe cfg prefixID env of
        (Inl e, tr, env') \<Rightarrow> (Inl e, tr, env')
      | (Inr (s, closeBucket), tr, env') \<Rightarrow>
          (let cache = cacheDir cfg prefixID in
           case oe_MkdirAll oe cache of
             Some e \<Rightarrow> (Inl e, tr @ close_db closeBucket, env')
           | None \<Rightarrow>
          (case oe_OpenReader oe cache s of
             (Some e, _) \<Rightarrow> (Inl e, tr @ close_db closeBucket, env')
           | (None, s1) \<Rightarrow>
               (Inr \<lparr>rd_State = s1, rd_closeBucket = closeBucket\<rparr>, tr @ [Opened HReader], env'))))"

text \<open>The closer \<open>OpenReaderDB\<close> returns stops at the first error.\<close>

definition reader_closer :: "('s, 'c) isle \<Rightarrow> 's ReaderDB \<Rightarrow> goerror option \<times> handle list" where
  "reader_closer ops r =
     (case isle_ReaderClose ops (rd_State r) of
        (Some e, _) \<Rightarrow> (Some e, [HReader])
      | (None, s1) \<Rightarrow>
          (case isle_DBClose ops s1 of
             (Some e, _) \<Rightarrow> (Some e, [HReader, HDB])
           | (None, s2) \<Rightarrow>
               (if rd_closeBucket r then (fst (isle_BucketClose ops s2), [HReader, HDB, HBucket])
                else (None, [HReader, HDB]))))"

section \<open>Maintenance and closing\<close>

definition with_state :: "'s PrefixDB \<Rightarrow> ('a \<times> 's) \<Rightarrow> 'a \<times> 's PrefixDB" where
  "with_state p r = (fst r, p\<lparr>pd_State := snd r\<rparr>)"

definition RunMaintenanceOnce :: "('s, 'c) isle \<Rightarrow> 's PrefixDB action" where
  "RunMaintenanceOnce ops p = with_state p (isle_MaintRunOnce ops (pd_State p))"

text \<open>\<open>keep(f())\<close>: run a step and remember its error if it is the first.\<close>

definition keep :: "'s action \<Rightarrow> goerror option \<times> 's \<Rightarrow> goerror option \<times> 's" where
  "keep f r = (case f (snd r) of (e, s') \<Rightarrow> (first_error (fst r) e, s'))"

definition ignore_error :: "'s action \<Rightarrow> 's action" where
  "ignore_error f s = (None, snd (f s))"

definition PrefixDB_Close :: "('s, 'c) isle \<Rightarrow> 's PrefixDB action" where
  "PrefixDB_Close ops p =
     (let s0 = (if pd_maintCancel p then isle_MaintCancel ops (pd_State p) else pd_State p);
          r0 = (None, s0);
          r1 = (if pd_Writer p then keep (isle_Flush ops) r0 else r0);
          r2 = (if pd_Maintenance p then
                  keep (isle_MaintClose ops) (fst r1, snd (isle_MaintRunOnce ops (snd r1))) else r1);
          r3 = (if pd_Writer p then keep (isle_WriterClose ops) r2 else r2);
          r4 = (if pd_Reader p then keep (isle_ReaderClose ops) r3 else r3);
          r5 = (if pd_DB p then keep (isle_DBClose ops) r4 else r4);
          r6 = (if pd_closeBucket p then keep (isle_BucketClose ops) r5 else r5)
      in with_state p r6)"

section \<open>No handle leaks while opening\<close>

text \<open>The handles an event sequence leaves open, the last opened first; closing a handle that is
  not the last one opened is not allowed.\<close>

fun still_open :: "handle_event list \<Rightarrow> handle list \<Rightarrow> handle list option" where
  "still_open [] hs = Some hs"
| "still_open (Opened h # es) hs = still_open es (h # hs)"
| "still_open (Closed h # es) [] = None"
| "still_open (Closed h # es) (h' # hs) = (if h = h' then still_open es hs else None)"

definition db_handles :: "bool \<Rightarrow> handle list" where
  "db_handles closeBucket = HDB # (if closeBucket then [HBucket] else [])"

lemma still_open_append:
  "still_open (xs @ ys) hs = (case still_open xs hs of None \<Rightarrow> None | Some hs' \<Rightarrow> still_open ys hs')"
  by (induction xs hs rule: still_open.induct) auto

lemma still_open_close_db [simp]:
  "still_open (close_db b) (db_handles b) = Some []"
  by (simp add: close_db_def db_handles_def)

lemma openIsleDB_handles:
  "openIsleDB oe cfg pid env = (r, tr, env') \<Longrightarrow>
   still_open tr [] = Some (case r of Inl _ \<Rightarrow> [] | Inr (s, b) \<Rightarrow> db_handles b)"
  by (auto simp: openIsleDB_def Let_def db_handles_def split: if_splits sum.splits prod.splits option.splits)

text \<open>C20: on every path of opening a prefix, a failure leaves no handle open, the handles being
  closed in the reverse order of their opening; a success leaves exactly the maintenance, reader,
  writer and database handles open, and the bucket when there is one.\<close>

theorem open_leaks_nothing:
  "case OpenPrefixDB oe cfg env of (r, tr, _) \<Rightarrow>
     still_open tr [] = Some (case r of
       Inl _ \<Rightarrow> []
     | Inr p \<Rightarrow> [HMaintenance, HReader, HWriter, HDB] @ (if pd_closeBucket p then [HBucket] else []))"
proof -
  obtain r tr env' where o: "openIsleDB oe (oc_Store cfg) (oc_PrefixID cfg) env = (r, tr, env')"
    by (metis prod_cases3)
  show ?thesis
    using openIsleDB_handles [OF o]
    by (auto simp: OpenPrefixDB_def o Let_def still_open_append db_handles_def close_db_def
        split: sum.splits prod.splits option.splits)
qed

text \<open>Running a sequence of steps to its end, with their errors.\<close>

fun run_steps :: "'s action list \<Rightarrow> 's \<Rightarrow> goerror option list \<times> 's" where
  "run_steps [] s = ([], s)"
| "run_steps (f # fs) s = (case f s of (e, s') \<Rightarrow> map_prod (Cons e) id (run_steps fs s'))"

definition first_of :: "goerror option list \<Rightarrow> goerror option" where
  "first_of es = fold (\<lambda>e acc. first_error acc e) es None"

definition reader_steps :: "('s, 'c) isle \<Rightarrow> 's ReaderDB \<Rightarrow> 's action list" where
  "reader_steps ops r = [isle_ReaderClose ops, isle_DBClose ops] @ (if rd_closeBucket r then [isle_BucketClose ops] else [])"

text \<open>The number of steps up to and including the first that fails.\<close>

definition until_error :: "goerror option list \<Rightarrow> nat" where
  "until_error errs = min (length errs) (Suc (length (takeWhile (\<lambda>e. e = None) errs)))"

lemma reader_closer_steps:
  "case run_steps (reader_steps ops r) (rd_State r) of (errs, s') \<Rightarrow>
     reader_closer ops r = (first_of errs, take (until_error errs) (HReader # db_handles (rd_closeBucket r)))"
  by (cases "rd_closeBucket r")
    (auto simp: reader_closer_def reader_steps_def until_error_def first_of_def db_handles_def split: prod.splits option.splits)

lemma still_open_take: "still_open (map Closed (take n hs)) hs = Some (drop n hs)"
  by (induction hs arbitrary: n) (auto simp: take_Cons drop_Cons split: nat.splits)

text \<open>C39: a failed opening of a reader-only database leaves no handle open, a successful one exactly the reader, the database and
  the bucket that was opened for it. The closer it returns closes them in this order up to and including the first
  whose close fails, returns that error, or none if none fails, and leaves exactly the rest open: the database and the bucket
  when closing the reader fails, the bucket when closing the database fails.\<close>

theorem reader_open_and_closer:
  assumes "OpenReaderDB oe cfg pid env = (r, tr, env')"
  shows "case r of
      Inl e \<Rightarrow> still_open tr [] = Some []
    | Inr p \<Rightarrow> still_open tr [] = Some ([HReader, HDB] @ (if rd_closeBucket p then [HBucket] else [])) \<and>
        (\<forall>e1 e2 e3 s1 s2 s3 err hs. isle_ReaderClose ops (rd_State p) = (e1, s1) \<longrightarrow> isle_DBClose ops s1 = (e2, s2) \<longrightarrow>
           isle_BucketClose ops s2 = (e3, s3) \<longrightarrow> reader_closer ops p = (err, hs) \<longrightarrow>
           err = (if e1 \<noteq> None then e1 else if e2 \<noteq> None then e2 else if rd_closeBucket p then e3 else None) \<and>
           still_open (tr @ map Closed hs) [] = Some
             (if e1 \<noteq> None then HDB # (if rd_closeBucket p then [HBucket] else [])
              else if e2 \<noteq> None then (if rd_closeBucket p then [HBucket] else [])
              else []))"
proof -
  obtain r0 tr0 env0 where o: "openIsleDB oe cfg pid env = (r0, tr0, env0)"
    by (metis prod_cases3)
  have opened: "still_open tr [] = Some (case r of Inl _ \<Rightarrow> [] | Inr p \<Rightarrow> HReader # db_handles (rd_closeBucket p))"
    using openIsleDB_handles [OF o] assms
    by (auto simp: OpenReaderDB_def o Let_def still_open_append db_handles_def close_db_def split: sum.splits prod.splits option.splits)
  show ?thesis
  proof (cases r)
    case (Inr p)
    have "err = (if e1 \<noteq> None then e1 else if e2 \<noteq> None then e2 else if rd_closeBucket p then e3 else None) \<and>
        still_open (tr @ map Closed hs) [] = Some (if e1 \<noteq> None then HDB # (if rd_closeBucket p then [HBucket] else [])
          else if e2 \<noteq> None then (if rd_closeBucket p then [HBucket] else []) else [])"
      if c: "isle_ReaderClose ops (rd_State p) = (e1, s1)" "isle_DBClose ops s1 = (e2, s2)" "isle_BucketClose ops s2 = (e3, s3)"
        "reader_closer ops p = (err, hs)" for e1 e2 e3 s1 s2 s3 err hs
    proof -
      obtain errs s' where run: "run_steps (reader_steps ops p) (rd_State p) = (errs, s')" by fastforce
      have "err = first_of errs" and hs: "hs = take (until_error errs) (HReader # db_handles (rd_closeBucket p))"
        using reader_closer_steps [of ops p] c(4) run by auto
      moreover have "errs = [e1, e2] @ (if rd_closeBucket p then [e3] else [])"
        using run c(1-3) by (auto simp: reader_steps_def split: if_splits)
      ultimately show ?thesis
        using opened Inr
        by (auto simp: still_open_append still_open_take hs first_of_def until_error_def db_handles_def split: option.splits)
    qed
    then show ?thesis using opened Inr by (auto simp: db_handles_def)
  qed (use opened in simp)
qed

definition mem_open :: "mem open_env" where
  "mem_open = \<lparr>oe_Bucket = \<lparr>be_Parse = (\<lambda>u. Inl (Errorf u)), be_LoadConfig = (\<lambda>r. None), be_Create = (\<lambda>e b. None)\<rparr>,
     oe_OpenBucket = (\<lambda>p. Inr mem_empty), oe_OpenURL = (\<lambda>u p. Inr mem_empty), oe_MkdirAll = (\<lambda>d. None),
     oe_OpenWriter = (\<lambda>d s. (None, s)), oe_OpenReader = (\<lambda>d s. (None, s)), oe_OpenMaintenance = (\<lambda>d s. (None, s))\<rparr>"

text \<open>A database whose close fails leaves the bucket open.\<close>

theorem reader_open_and_closer_witness:
  "let ops = (mem_isle 1)\<lparr>isle_DBClose := (\<lambda>s. (Some (Errorf ''busy''), s))\<rparr>
   in case OpenReaderDB mem_open (StoreConfigFromEnv (\<lambda>v. Inl (Errorf v)) (\<lambda>k. []) BackendMemory []) ''t'' (\<lambda>k. []) of
        (Inr p, tr, _) \<Rightarrow> fst (reader_closer ops p) = Some (Errorf ''busy'') \<and>
          still_open (tr @ map Closed (snd (reader_closer ops p))) [] = Some [HBucket]
      | (Inl e, tr, _) \<Rightarrow> False"
proof -
  let ?ops = "(mem_isle 1)\<lparr>isle_DBClose := (\<lambda>s. (Some (Errorf ''busy''), s))\<rparr>"
  let ?cfg = "StoreConfigFromEnv (\<lambda>v. Inl (Errorf v)) (\<lambda>k. []) BackendMemory []"
  obtain p tr env' where o: "OpenReaderDB mem_open ?cfg ''t'' (\<lambda>k. []) = (Inr p, tr, env')" and closes: "rd_closeBucket p"
    by (simp add: OpenReaderDB_def openIsleDB_def mem_open_def StoreConfigFromEnv_def Let_def)
  obtain s1 where c: "isle_ReaderClose ?ops (rd_State p) = (None, s1)" "isle_DBClose ?ops s1 = (Some (Errorf ''busy''), s1)"
    by (simp add: mem_isle_def)
  obtain e3 s3 err hs where b: "isle_BucketClose ?ops s1 = (e3, s3)" and r: "reader_closer ?ops p = (err, hs)" by fastforce
  from reader_open_and_closer [OF o, of ?ops] c b r
  have "err = Some (Errorf ''busy'') \<and> still_open (tr @ map Closed hs) [] = Some [HBucket]" using closes by fastforce
  then show ?thesis by (simp only: Let_def o r prod.case sum.case fst_conv snd_conv)
qed

section \<open>Closing goes through every step\<close>

text \<open>The steps of a shutdown.\<close>

definition close_steps :: "('s, 'c) isle \<Rightarrow> 's PrefixDB \<Rightarrow> 's action list" where
  "close_steps ops p =
     (if pd_Writer p then [isle_Flush ops] else []) @
     (if pd_Maintenance p then [ignore_error (isle_MaintRunOnce ops), isle_MaintClose ops] else []) @
     (if pd_Writer p then [isle_WriterClose ops] else []) @
     (if pd_Reader p then [isle_ReaderClose ops] else []) @
     (if pd_DB p then [isle_DBClose ops] else []) @
     (if pd_closeBucket p then [isle_BucketClose ops] else [])"

lemma fold_keep:
  "fold keep fs (acc, s) = (case run_steps fs s of (es, s') \<Rightarrow> (fold (\<lambda>e acc. first_error acc e) es acc, s'))"
  by (induction fs arbitrary: acc s) (auto simp: keep_def split: prod.splits)

lemma length_run_steps: "length (fst (run_steps fs s)) = length fs"
  by (induction fs arbitrary: s) (auto split: prod.splits)

lemma keep_ignore: "keep (ignore_error f) r = (fst r, snd (f (snd r)))"
  by (simp add: keep_def ignore_error_def)

lemma PrefixDB_Close_steps:
  "PrefixDB_Close ops p = with_state p
     (fold keep (close_steps ops p) (None, if pd_maintCancel p then isle_MaintCancel ops (pd_State p) else pd_State p))"
  by (simp add: PrefixDB_Close_def close_steps_def Let_def keep_ignore)

text \<open>Closing a prefix runs every step of the shutdown whatever fails before it, in the order
  flush, maintenance pass, maintenance, writer, reader, database, bucket, and returns the first
  error of the steps, the maintenance pass left out.\<close>

lemma PrefixDB_Close_all_steps:
  "case run_steps (close_steps ops p) (if pd_maintCancel p then isle_MaintCancel ops (pd_State p) else pd_State p) of
     (errs, s') \<Rightarrow> length errs = length (close_steps ops p) \<and>
       PrefixDB_Close ops p = (first_of errs, p\<lparr>pd_State := s'\<rparr>)"
  using length_run_steps [of "close_steps ops p"]
  by (auto simp: PrefixDB_Close_steps fold_keep first_of_def with_state_def split: prod.splits) (metis fst_conv)+

end
