(* ===== verification/Key_Scan.thy ===== *)
theory Key_Scan
  imports Go_Text
begin

text \<open>
  Range scans over byte-string keys. The store's iterators take an inclusive lower and an
  exclusive upper key; the program scans all keys with a prefix by computing the upper key from
  the prefix. The loop of \<open>prefixUpperBound\<close> is here (the packages \<open>model\<close> and \<open>gtfs\<close>
  each have a copy of it); the locale \<open>key_scan\<close> is what a client of such a scan relies on.
\<close>

text \<open>\<open>for i := len(out) - 1; i >= 0; i--\<close>, with the index shifted by one.\<close>

fun upper_loop :: "string \<Rightarrow> nat \<Rightarrow> string" where
  "upper_loop out 0 = out @ [CHR 0x00]"
| "upper_loop out (Suc i) =
     (if out ! i < byte_max then take (Suc i) (out[i := byte_succ (out ! i)])
      else upper_loop out i)"

lemma upper_loop_max:
  "(\<And>m. j \<le> m \<Longrightarrow> m < i \<Longrightarrow> out ! m = byte_max) \<Longrightarrow> j \<le> i \<Longrightarrow> upper_loop out i = upper_loop out j"
  by (induction i) (auto simp: le_Suc_eq)

lemma upper_loop_eq:
  assumes "p = q @ c # replicate n byte_max" and "c < byte_max"
  shows "upper_loop p (length p) = q @ [byte_succ c]"
proof -
  have "upper_loop p (length p) = upper_loop p (Suc (length q))"
    using assms(1) by (intro upper_loop_max) (auto simp: nth_append nth_Cons')
  also have "\<dots> = q @ [byte_succ c]"
    using assms by (simp add: nth_append list_update_append)
  finally show ?thesis .
qed

lemma split_last_not_max:
  "\<exists>c\<in>set p. c \<noteq> byte_max \<Longrightarrow> \<exists>q c n. p = q @ c # replicate n byte_max \<and> c < byte_max"
proof (induction p rule: rev_induct)
  case (snoc x p)
  show ?case
  proof (cases "x = byte_max")
    case True
    with snoc obtain q c n where "p = q @ c # replicate n byte_max" "c < byte_max" by auto
    then have "p @ [x] = q @ c # replicate (Suc n) byte_max" using True
      by (simp add: replicate_append_same)
    with \<open>c < byte_max\<close> show ?thesis by blast
  next
    case False
    then have "x < byte_max" using byte_le_max [of x] by auto
    then show ?thesis by (metis append.right_neutral replicate_0)
  qed
qed simp

lemma upper_loop_range:
  assumes "\<exists>c\<in>set p. c \<noteq> byte_max"
  shows "p \<le> k \<and> k < upper_loop p (length p) \<longleftrightarrow> prefix p k"
proof -
  from split_last_not_max [OF assms] obtain q c n
    where p: "p = q @ c # replicate n byte_max" and c: "c < byte_max" by blast
  show ?thesis
    unfolding upper_loop_eq [OF p c]
    unfolding p by (rule lex_prefix_interval) (simp add: byte_succ_less [OF c])
qed

section \<open>The contract of a prefix scan\<close>

locale key_scan =
  fixes lo hi :: "'id \<Rightarrow> string"
  assumes in_range: "lo i \<le> k \<and> k < hi i \<longleftrightarrow> prefix (lo i) k"
begin

text \<open>Scanning by bounds is filtering by prefix, whatever the stored keys are.\<close>

lemma scan_filter: "filter (\<lambda>k. lo i \<le> k \<and> k < hi i) ks = filter (prefix (lo i)) ks"
  by (simp add: in_range)

text \<open>Scans of two identifiers whose prefixes do not extend each other share no key.\<close>

lemma scans_disjoint:
  assumes "\<not> prefix (lo i) (lo j)" and "\<not> prefix (lo j) (lo i)"
  shows "\<not> (lo i \<le> k \<and> k < hi i \<and> lo j \<le> k \<and> k < hi j)"
  using assms in_range [of i k] in_range [of j k] prefix_same_cases by blast

text \<open>Adding a key under the prefix adds it to the scan; any other key leaves the scan alone.\<close>

lemma scan_insert:
  "filter (\<lambda>k. lo i \<le> k \<and> k < hi i) (k # ks) =
     (if prefix (lo i) k then k # filter (prefix (lo i)) ks else filter (prefix (lo i)) ks)"
  by (simp add: scan_filter in_range)

end

end
