(* ===== verification/Event_Model.thy ===== *)
theory Event_Model
  imports Key_Scan Go_Json
begin

text \<open>
  \<open>internal/model/event.go\<close>: the event stored for a tenant, its key
  \<open>tenant:type:idempotency-key\<close>, its JSON value, and the bounds of the scans over all events
  of a tenant or of a tenant and type.
\<close>

type_synonym EventType = string

definition EventTransaction :: EventType where "EventTransaction = ''transaction''"
definition EventBalanceCheck :: EventType where "EventBalanceCheck = ''balance_check''"
definition EventKYCUpdate :: EventType where "EventKYCUpdate = ''kyc_update''"
definition EventFraudAlert :: EventType where "EventFraudAlert = ''fraud_alert''"
definition EventSettlement :: EventType where "EventSettlement = ''settlement''"

record Payload =
  pl_Amount :: float64
  pl_Currency :: string
  pl_AccountID :: string
  pl_Description :: string
  pl_Metadata :: "(string, string) fmap"

record Event =
  ev_TenantID :: string
  ev_EventType :: EventType
  ev_Timestamp :: time
  ev_Payload :: Payload
  ev_IdempotencyKey :: string
  ev_Retry :: bool

definition Event_Key :: "Event \<Rightarrow> string" where
  "Event_Key e = ev_TenantID e @ '':'' @ ev_EventType e @ '':'' @ ev_IdempotencyKey e"

definition Event_KeyBytes :: "Event \<Rightarrow> string" where
  "Event_KeyBytes e = Event_Key e"

section \<open>JSON\<close>

definition Payload_json :: "Payload \<Rightarrow> json result" where
  "Payload_json p = json_object
     [mem_float_omit ''amount'' (pl_Amount p),
      mem_string_omit ''currency'' (pl_Currency p),
      mem_string_omit ''account_id'' (pl_AccountID p),
      mem_string_omit ''description'' (pl_Description p),
      mem_strmap_omit ''metadata'' (sorted_list_of_fmap (pl_Metadata p))]"

definition Event_ValueBytes :: "Event \<Rightarrow> json result" where
  "Event_ValueBytes e = json_object
     [mem_string ''tenant_id'' (ev_TenantID e),
      mem_string ''event_type'' (ev_EventType e),
      mem_time ''timestamp'' (ev_Timestamp e),
      mem_json ''payload'' (Payload_json (ev_Payload e)),
      mem_string ''idempotency_key'' (ev_IdempotencyKey e),
      mem_bool_omit ''retry'' (ev_Retry e)]"

definition Payload_zero :: Payload where
  "Payload_zero = \<lparr>pl_Amount = Fin 0, pl_Currency = [], pl_AccountID = [], pl_Description = [],
     pl_Metadata = fmempty\<rparr>"

definition Event_zero :: Event where
  "Event_zero = \<lparr>ev_TenantID = [], ev_EventType = [], ev_Timestamp = time_zero,
     ev_Payload = Payload_zero, ev_IdempotencyKey = [], ev_Retry = False\<rparr>"

fun json_string :: "json \<Rightarrow> string option" where
  "json_string (JString s) = Some s"
| "json_string j = None"

fun dec_strmap :: "json \<Rightarrow> (string, string) fmap \<Rightarrow> (string, string) fmap result" where
  "dec_strmap (JObject ms) m =
     (case those (map (\<lambda>(k, j). map_option (Pair k) (json_string j)) ms) of
        None \<Rightarrow> Inl json_type_error
      | Some kvs \<Rightarrow> Inr (fold (\<lambda>(k, v). fmupd k v) kvs m))"
| "dec_strmap JNull m = Inr m"
| "dec_strmap j m = Inl json_type_error"

definition Payload_fields :: "string \<Rightarrow> Payload field_decoder option" where
  "Payload_fields n =
     (if n = ''amount'' then Some (dec_float (\<lambda>x p. p\<lparr>pl_Amount := x\<rparr>))
      else if n = ''currency'' then Some (dec_string (\<lambda>x p. p\<lparr>pl_Currency := x\<rparr>))
      else if n = ''account_id'' then Some (dec_string (\<lambda>x p. p\<lparr>pl_AccountID := x\<rparr>))
      else if n = ''description'' then Some (dec_string (\<lambda>x p. p\<lparr>pl_Description := x\<rparr>))
      else if n = ''metadata'' then Some (\<lambda>j p. map_sum id (\<lambda>m. p\<lparr>pl_Metadata := m\<rparr>) (dec_strmap j (pl_Metadata p)))
      else None)"

definition Event_fields :: "string \<Rightarrow> Event field_decoder option" where
  "Event_fields n =
     (if n = ''tenant_id'' then Some (dec_string (\<lambda>x e. e\<lparr>ev_TenantID := x\<rparr>))
      else if n = ''event_type'' then Some (dec_string (\<lambda>x e. e\<lparr>ev_EventType := x\<rparr>))
      else if n = ''timestamp'' then Some (dec_time (\<lambda>x e. e\<lparr>ev_Timestamp := x\<rparr>))
      else if n = ''payload'' then Some (\<lambda>j e. map_sum id (\<lambda>p. e\<lparr>ev_Payload := p\<rparr>) (decode_struct Payload_fields (ev_Payload e) j))
      else if n = ''idempotency_key'' then Some (dec_string (\<lambda>x e. e\<lparr>ev_IdempotencyKey := x\<rparr>))
      else if n = ''retry'' then Some (dec_bool (\<lambda>x e. e\<lparr>ev_Retry := x\<rparr>))
      else None)"

definition ParseEvent :: "json \<Rightarrow> Event result" where
  "ParseEvent data = decode_struct Event_fields Event_zero data"

section \<open>Scan bounds\<close>

definition prefixUpperBound :: "string \<Rightarrow> string" where
  "prefixUpperBound p = upper_loop p (length p)"

definition TenantPrefix :: "string \<Rightarrow> string" where
  "TenantPrefix tenantID = tenantID @ '':''"

definition TenantUpperBound :: "string \<Rightarrow> string" where
  "TenantUpperBound tenantID = prefixUpperBound (tenantID @ '':'')"

definition TypePrefix :: "string \<Rightarrow> EventType \<Rightarrow> string" where
  "TypePrefix tenantID eventType = tenantID @ '':'' @ eventType @ '':''"

definition TypeUpperBound :: "string \<Rightarrow> EventType \<Rightarrow> string" where
  "TypeUpperBound tenantID eventType = prefixUpperBound (tenantID @ '':'' @ eventType @ '':'')"

definition TenantFromKey :: "string \<Rightarrow> string" where
  "TenantFromKey key =
     (case index_byte key (CHR '':'') of
        Some i \<Rightarrow> (if i > 0 then take i key else key)
      | None \<Rightarrow> key)"

lemma prefixUpperBound_range:
  "CHR '':'' \<in> set p \<Longrightarrow> p \<le> k \<and> k < prefixUpperBound p \<longleftrightarrow> prefix p k"
  unfolding prefixUpperBound_def by (rule upper_loop_range) (auto intro: bexI [where x = "CHR '':''"])

interpretation tenant_scan: key_scan TenantPrefix TenantUpperBound
  by unfold_locales
    (unfold TenantPrefix_def TenantUpperBound_def, rule prefixUpperBound_range, simp)

interpretation type_scan: key_scan "\<lambda>(t, y). TypePrefix t y" "\<lambda>(t, y). TypeUpperBound t y"
  by unfold_locales
    (unfold TypePrefix_def TypeUpperBound_def split_beta, rule prefixUpperBound_range, simp)

section \<open>Properties\<close>

lemma fmlookup_fold_fmupd:
  "fmlookup (fold (\<lambda>(k, v). fmupd k v) kvs m) x =
     (case map_of (rev kvs) x of Some v \<Rightarrow> Some v | None \<Rightarrow> fmlookup m x)"
  by (induction kvs arbitrary: m) (auto simp: map_add_def split: option.splits)

lemma distinct_keys_sorted_list_of_fmap: "distinct (map fst (sorted_list_of_fmap m))"
  by (simp add: sorted_list_of_fmap_def comp_def sorted_list_of_fset.rep_eq)

lemma map_of_rev_distinct: "distinct (map fst xs) \<Longrightarrow> map_of (rev xs) = map_of xs"
proof (induction xs)
  case (Cons p xs)
  obtain a b where p: "p = (a, b)" by force
  with Cons.prems have "map_of xs a = None" by (simp add: map_of_eq_None_iff)
  with Cons p show ?case by (auto simp: fun_eq_iff map_add_def split: option.splits)
qed simp

lemma fold_fmupd_sorted_list: "fold (\<lambda>(k, v). fmupd k v) (sorted_list_of_fmap m) fmempty = m"
proof (rule fmap_ext)
  fix x
  have "map_of (rev (sorted_list_of_fmap m)) x = map_of (sorted_list_of_fmap m) x"
    by (simp only: map_of_rev_distinct [OF distinct_keys_sorted_list_of_fmap])
  then show "fmlookup (fold (\<lambda>(k, v). fmupd k v) (sorted_list_of_fmap m) fmempty) x = fmlookup m x"
    by (simp add: fmlookup_fold_fmupd split: option.splits)
qed

lemma dec_strmap_metadata:
  "dec_strmap (JObject (map (\<lambda>(k, v). (k, JString v)) (sorted_list_of_fmap m))) fmempty = Inr m"
proof -
  have "those (map (\<lambda>(k, j). map_option (Pair k) (json_string j)) (map (\<lambda>(k, v). (k, JString v)) kvs)) = Some kvs"
    for kvs :: "(string \<times> string) list" by (induction kvs) auto
  then show ?thesis by (simp only: dec_strmap.simps option.case fold_fmupd_sorted_list)
qed

declare dec_strmap.simps(1) [simp del]

lemma sorted_list_of_fmap_Nil: "sorted_list_of_fmap m = [] \<longleftrightarrow> m = fmempty"
proof
  assume "sorted_list_of_fmap m = []"
  then show "m = fmempty" using fold_fmupd_sorted_list [of m] by simp
qed (simp add: sorted_list_of_fmap_def sorted_list_of_fset.rep_eq)

lemma Payload_roundtrip:
  "pl_Amount p = Fin x \<Longrightarrow> \<exists>j. Payload_json p = Inr j \<and> decode_struct Payload_fields Payload_zero j = Inr p"
  by (cases p) (simp add: Payload_json_def json_encode_defs Payload_fields_def Payload_zero_def
      dec_strmap_metadata sorted_list_of_fmap_Nil)

lemma Payload_json_error: "\<not> float_finite (pl_Amount p) \<Longrightarrow> \<exists>e. Payload_json p = Inl e"
  by (cases "pl_Amount p") (simp_all add: Payload_json_def json_encode_defs)

text \<open>The bounds of a tenant scan and of a tenant-and-type scan select exactly the keys that
  start with \<open>tenant:\<close> and \<open>tenant:type:\<close>.\<close>

lemma tenant_scan_exact:
  "(TenantPrefix t \<le> k \<and> k < TenantUpperBound t \<longleftrightarrow> prefix (t @ '':'') k) \<and>
   (TypePrefix t y \<le> k \<and> k < TypeUpperBound t y \<longleftrightarrow> prefix (t @ '':'' @ y @ '':'') k)"
  using tenant_scan.in_range [of t k] type_scan.in_range [of "(t, y)" k]
  by (simp add: TenantPrefix_def TypePrefix_def)

lemma TenantFromKey_append:
  "t \<noteq> [] \<Longrightarrow> CHR '':'' \<notin> set t \<Longrightarrow> TenantFromKey (t @ CHR '':'' # s) = t"
  by (simp add: TenantFromKey_def)

lemma colon_prefix_eq:
  "CHR '':'' \<notin> set t \<Longrightarrow> CHR '':'' \<notin> set u \<Longrightarrow> prefix (t @ '':'') (u @ CHR '':'' # s) \<longleftrightarrow> t = u"
proof (induction t arbitrary: u)
  case Nil
  then show ?case by (cases u) auto
next
  case (Cons a t)
  then show ?case by (cases u) auto
qed

text \<open>The tenant of an event's key is the event's tenant, and among tenants whose names hold
  no colon only that tenant's scan sees the key.\<close>

lemma Event_Key_tenant:
  assumes "ev_TenantID e \<noteq> []" and "CHR '':'' \<notin> set (ev_TenantID e)"
  shows "TenantFromKey (Event_Key e) = ev_TenantID e \<and>
    (\<forall>t. CHR '':'' \<notin> set t \<longrightarrow>
       (TenantPrefix t \<le> Event_Key e \<and> Event_Key e < TenantUpperBound t \<longleftrightarrow> t = ev_TenantID e))"
  using assms tenant_scan.in_range
  by (simp add: Event_Key_def TenantFromKey_append TenantPrefix_def colon_prefix_eq)

definition sample_event :: Event where
  "sample_event = \<lparr>ev_TenantID = ''tenant-alpha'', ev_EventType = EventTransaction, ev_Timestamp = 1700000000 * second,
     ev_Payload = Payload_zero\<lparr>pl_Amount := Fin 42, pl_Currency := ''MYR'', pl_Metadata := fmupd ''source'' ''simulation'' fmempty\<rparr>,
     ev_IdempotencyKey = ''018bcfe5-6800-7000-8000-000000000001'', ev_Retry = False\<rparr>"

lemma Event_Key_tenant_example:
  "TenantFromKey (Event_Key sample_event) = ''tenant-alpha'' \<and>
   TenantPrefix ''tenant-alpha'' \<le> Event_Key sample_event \<and>
   Event_Key sample_event < TenantUpperBound ''tenant-alpha''"
  using Event_Key_tenant [of sample_event] by (simp add: sample_event_def)

text \<open>Two events with the same key have the same tenant, type and idempotency key, when tenant
  and type hold no colon: distinct events do not overwrite each other.\<close>

lemma Event_Key_inj:
  assumes "CHR '':'' \<notin> set (ev_TenantID e)" "CHR '':'' \<notin> set (ev_EventType e)"
    and "CHR '':'' \<notin> set (ev_TenantID f)" "CHR '':'' \<notin> set (ev_EventType f)"
  shows "Event_Key e = Event_Key f \<longleftrightarrow>
    ev_TenantID e = ev_TenantID f \<and> ev_EventType e = ev_EventType f \<and>
    ev_IdempotencyKey e = ev_IdempotencyKey f"
  using assms by (simp add: Event_Key_def colon_split)

lemma Event_Key_inj_example:
  "Event_Key sample_event \<noteq> Event_Key (sample_event\<lparr>ev_EventType := EventSettlement\<rparr>)"
  using Event_Key_inj [of sample_event "sample_event\<lparr>ev_EventType := EventSettlement\<rparr>"]
  by (simp add: sample_event_def EventTransaction_def EventSettlement_def)

lemma Event_ValueBytes_ok:
  assumes "float_finite (pl_Amount (ev_Payload e))" and "time_json_ok (ev_Timestamp e)"
  shows "\<exists>j. Event_ValueBytes e = Inr j"
proof -
  obtain x where "pl_Amount (ev_Payload e) = Fin x" using assms(1) by (auto simp: float_finite_iff)
  from Payload_roundtrip [OF this] assms(2) show ?thesis
    by (auto simp: Event_ValueBytes_def json_encode_defs)
qed

text \<open>An event's stored value parses back to the event; encoding fails exactly when the
  amount is not a finite number or the timestamp has no RFC 3339 text.\<close>

lemma Event_value_roundtrip:
  "case Event_ValueBytes e of
     Inr j \<Rightarrow> float_finite (pl_Amount (ev_Payload e)) \<and> time_json_ok (ev_Timestamp e) \<and> ParseEvent j = Inr e
   | Inl _ \<Rightarrow> \<not> (float_finite (pl_Amount (ev_Payload e)) \<and> time_json_ok (ev_Timestamp e))"
proof (cases "float_finite (pl_Amount (ev_Payload e))")
  case True
  then obtain x where "pl_Amount (ev_Payload e) = Fin x" by (auto simp: float_finite_iff)
  from Payload_roundtrip [OF this] obtain j where
    "Payload_json (ev_Payload e) = Inr j" "decode_struct Payload_fields Payload_zero j = Inr (ev_Payload e)"
    by blast
  with True show ?thesis
    by (cases e) (simp add: Event_ValueBytes_def ParseEvent_def json_encode_defs Event_fields_def Event_zero_def)
next
  case False
  then show ?thesis using Payload_json_error [OF False]
    by (auto simp: Event_ValueBytes_def json_encode_defs)
qed

end
