(* ===== verification/Event_Gen.thy ===== *)
theory Event_Gen
  imports Event_Model
begin

text \<open>
  \<open>internal/eventgen/generator.go\<close>: the simulated traffic of events and duplicate retries.

  The environment of a run is the record \<open>gen_env\<close>: the wall clock (its successive readings), what
  the context answers, the identifiers \<open>uuid.NewV7\<close> gives, and the operations of a random source
  over a state \<open>'r\<close>; \<open>math.Sin\<close> is one of its fields. The program's floating-point shares,
  rates and amounts are taken as exact rationals.
\<close>

record 'r gen_env =
  ge_Now :: "nat \<Rightarrow> time"
  ge_CtxErr :: "nat \<Rightarrow> goerror option"    \<comment> \<open>the context at the head of an iteration\<close>
  ge_WaitErr :: "nat \<Rightarrow> goerror option"   \<comment> \<open>the context during the wait of an iteration\<close>
  ge_UUID :: "nat \<Rightarrow> string result"
  ge_Float64 :: "'r \<Rightarrow> rat \<times> 'r"
  ge_Intn :: "nat \<Rightarrow> 'r \<Rightarrow> nat \<times> 'r"
  ge_NewRand :: "int \<Rightarrow> 'r"              \<comment> \<open>a new source with the given seed\<close>
  ge_Sin :: "rat \<Rightarrow> rat"                 \<comment> \<open>the sine of \<open>2 \<pi> x\<close>\<close>

record Emission =
  em_Event :: Event
  em_Retry :: bool
  em_Unique :: bool

record 'r Config =
  cg_TotalUnique :: int
  cg_Duration :: duration
  cg_DuplicateRate :: rat
  cg_NoDelay :: bool
  cg_Now :: "(nat \<Rightarrow> time) option"
  cg_Rand :: "'r option"

definition DefaultConfig :: "'r gen_env \<Rightarrow> 'r Config" where
  "DefaultConfig ge = \<lparr>cg_TotalUnique = 1000, cg_Duration = 60 * second, cg_DuplicateRate = 1 / 10,
     cg_NoDelay = False, cg_Now = Some (ge_Now ge), cg_Rand = Some (ge_NewRand ge 42)\<rparr>"

definition tenants :: "(string \<times> rat) list" where
  "tenants = [(''tenant-alpha'', 40 / 100), (''tenant-beta'', 25 / 100), (''tenant-gamma'', 15 / 100),
     (''tenant-delta'', 12 / 100), (''tenant-epsilon'', 8 / 100)]"

definition eventTypes :: "(EventType \<times> rat) list" where
  "eventTypes = [(EventTransaction, 50 / 100), (EventBalanceCheck, 25 / 100), (EventSettlement, 15 / 100),
     (EventKYCUpdate, 5 / 100), (EventFraudAlert, 5 / 100)]"

section \<open>Drawing\<close>

text \<open>The loop that adds up shares until the draw is reached.\<close>

fun pick_share :: "rat \<Rightarrow> rat \<Rightarrow> ('a \<times> rat) list \<Rightarrow> 'a option" where
  "pick_share x acc [] = None"
| "pick_share x acc ((a, share) # rest) = (if x \<le> acc + share then Some a else pick_share x (acc + share) rest)"

definition pickTenant :: "'r gen_env \<Rightarrow> 'r \<Rightarrow> string \<times> 'r" where
  "pickTenant ge r =
     (let (x, r') = ge_Float64 ge r in
      (case pick_share x 0 tenants of Some t \<Rightarrow> t | None \<Rightarrow> fst (tenants ! (length tenants - 1)), r'))"

definition pickEventType :: "'r gen_env \<Rightarrow> 'r \<Rightarrow> EventType \<times> 'r" where
  "pickEventType ge r =
     (let (x, r') = ge_Float64 ge r in
      (case pick_share x 0 eventTypes of Some t \<Rightarrow> t | None \<Rightarrow> fst (eventTypes ! 0), r'))"

definition fmtAccount :: "'r gen_env \<Rightarrow> 'r \<Rightarrow> string \<times> 'r" where
  "fmtAccount ge r =
     (let (a, r1) = ge_Intn ge 26 r; (d, r2) = ge_Intn ge 10 r1
      in (''acct-'' @ [char_of (65 + a)] @ [char_of (48 + d)], r2))"

definition randomPayload :: "'r gen_env \<Rightarrow> 'r \<Rightarrow> EventType \<Rightarrow> Payload \<times> 'r" where
  "randomPayload ge r et =
     (let (acct, r1) = fmtAccount ge r;
          p = Payload_zero\<lparr>pl_AccountID := acct, pl_Currency := ''MYR'',
                pl_Metadata := fmap_of_list [(''source'', ''simulation'')]\<rparr>
      in if et = EventTransaction \<or> et = EventSettlement then
           (let (x, r2) = ge_Float64 ge r1 in (p\<lparr>pl_Amount := Fin (10 + x * 5000), pl_Description := ''payment''\<rparr>, r2))
         else if et = EventBalanceCheck then (p\<lparr>pl_Description := ''balance inquiry''\<rparr>, r1)
         else if et = EventKYCUpdate then (p\<lparr>pl_Description := ''kyc refresh''\<rparr>, r1)
         else if et = EventFraudAlert then
           (let (x, r2) = ge_Float64 ge r1 in (p\<lparr>pl_Amount := Fin (x * 100), pl_Description := ''fraud signal''\<rparr>, r2))
         else (p, r1))"

text \<open>Conversion to an integer and the remainder round towards zero.\<close>

definition rat_trunc :: "rat \<Rightarrow> int" where
  "rat_trunc x = (if 0 \<le> x then \<lfloor>x\<rfloor> else \<lceil>x\<rceil>)"

definition int_quot :: "int \<Rightarrow> int \<Rightarrow> int" where
  "int_quot a b = sgn a * sgn b * (\<bar>a\<bar> div \<bar>b\<bar>)"

definition int_rem :: "int \<Rightarrow> int \<Rightarrow> int" where
  "int_rem a b = sgn a * (\<bar>a\<bar> mod \<bar>b\<bar>)"

definition trafficMultiplier :: "'r gen_env \<Rightarrow> duration \<Rightarrow> 'r \<Rightarrow> rat \<times> 'r" where
  "trafficMultiplier ge elapsed r =
     (let sec = of_int elapsed / 1000000000;
          intSec = rat_trunc sec;
          base0 = 1 + 1 / 2 * ge_Sin ge (sec / 15);
          base1 = (if int_rem intSec 20 \<ge> 5 \<and> int_rem intSec 20 < 12 then base0 * (3 / 2) else base0);
          bucket = int_quot intSec 2;
          sr = ge_NewRand ge (wrap64 (wrap64 (bucket * 0x9e3779b9) + 0x6c62272e));
          (x, sr1) = ge_Float64 ge sr;
          base2 =
            (if x < 6 / 100 then base1 * (10 + fst (ge_Float64 ge sr1) * 10)
             else (let (y, sr2) = ge_Float64 ge sr1 in
                   if y < 15 / 100 then base1 * (3 + fst (ge_Float64 ge sr2) * 3) else base1));
          (z, r') = ge_Float64 ge r
      in (max (base2 * (1 / 2 + z)) (1 / 10), r'))"

section \<open>The run\<close>

text \<open>
  The loop with \<open>n\<close> unique events still to produce: \<open>i\<close> is the number of the iteration and \<open>k\<close>
  the number of clock readings made so far. An early return gives the emissions made so far with
  an error.
\<close>

fun gen_loop ::
  "'r gen_env \<Rightarrow> 'r Config \<Rightarrow> (nat \<Rightarrow> time) \<Rightarrow> time \<Rightarrow> duration \<Rightarrow> nat \<Rightarrow> nat \<Rightarrow> nat \<Rightarrow> 'r \<Rightarrow> Emission list \<times> goerror option" where
  "gen_loop ge cfg clock start interval 0 i k r = ([], None)"
| "gen_loop ge cfg clock start interval (Suc n) i k r =
     (let now = clock k in
      if now > start + cg_Duration cfg then ([], None)
      else case ge_CtxErr ge i of Some e \<Rightarrow> ([], Some e) | None \<Rightarrow>
        (let (rateMul, r1) = trafficMultiplier ge (time_Sub now start) r;
             wait = rat_trunc (of_int interval / rateMul)
         in case (if \<not> cg_NoDelay cfg \<and> wait > 0 then ge_WaitErr ge i else None) of
              Some e \<Rightarrow> ([], Some e)
            | None \<Rightarrow>
                (let (tenant, r2) = pickTenant ge r1;
                     (et, r3) = pickEventType ge r2
                 in case ge_UUID ge i of Inl e \<Rightarrow> ([], Some e)
                    | Inr idKey \<Rightarrow>
                        (let (pl, r4) = randomPayload ge r3 et;
                             ev = \<lparr>ev_TenantID = tenant, ev_EventType = et, ev_Timestamp = clock (k + 1),
                                   ev_Payload = pl, ev_IdempotencyKey = idKey, ev_Retry = False\<rparr>;
                             first = \<lparr>em_Event = ev, em_Retry = False, em_Unique = True\<rparr>;
                             (x, r5) = ge_Float64 ge r4
                         in if x < cg_DuplicateRate cfg then
                              (let retry = ev\<lparr>ev_Timestamp := clock (k + 2), ev_Retry := True,
                                     ev_Payload := (ev_Payload ev)\<lparr>pl_Description := ''retry''\<rparr>\<rparr>
                               in map_prod (\<lambda>out. first # \<lparr>em_Event = retry, em_Retry = True, em_Unique = False\<rparr> # out) id
                                    (gen_loop ge cfg clock start interval n (Suc i) (k + 3) r5))
                            else map_prod (Cons first) id
                                   (gen_loop ge cfg clock start interval n (Suc i) (k + 2) r5)))))"

definition eventgen_Run :: "'r gen_env \<Rightarrow> 'r Config \<Rightarrow> Emission list \<times> goerror option" where
  "eventgen_Run ge cfg =
     (if cg_TotalUnique cfg \<le> 0 then ([], None)
      else
        (let clock = (case cg_Now cfg of None \<Rightarrow> ge_Now ge | Some f \<Rightarrow> f);
             r = (case cg_Rand cfg of None \<Rightarrow> ge_NewRand ge 42 | Some r \<Rightarrow> r);
             iv = int_quot (cg_Duration cfg) (cg_TotalUnique cfg);
             interval = (if iv \<le> 0 then millisecond else iv)
         in gen_loop ge cfg clock (clock 0) interval (nat (cg_TotalUnique cfg)) 0 1 r))"

definition ExpectedKeys :: "Emission list \<Rightarrow> string list" where
  "ExpectedKeys emissions = map (\<lambda>e. Event_Key (em_Event e)) (filter em_Unique emissions)"

definition FastRun :: "'r gen_env \<Rightarrow> 'r Config \<Rightarrow> Emission list \<times> goerror option" where
  "FastRun ge cfg =
     eventgen_Run ge (cfg\<lparr>cg_NoDelay := True, cg_Now := Some (\<lambda>n. time_Unix 0 (int n * millisecond))\<rparr>)"

section \<open>What a run emits\<close>

lemma pick_share_member: "pick_share x acc ps = Some a \<Longrightarrow> a \<in> fst ` set ps"
  by (induction x acc ps rule: pick_share.induct) (auto split: if_splits)

lemma pickTenant_known: "fst (pickTenant ge r) \<in> fst ` set tenants"
  by (auto simp: pickTenant_def split: prod.splits option.splits dest: pick_share_member)
    (simp add: tenants_def)

lemma pickEventType_known: "fst (pickEventType ge r) \<in> fst ` set eventTypes"
  by (auto simp: pickEventType_def split: prod.splits option.splits dest: pick_share_member)
    (simp add: eventTypes_def)

lemma randomPayload_finite: "float_finite (pl_Amount (fst (randomPayload ge r et)))"
  by (auto simp: randomPayload_def Payload_zero_def Let_def split: prod.splits)

text \<open>
  The shape of the emissions from iteration \<open>i\<close> on: every unique emission carries a known tenant
  and event type and the identifier of its iteration, and the only other emissions are retries,
  each right after its unique emission, with the same key.
\<close>

definition fresh :: "'r gen_env \<Rightarrow> nat \<Rightarrow> Emission \<Rightarrow> bool" where
  "fresh ge i e \<longleftrightarrow> em_Unique e \<and> \<not> em_Retry e \<and> \<not> ev_Retry (em_Event e) \<and>
     ev_TenantID (em_Event e) \<in> fst ` set tenants \<and> ev_EventType (em_Event e) \<in> fst ` set eventTypes \<and>
     ge_UUID ge i = Inr (ev_IdempotencyKey (em_Event e)) \<and> float_finite (pl_Amount (ev_Payload (em_Event e)))"

definition retry_of :: "Emission \<Rightarrow> Emission \<Rightarrow> bool" where
  "retry_of u e \<longleftrightarrow> em_Retry e \<and> \<not> em_Unique e \<and> ev_Retry (em_Event e) \<and>
     Event_Key (em_Event e) = Event_Key (em_Event u) \<and> float_finite (pl_Amount (ev_Payload (em_Event e))) \<and>
     ev_TenantID (em_Event e) = ev_TenantID (em_Event u)"

inductive traffic :: "'r gen_env \<Rightarrow> nat \<Rightarrow> nat \<Rightarrow> Emission list \<Rightarrow> bool" for ge where
  traffic_Nil: "traffic ge i 0 []"
| traffic_unique: "fresh ge i u \<Longrightarrow> traffic ge (Suc i) n es \<Longrightarrow> traffic ge i (Suc n) (u # es)"
| traffic_retry: "fresh ge i u \<Longrightarrow> retry_of u e \<Longrightarrow> traffic ge (Suc i) n es \<Longrightarrow> traffic ge i (Suc n) (u # e # es)"

text \<open>One iteration, by its outcomes.\<close>

lemma gen_loop_cases:
  obtains (stop) e where "gen_loop ge cfg clock start interval (Suc n) i k r = ([], e)"
      "e = None \<Longrightarrow> clock k > start + cg_Duration cfg"
      "e \<noteq> None \<Longrightarrow> ge_CtxErr ge i \<noteq> None \<or> \<not> cg_NoDelay cfg \<and> ge_WaitErr ge i \<noteq> None \<or> (\<exists>x. ge_UUID ge i = Inl x)"
  | (unique) u r' where "fresh ge i u" "ev_Timestamp (em_Event u) = clock (k + 1)"
      "gen_loop ge cfg clock start interval (Suc n) i k r =
        map_prod (Cons u) id (gen_loop ge cfg clock start interval n (Suc i) (k + 2) r')"
  | (retry) u e r' where "fresh ge i u" "retry_of u e" "ev_Timestamp (em_Event u) = clock (k + 1)"
      "ev_Timestamp (em_Event e) = clock (k + 2)"
      "gen_loop ge cfg clock start interval (Suc n) i k r =
        map_prod (\<lambda>out. u # e # out) id (gen_loop ge cfg clock start interval n (Suc i) (k + 3) r')"
proof -
  obtain rateMul r1 where m: "trafficMultiplier ge (time_Sub (clock k) start) r = (rateMul, r1)" by fastforce
  obtain tenant r2 where t: "pickTenant ge r1 = (tenant, r2)" by fastforce
  obtain et r3 where et: "pickEventType ge r2 = (et, r3)" by fastforce
  obtain pl r4 where pl: "randomPayload ge r3 et = (pl, r4)" by fastforce
  obtain x r5 where x: "ge_Float64 ge r4 = (x, r5)" by fastforce
  define w where "w = (if \<not> cg_NoDelay cfg \<and> rat_trunc (of_int interval / rateMul) > 0 then ge_WaitErr ge i else None)"
  consider "clock k > start + cg_Duration cfg"
    | e where "\<not> clock k > start + cg_Duration cfg" "ge_CtxErr ge i = Some e"
    | e where "\<not> clock k > start + cg_Duration cfg" "ge_CtxErr ge i = None" "w = Some e"
    | e where "\<not> clock k > start + cg_Duration cfg" "ge_CtxErr ge i = None" "w = None" "ge_UUID ge i = Inl e"
    | idk where "\<not> clock k > start + cg_Duration cfg" "ge_CtxErr ge i = None" "w = None" "ge_UUID ge i = Inr idk"
    by (metis not_Some_eq sumE)
  then show thesis
  proof cases
    case 5
    define ev where "ev = \<lparr>ev_TenantID = tenant, ev_EventType = et, ev_Timestamp = clock (k + 1),
      ev_Payload = pl, ev_IdempotencyKey = idk, ev_Retry = False\<rparr>"
    define u where "u = \<lparr>em_Event = ev, em_Retry = False, em_Unique = True\<rparr>"
    have f: "fresh ge i u"
      using pickTenant_known [of ge r1] pickEventType_known [of ge r2] randomPayload_finite [of ge r3 et]
      by (simp add: fresh_def u_def ev_def t et pl 5)
    show thesis
    proof (cases "x < cg_DuplicateRate cfg")
      case True
      define e where "e = \<lparr>em_Event = ev\<lparr>ev_Timestamp := clock (k + 2), ev_Retry := True,
        ev_Payload := pl\<lparr>pl_Description := ''retry''\<rparr>\<rparr>, em_Retry = True, em_Unique = False\<rparr>"
      have "retry_of u e"
        using randomPayload_finite [of ge r3 et] by (simp add: retry_of_def u_def e_def ev_def Event_Key_def pl)
      then show thesis
        using f True 5 by (intro retry [of u e r5]) (simp_all add: m t et pl x Let_def u_def e_def ev_def w_def)
    next
      case False
      then show thesis
        using f 5 by (intro unique [of u r5]) (simp_all add: m t et pl x Let_def u_def ev_def w_def)
    qed
  qed (auto intro!: stop simp: m t et pl x Let_def w_def split: if_splits)
qed

lemma gen_loop_traffic:
  "\<exists>m\<le>n. traffic ge i m (fst (gen_loop ge cfg clock start interval n i k r))"
proof (induction n arbitrary: i k r)
  case (Suc n)
  show ?case
  proof (cases rule: gen_loop_cases [of ge cfg clock start interval n i k r])
    case (unique u r')
    with Suc.IH [of "Suc i" "k + 2" r'] show ?thesis
      by (auto intro: traffic_unique)
  next
    case (retry u e r')
    with Suc.IH [of "Suc i" "k + 3" r'] show ?thesis
      by (auto intro: traffic_retry)
  qed (auto intro: traffic_Nil)
qed (auto intro: traffic_Nil)

lemma gen_loop_complete:
  assumes "\<And>j. ge_CtxErr ge j = None" "cg_NoDelay cfg" "\<And>j. \<exists>x. ge_UUID ge j = Inr x"
  shows "(\<And>j. j < k + 3 * n \<Longrightarrow> clock j \<le> start + cg_Duration cfg) \<Longrightarrow>
    \<exists>es. gen_loop ge cfg clock start interval n i k r = (es, None) \<and> traffic ge i n es"
proof (induction n arbitrary: i k r)
  case (Suc n)
  have ok: "clock k \<le> start + cg_Duration cfg" using Suc.prems by simp
  show ?case
  proof (cases rule: gen_loop_cases [of ge cfg clock start interval n i k r])
    case (stop e)
    with assms(2) assms(1) [of i] assms(3) [of i] ok show ?thesis by (cases e) auto
  next
    case (unique u r')
    with Suc.IH [of "k + 2" "Suc i" r'] Suc.prems show ?thesis
      by (auto intro!: traffic_unique)
  next
    case (retry u e r')
    with Suc.IH [of "k + 3" "Suc i" r'] Suc.prems show ?thesis
      by (auto intro!: traffic_retry)
  qed
qed (auto intro: traffic_Nil)

lemma gen_loop_clock:
  "e \<in> set (fst (gen_loop ge cfg clock start interval n i k r)) \<Longrightarrow>
   \<exists>j<k + 3 * n. ev_Timestamp (em_Event e) = clock j"
proof (induction n arbitrary: i k r)
  case (Suc n)
  have later: "\<exists>j<k + 3 * Suc n. ev_Timestamp (em_Event e) = clock j"
    if "e \<in> set (fst (gen_loop ge cfg clock start interval n (Suc i) (k + d) r'))" "d \<le> 3" for d r'
  proof -
    note member = that
    obtain j where "j < k + d + 3 * n" "ev_Timestamp (em_Event e) = clock j" using Suc.IH [OF member(1)] by blast
    moreover from this(1) member(2) have "j < k + 3 * Suc n" by simp
    ultimately show ?thesis by blast
  qed
  have here: "\<exists>j<k + 3 * Suc n. clock (k + 1) = clock j" "\<exists>j<k + 3 * Suc n. clock (k + 2) = clock j"
    by (rule exI [of _ "k + 1"], simp, rule exI [of _ "k + 2"], simp)
  show ?case
  proof (cases rule: gen_loop_cases [of ge cfg clock start interval n i k r])
    case (unique u r')
    with Suc.prems later [of 2 r'] here(1) show ?thesis by (auto simp del: gen_loop.simps)
  next
    case (retry u e' r')
    with Suc.prems later [of 3 r'] here show ?thesis by (auto simp del: gen_loop.simps)
  qed (use Suc.prems in auto)
qed simp

lemma traffic_finite:
  "traffic ge i n es \<Longrightarrow> e \<in> set es \<Longrightarrow>
   float_finite (pl_Amount (ev_Payload (em_Event e))) \<and> ev_TenantID (em_Event e) \<in> fst ` set tenants"
  by (induction rule: traffic.induct) (auto simp: fresh_def retry_of_def intro: rev_image_eqI)

lemma traffic_uniques: "traffic ge i n es \<Longrightarrow> length (filter em_Unique es) = n \<and> n \<le> length es \<and> length es \<le> 2 * n"
  by (induction rule: traffic.induct) (auto simp: fresh_def retry_of_def)

lemma traffic_retry_unique: "traffic ge i n es \<Longrightarrow> e \<in> set es \<Longrightarrow> em_Retry e \<Longrightarrow> \<not> em_Unique e"
  by (induction rule: traffic.induct) (auto simp: fresh_def retry_of_def)

lemma traffic_known:
  "traffic ge i n es \<Longrightarrow> e \<in> set es \<Longrightarrow> em_Unique e \<Longrightarrow>
   ev_TenantID (em_Event e) \<in> fst ` set tenants \<and> ev_EventType (em_Event e) \<in> fst ` set eventTypes"
  by (induction rule: traffic.induct) (auto simp: fresh_def retry_of_def)

lemma traffic_keys: "traffic ge i n es \<Longrightarrow> set (map (\<lambda>e. Event_Key (em_Event e)) es) = set (ExpectedKeys es)"
  by (induction rule: traffic.induct) (auto simp: ExpectedKeys_def fresh_def retry_of_def)

lemma traffic_ids:
  "traffic ge i n es \<Longrightarrow> map (\<lambda>e. Inr (ev_IdempotencyKey (em_Event e))) (filter em_Unique es) = map (ge_UUID ge) [i ..< i + n]"
proof (induction rule: traffic.induct)
  case (traffic_unique i u n es)
  then show ?case
    by (subst upt_conv_Cons) (simp_all add: fresh_def del: upt_Suc)
next
  case (traffic_retry i u e n es)
  then show ?case
    by (subst upt_conv_Cons) (simp_all add: fresh_def retry_of_def del: upt_Suc)
qed simp

lemma tenants_no_colon: "t \<in> fst ` set tenants \<Longrightarrow> t \<noteq> [] \<and> CHR '':'' \<notin> set t"
  by (auto simp: tenants_def)

lemma eventTypes_no_colon: "t \<in> fst ` set eventTypes \<Longrightarrow> CHR '':'' \<notin> set t"
  by (auto simp: eventTypes_def EventTransaction_def EventBalanceCheck_def EventSettlement_def EventKYCUpdate_def EventFraudAlert_def)

lemma traffic_distinct:
  assumes "traffic ge 0 n es" and "inj_on (ge_UUID ge) {..<n}"
  shows "distinct (ExpectedKeys es)"
proof -
  have "distinct (map (\<lambda>e. Inr (ev_IdempotencyKey (em_Event e)) :: string result) (filter em_Unique es))"
    using traffic_ids [OF assms(1)] assms(2) by (simp add: distinct_map lessThan_atLeast0)
  then have "distinct (filter em_Unique es)" "inj_on (\<lambda>e. ev_IdempotencyKey (em_Event e)) (set (filter em_Unique es))"
    by (auto simp: distinct_map inj_on_def)
  moreover have "ev_IdempotencyKey (em_Event e) = ev_IdempotencyKey (em_Event f)"
    if "e \<in> set (filter em_Unique es)" "f \<in> set (filter em_Unique es)" "Event_Key (em_Event e) = Event_Key (em_Event f)" for e f
  proof -
    have "CHR '':'' \<notin> set (ev_TenantID (em_Event g)) \<and> CHR '':'' \<notin> set (ev_EventType (em_Event g))" if "g \<in> {e, f}" for g
      using that \<open>e \<in> _\<close> \<open>f \<in> _\<close> traffic_known [OF assms(1), of g] tenants_no_colon eventTypes_no_colon by auto
    with \<open>Event_Key _ = _\<close> show ?thesis by (simp add: Event_Key_def colon_split)
  qed
  ultimately have "inj_on (\<lambda>e. Event_Key (em_Event e)) (set (filter em_Unique es))"
    unfolding inj_on_def by blast
  with \<open>distinct (filter em_Unique es)\<close> show ?thesis
    by (simp add: ExpectedKeys_def distinct_map)
qed

lemma eventgen_Run_traffic:
  "\<exists>m. traffic ge 0 m (fst (eventgen_Run ge cfg)) \<and> m \<le> nat (cg_TotalUnique cfg)"
proof (cases "cg_TotalUnique cfg \<le> 0")
  case True
  then show ?thesis by (auto simp: eventgen_Run_def intro: traffic_Nil)
next
  case False
  then show ?thesis
    unfolding eventgen_Run_def Let_def using gen_loop_traffic [of "nat (cg_TotalUnique cfg)" ge 0 cfg] by (simp add: conj_commute Bex_def)
qed

text \<open>Whatever the clock, the random source and the context do, a run emits at most the
  requested number of unique events, at most one retry for each, right after it and with its key;
  every event has one of the five tenants and one of the five types.\<close>

lemma eventgen_shape:
  "\<exists>m. traffic ge 0 m (fst (eventgen_Run ge cfg)) \<and> m \<le> nat (cg_TotalUnique cfg) \<and>
     m = length (ExpectedKeys (fst (eventgen_Run ge cfg))) \<and>
     length (fst (eventgen_Run ge cfg)) \<le> 2 * m \<and>
     set (map (\<lambda>e. Event_Key (em_Event e)) (fst (eventgen_Run ge cfg))) = set (ExpectedKeys (fst (eventgen_Run ge cfg)))"
  using eventgen_Run_traffic [of ge cfg] traffic_keys [of ge 0 _ "fst (eventgen_Run ge cfg)"]
    traffic_uniques [of ge 0 _ "fst (eventgen_Run ge cfg)"]
  by (auto simp: ExpectedKeys_def)

lemma FastRun_traffic:
  assumes "\<And>j. ge_CtxErr ge j = None" and "\<And>j. \<exists>x. ge_UUID ge j = Inr x"
    and "3 * cg_TotalUnique cfg * millisecond \<le> cg_Duration cfg"
  shows "\<exists>es. FastRun ge cfg = (es, None) \<and> traffic ge 0 (nat (cg_TotalUnique cfg)) es"
proof (cases "cg_TotalUnique cfg \<le> 0")
  case True
  then show ?thesis by (auto simp: FastRun_def eventgen_Run_def intro: traffic_Nil)
next
  case False
  define cfg' where "cfg' = cfg\<lparr>cg_NoDelay := True, cg_Now := Some (\<lambda>n. time_Unix 0 (int n * millisecond))\<rparr>"
  have "time_Unix 0 (int j * millisecond) \<le> time_Unix 0 (int 0 * millisecond) + cg_Duration cfg'"
    if "j < 1 + 3 * nat (cg_TotalUnique cfg)" for j
  proof -
    have "int j \<le> 3 * cg_TotalUnique cfg" using that False by linarith
    then show ?thesis using assms(3) by (simp add: time_Unix_def cfg'_def go_consts)
  qed
  then show ?thesis
    using False gen_loop_complete [OF assms(1) _ assms(2), of cfg' 1 "nat (cg_TotalUnique cfg)" "\<lambda>n. time_Unix 0 (int n * millisecond)"
      "time_Unix 0 (int 0 * millisecond)" _ 0]
    by (simp add: FastRun_def eventgen_Run_def Let_def cfg'_def [symmetric]) (simp add: cfg'_def)
qed

text \<open>With a live context and working identifiers, a fast run over a duration of at least
  three milliseconds per event succeeds with exactly the requested number of unique events; when
  the identifiers are distinct, so are the keys.\<close>

lemma FastRun_complete:
  assumes "\<And>j. ge_CtxErr ge j = None" and "\<And>j. \<exists>x. ge_UUID ge j = Inr x" and "inj (ge_UUID ge)"
    and "0 \<le> cg_TotalUnique cfg" and "3 * cg_TotalUnique cfg * millisecond \<le> cg_Duration cfg"
  shows "\<exists>es. FastRun ge cfg = (es, None) \<and> int (length (ExpectedKeys es)) = cg_TotalUnique cfg \<and>
    distinct (ExpectedKeys es)"
proof -
  obtain es where es: "FastRun ge cfg = (es, None)" "traffic ge 0 (nat (cg_TotalUnique cfg)) es"
    using FastRun_traffic [OF assms(1,2,5)] by blast
  have "distinct (ExpectedKeys es)"
    using traffic_distinct [OF es(2)] assms(3) by (auto intro: inj_on_subset)
  with es traffic_uniques [OF es(2)] assms(4) show ?thesis by (auto simp: ExpectedKeys_def)
qed

text \<open>An environment whose random source is a counter.\<close>

definition counter_env :: "int gen_env" where
  "counter_env = \<lparr>ge_Now = (\<lambda>n. int n), ge_CtxErr = (\<lambda>i. None), ge_WaitErr = (\<lambda>i. None),
     ge_UUID = (\<lambda>i. Inr (fmt_nat i)), ge_Float64 = (\<lambda>r. (of_int (r mod 16) / 16, r + 5)),
     ge_Intn = (\<lambda>n r. (nat (r mod int n), r + 1)), ge_NewRand = (\<lambda>seed. seed), ge_Sin = (\<lambda>x. 0)\<rparr>"

lemma inj_fmt_nat: "inj fmt_nat"
  by (rule injI) (metis parse_fmt_nat option.inject)

lemma FastRun_complete_example:
  "\<exists>es. FastRun counter_env (DefaultConfig counter_env) = (es, None) \<and> length (ExpectedKeys es) = 1000 \<and> distinct (ExpectedKeys es)"
  using FastRun_complete [of counter_env "DefaultConfig counter_env"] inj_fmt_nat
  by (auto simp: counter_env_def DefaultConfig_def go_consts inj_def)

section \<open>Pacing\<close>

text \<open>The traffic multiplier stays between a quarter and 67.5, so the wait before an event is
  between the even interval divided by 67.5 and four times that interval; the floor of 0.1 in the
  code never takes effect.\<close>

lemma trafficMultiplier_bounds:
  assumes "\<And>r. 0 \<le> fst (ge_Float64 ge r) \<and> fst (ge_Float64 ge r) < 1" and "\<And>x. \<bar>ge_Sin ge x\<bar> \<le> 1"
  shows "1 / 4 \<le> fst (trafficMultiplier ge elapsed r) \<and> fst (trafficMultiplier ge elapsed r) \<le> 135 / 2"
proof -
  define b0 where "b0 = 1 + 1 / 2 * ge_Sin ge (of_int elapsed / 1000000000 / 15)"
  have b0: "1 / 2 \<le> b0" "b0 \<le> 3 / 2"
    using assms(2) [of "of_int elapsed / 1000000000 / 15"] by (auto simp: b0_def abs_le_iff)
  have scale: "lo * l \<le> b * m \<and> b * m \<le> hi * h" if "lo \<le> b" "b \<le> hi" "l \<le> m" "m \<le> h" "0 \<le> lo" "0 \<le> l"
    for lo hi l h b m :: rat
    using that by (meson mult_mono order_trans)
  have draw: "0 \<le> x \<and> x < 1" if "ge_Float64 ge r = (x, r')" for x r r'
    using assms(1) [of r] that by simp
  obtain base2 z r' where eq: "fst (trafficMultiplier ge elapsed r) = max (base2 * (1 / 2 + z)) (1 / 10)"
      "ge_Float64 ge r = (z, r')" "1 / 2 \<le> base2" "base2 \<le> 45"
  proof -
    define b1 where "b1 = (if int_rem (rat_trunc (of_int elapsed / 1000000000)) 20 \<ge> 5 \<and>
        int_rem (rat_trunc (of_int elapsed / 1000000000)) 20 < 12 then b0 * (3 / 2) else b0)"
    have b1: "1 / 2 \<le> b1" "b1 \<le> 9 / 4" using b0 by (auto simp: b1_def)
    define sr where "sr = ge_NewRand ge (wrap64 (wrap64 (int_quot (rat_trunc (of_int elapsed / 1000000000)) 2 * 0x9e3779b9) + 0x6c62272e))"
    obtain x sr1 where x: "ge_Float64 ge sr = (x, sr1)" by fastforce
    obtain y sr2 where y: "ge_Float64 ge sr1 = (y, sr2)" by fastforce
    obtain w sr3 where w: "ge_Float64 ge sr2 = (w, sr3)" by fastforce
    obtain z r' where z: "ge_Float64 ge r = (z, r')" by fastforce
    define b2 where "b2 = (if x < 6 / 100 then b1 * (10 + y * 10) else if y < 15 / 100 then b1 * (3 + w * 3) else b1)"
    have "1 / 2 * 1 \<le> b2 \<and> b2 \<le> 9 / 4 * 20"
      using b1 draw [OF y] draw [OF w] scale [of "1/2" b1 "9/4" 1 "10 + y * 10" 20] scale [of "1/2" b1 "9/4" 1 "3 + w * 3" 20]
      by (auto simp: b2_def)
    moreover have "fst (trafficMultiplier ge elapsed r) = max (b2 * (1 / 2 + z)) (1 / 10)"
      by (simp add: trafficMultiplier_def Let_def b2_def b1_def b0_def sr_def [symmetric] x y w z)
    ultimately show thesis using z by (intro that [of b2 z r']) auto
  qed
  then show ?thesis
    using draw [OF eq(2)] scale [of "1/2" base2 45 "1/2" "1/2 + z" "3/2"] by auto
qed

lemma trafficMultiplier_bounds_example:
  "1 / 4 \<le> fst (trafficMultiplier counter_env (7 * second) 3) \<and> fst (trafficMultiplier counter_env (7 * second) 3) \<le> 135 / 2"
  by (rule trafficMultiplier_bounds) (auto simp: counter_env_def)

end
