(* ===== verification/Tenant_Pipeline.thy ===== *)
theory Tenant_Pipeline
  imports Prefix_DB Event_Gen
begin

text \<open>
  \<open>internal/pipeline/tenants.go\<close>, \<open>tenant.go\<close>, \<open>verify.go\<close> and \<open>status.go\<close>: one writer per
  tenant, writing the simulated emissions, and checking what was stored.

  A pipeline holds its tenants in a finite map. Where the code ranges over that map the order is
  an argument. An operation of a tenant that calls the store threads the tenant's state; feed
  counts are partial, since the store's change reader is.
\<close>

section \<open>One tenant\<close>

definition AllTenantIDs :: "string list" where
  "AllTenantIDs = [''tenant-alpha'', ''tenant-beta'', ''tenant-gamma'', ''tenant-delta'', ''tenant-epsilon'']"

definition tenantFlushInterval :: duration where "tenantFlushInterval = 2 * second"

definition openTenant ::
  "'s open_env \<Rightarrow> StoreConfig \<Rightarrow> string \<Rightarrow> osenv \<Rightarrow> 's PrefixDB result \<times> handle_event list \<times> osenv" where
  "openTenant oe cfg tenantID env = OpenPrefixDB oe
     \<lparr>oc_Store = cfg, oc_PrefixID = tenantID, oc_FlushEvery = tenantFlushInterval,
      oc_Retention = (sc_Backend cfg \<noteq> BackendMemory), oc_RunMaint = (sc_Backend cfg \<noteq> BackendMemory)\<rparr> env"

definition Tenant_Put :: "('s, 'c) isle \<Rightarrow> Event \<Rightarrow> 's PrefixDB action" where
  "Tenant_Put ops ev t =
     (case Event_ValueBytes ev of
        Inl e \<Rightarrow> (Some e, t)
      | Inr val \<Rightarrow> with_state t (isle_Put ops (Event_KeyBytes ev) val (pd_State t)))"

definition Tenant_Flush :: "('s, 'c) isle \<Rightarrow> 's PrefixDB action" where
  "Tenant_Flush ops t =
     (case isle_Flush ops (pd_State t) of
        (Some e, s1) \<Rightarrow> (Some e, t\<lparr>pd_State := s1\<rparr>)
      | (None, s1) \<Rightarrow> with_state t (RefreshReader ops (pd_Reader t) s1))"

definition Tenant_ScanKeys :: "('s, 'c) isle \<Rightarrow> 's PrefixDB \<Rightarrow> string list result \<times> 's PrefixDB" where
  "Tenant_ScanKeys ops t =
     with_state t (ScanKeysIter ops (TenantPrefix (pd_ID t)) (TenantUpperBound (pd_ID t)) (pd_State t))"

definition ChangeFeedCount :: "('s, 'c) isle \<Rightarrow> 's PrefixDB \<Rightarrow> (goerror option \<times> nat) option" where
  "ChangeFeedCount ops t = CountChangeFeed ops (pd_State t)"

section \<open>The pipeline\<close>

record 's Pipeline =
  pp_tenants :: "(string, 's PrefixDB) fmap"
  pp_cfg :: StoreConfig

definition set_tenant :: "string \<Rightarrow> 's PrefixDB \<Rightarrow> 's Pipeline \<Rightarrow> 's Pipeline" where
  "set_tenant tid t p = p\<lparr>pp_tenants := fmupd tid t (pp_tenants p)\<rparr>"

definition Pipeline_tenant :: "'s Pipeline \<Rightarrow> string \<Rightarrow> 's PrefixDB result" where
  "Pipeline_tenant p tid =
     (case fmlookup (pp_tenants p) tid of
        None \<Rightarrow> Inl (Errorf (''tenant '' @ fmt_q tid @ '' not found''))
      | Some t \<Rightarrow> Inr t)"

text \<open>The body of \<open>for _, tp := range p.tenants\<close> that returns at the first error, and the one that
  goes on and keeps the first error.\<close>

fun each_tenant :: "'s PrefixDB action \<Rightarrow> string list \<Rightarrow> 's Pipeline action" where
  "each_tenant f [] p = (None, p)"
| "each_tenant f (tid # ids) p =
     (case fmlookup (pp_tenants p) tid of
        None \<Rightarrow> each_tenant f ids p
      | Some t \<Rightarrow>
          (case f t of
             (Some e, t') \<Rightarrow> (Some e, set_tenant tid t' p)
           | (None, t') \<Rightarrow> each_tenant f ids (set_tenant tid t' p)))"

fun close_tenants :: "'s PrefixDB action \<Rightarrow> string list \<Rightarrow> goerror option \<Rightarrow> 's Pipeline action" where
  "close_tenants f [] first p = (first, p)"
| "close_tenants f (tid # ids) first p =
     (case fmlookup (pp_tenants p) tid of
        None \<Rightarrow> close_tenants f ids first p
      | Some t \<Rightarrow> (case f t of (e, t') \<Rightarrow> close_tenants f ids (first_error first e) (set_tenant tid t' p)))"

definition Pipeline_Close :: "('s, 'c) isle \<Rightarrow> string list \<Rightarrow> 's Pipeline action" where
  "Pipeline_Close ops ids p = close_tenants (PrefixDB_Close ops) ids None p"

fun open_tenants ::
  "'s open_env \<Rightarrow> StoreConfig \<Rightarrow> string list \<Rightarrow> 's Pipeline \<Rightarrow> osenv \<Rightarrow> goerror option \<times> 's Pipeline \<times> osenv" where
  "open_tenants oe cfg [] p env = (None, p, env)"
| "open_tenants oe cfg (tid # ids) p env =
     (case openTenant oe cfg tid env of
        (Inl e, _, env') \<Rightarrow> (Some e, p, env')
      | (Inr t, _, env') \<Rightarrow> open_tenants oe cfg ids (set_tenant tid t p) env')"

text \<open>\<open>New\<close>: the error, and the pipeline as it is left; on an error the tenants opened before are
  closed, in the order \<open>closing\<close>.\<close>

definition Pipeline_New ::
  "('s, 'c) isle \<Rightarrow> 's open_env \<Rightarrow> StoreConfig \<Rightarrow> string list \<Rightarrow> string list \<Rightarrow> osenv \<Rightarrow> goerror option \<times> 's Pipeline \<times> osenv" where
  "Pipeline_New ops oe cfg closing tenantIDs env =
     (case open_tenants oe cfg tenantIDs \<lparr>pp_tenants = fmempty, pp_cfg = cfg\<rparr> env of
        (Some e, p, env') \<Rightarrow> (Some e, snd (Pipeline_Close ops closing p), env')
      | (None, p, env') \<Rightarrow> (None, p, env'))"

fun WriteEmissions :: "('s, 'c) isle \<Rightarrow> Emission list \<Rightarrow> 's Pipeline \<Rightarrow> (nat \<times> goerror option) \<times> 's Pipeline" where
  "WriteEmissions ops [] p = ((0, None), p)"
| "WriteEmissions ops (em # ems) p =
     (case fmlookup (pp_tenants p) (ev_TenantID (em_Event em)) of
        None \<Rightarrow> ((0, Some (Errorf (''unknown tenant '' @ fmt_q (ev_TenantID (em_Event em))))), p)
      | Some t \<Rightarrow>
          (case Tenant_Put ops (em_Event em) t of
             (Some e, t') \<Rightarrow> ((0, Some e), set_tenant (ev_TenantID (em_Event em)) t' p)
           | (None, t') \<Rightarrow>
               map_prod (map_prod Suc id) id (WriteEmissions ops ems (set_tenant (ev_TenantID (em_Event em)) t' p))))"

definition FlushAll :: "('s, 'c) isle \<Rightarrow> string list \<Rightarrow> 's Pipeline action" where
  "FlushAll ops ids p = each_tenant (Tenant_Flush ops) ids p"

definition CompactAll :: "('s, 'c) isle \<Rightarrow> string list \<Rightarrow> 's Pipeline action" where
  "CompactAll ops ids p = each_tenant (RunMaintenanceOnce ops) ids p"

text \<open>\<open>TenantIDs\<close> is the order in which the map is ranged over.\<close>

fun count_keys :: "('s, 'c) isle \<Rightarrow> string list \<Rightarrow> nat \<Rightarrow> 's Pipeline \<Rightarrow> (nat \<times> goerror option) \<times> 's Pipeline" where
  "count_keys ops [] tot p = ((tot, None), p)"
| "count_keys ops (tid # ids) tot p =
     (case Pipeline_tenant p tid of
        Inl e \<Rightarrow> ((tot, Some e), p)
      | Inr t \<Rightarrow>
          (case Tenant_ScanKeys ops t of
             (Inl e, t') \<Rightarrow> ((tot, Some e), set_tenant tid t' p)
           | (Inr keys, t') \<Rightarrow> count_keys ops ids (tot + length keys) (set_tenant tid t' p)))"

definition CountKeys :: "('s, 'c) isle \<Rightarrow> string list \<Rightarrow> 's Pipeline \<Rightarrow> (nat \<times> goerror option) \<times> 's Pipeline" where
  "CountKeys ops ids p = count_keys ops ids 0 p"

section \<open>Verification of a run\<close>

definition group_keys :: "string list \<Rightarrow> (string, string list) fmap \<Rightarrow> (string, string list) fmap" where
  "group_keys keys out = fold (\<lambda>k m. fmupd (TenantFromKey k)
     ((case fmlookup m (TenantFromKey k) of None \<Rightarrow> [] | Some ks \<Rightarrow> ks) @ [k]) m) keys out"

definition groupKeysByTenant :: "string list \<Rightarrow> (string, string list) fmap" where
  "groupKeysByTenant keys = fmmap sort (group_keys keys fmempty)"

fun verifyKeyOrder :: "string list \<Rightarrow> goerror option" where
  "verifyKeyOrder (a # b # keys) =
     (if b < a then Some (Errorf (''key order violation: '' @ fmt_q a @ '' before '' @ fmt_q b))
      else verifyKeyOrder (b # keys))"
| "verifyKeyOrder keys = None"

fun compare_keys :: "string list \<Rightarrow> string list \<Rightarrow> goerror option" where
  "compare_keys (w # ws) (g # gs) =
     (if w \<noteq> g then Some (Errorf (''missing or extra key: got '' @ fmt_q g @ '' want '' @ fmt_q w))
      else compare_keys ws gs)"
| "compare_keys ws gs = None"

definition verifyKeySet :: "string list \<Rightarrow> string list \<Rightarrow> goerror option" where
  "verifyKeySet want got =
     (if length want \<noteq> length got
      then Some (Errorf (''key count got '' @ fmt_nat (length got) @ '' want '' @ fmt_nat (length want)))
      else compare_keys (sort want) (sort got))"

record VerifyResult =
  vr_PutCount :: nat
  vr_UniqueKeysExpected :: nat
  vr_KeysByTenant :: "(string, string list) fmap"
  vr_TailCountByTenant :: "(string, nat) fmap"

text \<open>One pass of the loop over the expected tenants.\<close>

definition verify_tenant ::
  "('s, 'c) isle \<Rightarrow> string \<Rightarrow> string list \<Rightarrow> VerifyResult \<Rightarrow> 's Pipeline \<Rightarrow>
   ((VerifyResult \<times> goerror option) \<times> 's Pipeline) option" where
  "verify_tenant ops tenantID wantKeys res p =
     (case Pipeline_tenant p tenantID of
        Inl e \<Rightarrow> Some ((res, Some e), p)
      | Inr t \<Rightarrow>
          (case Tenant_ScanKeys ops t of
             (Inl e, t') \<Rightarrow> Some ((res, Some (Wrapf (''scan '' @ tenantID) e)), set_tenant tenantID t' p)
           | (Inr gotKeys, t') \<Rightarrow>
               (let p' = set_tenant tenantID t' p;
                    res1 = res\<lparr>vr_KeysByTenant := fmupd tenantID gotKeys (vr_KeysByTenant res)\<rparr>
                in case verifyKeyOrder gotKeys of
                     Some e \<Rightarrow> Some ((res1, Some (Wrapf (''tenant '' @ tenantID) e)), p')
                   | None \<Rightarrow>
                (case verifyKeySet wantKeys gotKeys of
                     Some e \<Rightarrow> Some ((res1, Some (Wrapf (''tenant '' @ tenantID) e)), p')
                   | None \<Rightarrow>
                (case ChangeFeedCount ops t' of
                     None \<Rightarrow> None
                   | Some (Some e, n) \<Rightarrow> Some ((res1, Some (Wrapf (''change feed '' @ tenantID) e)), p')
                   | Some (None, tailN) \<Rightarrow>
                       (let res2 = res1\<lparr>vr_TailCountByTenant := fmupd tenantID tailN (vr_TailCountByTenant res1)\<rparr>
                        in if tailN < length wantKeys then
                             Some ((res2, Some (Errorf (''tenant '' @ tenantID @ '': change feed saw '' @ fmt_nat tailN
                               @ '' changes, want >= '' @ fmt_nat (length wantKeys)))), p')
                           else Some ((res2, None), p')))))))"

fun verify_loop ::
  "('s, 'c) isle \<Rightarrow> (string \<times> string list) list \<Rightarrow> VerifyResult \<Rightarrow> 's Pipeline \<Rightarrow>
   ((VerifyResult \<times> goerror option) \<times> 's Pipeline) option" where
  "verify_loop ops [] res p = Some ((res, None), p)"
| "verify_loop ops ((tenantID, wantKeys) # rest) res p =
     (case verify_tenant ops tenantID wantKeys res p of
        None \<Rightarrow> None
      | Some ((res', Some e), p') \<Rightarrow> Some ((res', Some e), p')
      | Some ((res', None), p') \<Rightarrow> verify_loop ops rest res' p')"

definition put_count_error :: "Emission list \<Rightarrow> VerifyResult \<Rightarrow> goerror option" where
  "put_count_error emissions res =
     (if vr_PutCount res < vr_UniqueKeysExpected res then
        Some (Errorf (''put count '' @ fmt_nat (vr_PutCount res) @ '' less than unique events '' @ fmt_nat (vr_UniqueKeysExpected res)))
      else if list_ex em_Retry emissions \<and> vr_PutCount res \<le> vr_UniqueKeysExpected res then
        Some (Errorf (''put count '' @ fmt_nat (vr_PutCount res) @ '' should exceed unique events ''
          @ fmt_nat (vr_UniqueKeysExpected res) @ '' when duplicates exist''))
      else None)"

definition Verify ::
  "('s, 'c) isle \<Rightarrow> string list \<Rightarrow> Emission list \<Rightarrow> 's Pipeline \<Rightarrow>
   ((VerifyResult \<times> goerror option) \<times> 's Pipeline) option" where
  "Verify ops ids emissions p =
     (let expected = ExpectedKeys emissions;
          res = \<lparr>vr_PutCount = length emissions, vr_UniqueKeysExpected = length expected,
                 vr_KeysByTenant = fmempty, vr_TailCountByTenant = fmempty\<rparr>
      in case verify_loop ops (range_entries ids (groupKeysByTenant expected)) res p of
           None \<Rightarrow> None
         | Some ((res', Some e), p') \<Rightarrow> Some ((res', Some e), p')
         | Some ((res', None), p') \<Rightarrow> Some ((res', put_count_error emissions res'), p'))"

section \<open>Probing a backend\<close>

record BackendStatus =
  bs_Backend :: Backend
  bs_OK :: bool
  bs_Error :: string
  bs_Bucket :: string
  bs_Endpoint :: string
  bs_TotalKeys :: nat
  bs_KeysByTenant :: "(string, nat) fmap"

text \<open>The number of keys and the error are both returned; the reader's closer runs in any case.\<close>

definition probeTenantKeyCount ::
  "('s, 'c) isle \<Rightarrow> 's open_env \<Rightarrow> StoreConfig \<Rightarrow> string \<Rightarrow> osenv \<Rightarrow> (nat \<times> goerror option) \<times> osenv" where
  "probeTenantKeyCount ops oe cfg tenantID env =
     (case OpenReaderDB oe cfg tenantID env of
        (Inl e, _, env') \<Rightarrow> ((0, Some e), env')
      | (Inr r, _, env') \<Rightarrow>
          (case ScanKeysIter ops (TenantPrefix tenantID) (TenantUpperBound tenantID) (rd_State r) of
             (Inl e, _) \<Rightarrow> ((0, Some e), env')
           | (Inr keys, _) \<Rightarrow> ((length keys, None), env')))"

fun probe_loop ::
  "('s, 'c) isle \<Rightarrow> 's open_env \<Rightarrow> StoreConfig \<Rightarrow> string list \<Rightarrow> BackendStatus \<Rightarrow> osenv \<Rightarrow> BackendStatus" where
  "probe_loop ops oe cfg [] st env = st\<lparr>bs_OK := True\<rparr>"
| "probe_loop ops oe cfg (tid # ids) st env =
     (case probeTenantKeyCount ops oe cfg tid env of
        ((n, Some e), env') \<Rightarrow>
          st\<lparr>bs_OK := False, bs_Error :=
            (if isBucketMissingErr (Some e)
             then ''bucket '' @ fmt_q (bs_Bucket st) @ '' not found '' @ [CHR 0xE2, CHR 0x80, CHR 0x94] @ '' run mise run minio-setup or check MINIO_BUCKET''
             else ''tenant '' @ tid @ '': '' @ error_text e)\<rparr>
      | ((n, None), env') \<Rightarrow>
          probe_loop ops oe cfg ids
            (st\<lparr>bs_KeysByTenant := fmupd tid n (bs_KeysByTenant st), bs_TotalKeys := bs_TotalKeys st + n\<rparr>) env')"

definition Probe :: "('s, 'c) isle \<Rightarrow> 's open_env \<Rightarrow> StoreConfig \<Rightarrow> osenv \<Rightarrow> BackendStatus" where
  "Probe ops oe cfg env =
     (let st0 = \<lparr>bs_Backend = sc_Backend cfg, bs_OK = False, bs_Error = [], bs_Bucket = [], bs_Endpoint = [],
                 bs_TotalKeys = 0, bs_KeysByTenant = fmempty\<rparr>;
          st = (if sc_Backend cfg = BackendMinIO then st0\<lparr>bs_Bucket := sc_MinBucket cfg, bs_Endpoint := sc_MinEndpoint cfg\<rparr>
                else if sc_Backend cfg = BackendTigris then
                  st0\<lparr>bs_Bucket := sc_TigrisBucket cfg, bs_Endpoint := ''tigris (s3 api)''\<rparr>
                else st0\<lparr>bs_Bucket := ''memory''\<rparr>)
      in if sc_Backend cfg = BackendMinIO \<or> sc_Backend cfg = BackendTigris then
           (case ensureBucket (oe_Bucket oe) cfg env of
              (Some e, env') \<Rightarrow> st\<lparr>bs_OK := False, bs_Error := ''bucket setup: '' @ error_text e\<rparr>
            | (None, env') \<Rightarrow> probe_loop ops oe cfg AllTenantIDs st env')
         else probe_loop ops oe cfg AllTenantIDs st env)"

end
