(* ===== verification/Tenant_Correct.thy ===== *)
theory Tenant_Correct
  imports Tenant_Pipeline
begin

text \<open>
  What the tenant pipeline guarantees: its checks are exact, and over a store that keeps its
  contract writing a run's emissions, flushing and compacting make \<open>Verify\<close> succeed.
\<close>

section \<open>The checks\<close>

lemma verifyKeyOrder_None: "verifyKeyOrder keys = None \<longleftrightarrow> sorted keys"
  by (induction keys rule: verifyKeyOrder.induct) (auto simp: not_less)

lemma compare_keys_None: "length ws = length gs \<Longrightarrow> compare_keys ws gs = None \<longleftrightarrow> ws = gs"
  by (induction ws gs rule: compare_keys.induct) auto

lemma sort_eq_mset: "sort xs = sort ys \<longleftrightarrow> mset xs = mset (ys :: string list)"
  by (metis mset_sort properties_for_sort sorted_sort)

lemma verifyKeySet_None: "verifyKeySet want got = None \<longleftrightarrow> mset want = mset got"
  using compare_keys_None [of "sort want" "sort got"]
  by (auto simp: verifyKeySet_def sort_eq_mset dest: mset_eq_length)

text \<open>The order check passes exactly for sorted keys, and the set check exactly when the two
  lists hold the same keys with the same multiplicities.\<close>

lemma verify_checks_exact:
  "(verifyKeyOrder keys = None \<longleftrightarrow> sorted keys) \<and> (verifyKeySet want got = None \<longleftrightarrow> mset want = mset got)"
  by (simp add: verifyKeyOrder_None verifyKeySet_None)

lemma group_keys_lookup:
  "fmlookup (group_keys keys m) t =
     (case (fmlookup m t, filter (\<lambda>k. TenantFromKey k = t) keys) of
        (r, []) \<Rightarrow> r | (None, ks) \<Rightarrow> Some ks | (Some ks0, ks) \<Rightarrow> Some (ks0 @ ks))"
proof (induction keys arbitrary: m)
  case (Cons k keys)
  have "group_keys (k # keys) m = group_keys keys (fmupd (TenantFromKey k)
      ((case fmlookup m (TenantFromKey k) of None \<Rightarrow> [] | Some ks \<Rightarrow> ks) @ [k]) m)"
    by (simp add: group_keys_def)
  then show ?case by (auto simp: Cons.IH split: option.splits list.splits)
qed (simp add: group_keys_def split: option.splits)

lemma groupKeysByTenant_lookup:
  "fmlookup (groupKeysByTenant keys) t =
     (let ks = filter (\<lambda>k. TenantFromKey k = t) keys in if ks = [] then None else Some (sort ks))"
  by (auto simp: groupKeysByTenant_def group_keys_lookup Let_def split: list.splits)

section \<open>A successful verification is sound\<close>

text \<open>What a tenant's verification has found: the scan of the tenant as it was before gave the expected keys in
  order, and counting the change feed after the scan gave at least as many changes.\<close>

definition tenant_verified :: "('s, 'c) isle \<Rightarrow> 's Pipeline \<Rightarrow> VerifyResult \<Rightarrow> string \<Rightarrow> string list \<Rightarrow> bool" where
  "tenant_verified ops p res tid want \<longleftrightarrow>
     (\<exists>t t' got n. Pipeline_tenant p tid = Inr t \<and> Tenant_ScanKeys ops t = (Inr got, t') \<and> sorted got \<and> mset got = mset want \<and>
        ChangeFeedCount ops t' = Some (None, n) \<and> length want \<le> n \<and>
        fmlookup (vr_KeysByTenant res) tid = Some got \<and> fmlookup (vr_TailCountByTenant res) tid = Some n)"

lemma verify_tenant_sound:
  assumes "verify_tenant ops tid want res p = Some ((res', None), p')"
  shows "tenant_verified ops p res' tid want"
    and "tid' \<noteq> tid \<Longrightarrow> Pipeline_tenant p' tid' = Pipeline_tenant p tid'"
    and "tid' \<noteq> tid \<Longrightarrow> fmlookup (vr_KeysByTenant res') tid' = fmlookup (vr_KeysByTenant res) tid' \<and>
      fmlookup (vr_TailCountByTenant res') tid' = fmlookup (vr_TailCountByTenant res) tid'"
    and "vr_PutCount res' = vr_PutCount res \<and> vr_UniqueKeysExpected res' = vr_UniqueKeysExpected res"
proof -
  obtain t t' got n where t: "Pipeline_tenant p tid = Inr t" "Tenant_ScanKeys ops t = (Inr got, t')" "sorted got" "mset got = mset want"
      "ChangeFeedCount ops t' = Some (None, n)" "\<not> n < length want" "p' = set_tenant tid t' p"
      "res' = res\<lparr>vr_KeysByTenant := fmupd tid got (vr_KeysByTenant res), vr_TailCountByTenant := fmupd tid n (vr_TailCountByTenant res)\<rparr>"
    using assms
    by (auto simp: verify_tenant_def Let_def verifyKeyOrder_None verifyKeySet_None split: sum.splits prod.splits option.splits if_splits)
  then show "tenant_verified ops p res' tid want" by (auto simp: tenant_verified_def)
  show "tid' \<noteq> tid \<Longrightarrow> Pipeline_tenant p' tid' = Pipeline_tenant p tid'" by (simp add: t set_tenant_def Pipeline_tenant_def)
  show "tid' \<noteq> tid \<Longrightarrow> fmlookup (vr_KeysByTenant res') tid' = fmlookup (vr_KeysByTenant res) tid' \<and>
      fmlookup (vr_TailCountByTenant res') tid' = fmlookup (vr_TailCountByTenant res) tid'"
    "vr_PutCount res' = vr_PutCount res \<and> vr_UniqueKeysExpected res' = vr_UniqueKeysExpected res" by (simp_all add: t)
qed

lemma verify_loop_sound:
  assumes "verify_loop ops entries res p = Some ((res', None), p')" and "distinct (map fst entries)"
  shows "(\<forall>(tid, want) \<in> set entries. tenant_verified ops p res' tid want) \<and>
    (\<forall>tid. tid \<notin> fst ` set entries \<longrightarrow>
      fmlookup (vr_KeysByTenant res') tid = fmlookup (vr_KeysByTenant res) tid \<and>
      fmlookup (vr_TailCountByTenant res') tid = fmlookup (vr_TailCountByTenant res) tid) \<and>
    vr_PutCount res' = vr_PutCount res \<and> vr_UniqueKeysExpected res' = vr_UniqueKeysExpected res"
  using assms
proof (induction entries arbitrary: res p)
  case (Cons en entries)
  obtain tid want where en: "en = (tid, want)" by fastforce
  obtain res1 p1 where v: "verify_tenant ops tid want res p = Some ((res1, None), p1)"
      "verify_loop ops entries res1 p1 = Some ((res', None), p')"
    using Cons.prems by (auto simp: en split: option.splits prod.splits)
  have fresh: "tid \<notin> fst ` set entries" using Cons.prems(2) by (simp add: en)
  note one = verify_tenant_sound [OF v(1)] and rest = Cons.IH [OF v(2)]
  have "tenant_verified ops p res' tid want"
    using one(1) rest fresh Cons.prems(2) by (simp add: tenant_verified_def en)
  moreover have "tenant_verified ops p res' tid' want'" if "(tid', want') \<in> set entries" for tid' want'
  proof -
    have "tid' \<noteq> tid" using fresh that by force
    moreover have "tenant_verified ops p1 res' tid' want'" using rest Cons.prems(2) that by (auto simp: en)
    ultimately show ?thesis by (simp add: tenant_verified_def one(2))
  qed
  ultimately show ?case using rest one(3,4) Cons.prems(2) by (auto simp: en)
qed simp

text \<open>C2: when \<open>Verify\<close> returns no error, then for every tenant with an expected key the scan of its prefix, in the state
  the pipeline was given, returned its expected keys, each once and in order, and the count of its change
  feed after the scan was at least their number; these are the keys and counts that are reported. At
  least as many puts were made as unique keys expected, more when there was a retry. This holds
  whatever the store does.\<close>

theorem Verify_sound:
  assumes "Verify ops ids emissions p = Some ((res, None), p')"
    and "range_order ids (groupKeysByTenant (ExpectedKeys emissions))"
    and "k \<in> set (ExpectedKeys emissions)"
  shows "(\<exists>t t' got n. Pipeline_tenant p (TenantFromKey k) = Inr t \<and> Tenant_ScanKeys ops t = (Inr got, t') \<and> sorted got \<and>
      mset got = mset (filter (\<lambda>k'. TenantFromKey k' = TenantFromKey k) (ExpectedKeys emissions)) \<and>
      ChangeFeedCount ops t' = Some (None, n) \<and> length got \<le> n \<and>
      fmlookup (vr_KeysByTenant res) (TenantFromKey k) = Some got \<and> fmlookup (vr_TailCountByTenant res) (TenantFromKey k) = Some n) \<and>
    vr_UniqueKeysExpected res = length (ExpectedKeys emissions) \<and> vr_PutCount res = length emissions \<and>
    vr_UniqueKeysExpected res \<le> vr_PutCount res \<and>
    (list_ex em_Retry emissions \<longrightarrow> vr_UniqueKeysExpected res < vr_PutCount res)"
proof -
  define res0 where "res0 = \<lparr>vr_PutCount = length emissions, vr_UniqueKeysExpected = length (ExpectedKeys emissions),
    vr_KeysByTenant = fmempty, vr_TailCountByTenant = fmempty\<rparr>"
  have l: "verify_loop ops (range_entries ids (groupKeysByTenant (ExpectedKeys emissions))) res0 p = Some ((res, None), p')"
      "put_count_error emissions res = None"
    using assms(1) by (auto simp: Verify_def res0_def Let_def split: option.splits prod.splits)
  have "distinct (map fst (range_entries ids (groupKeysByTenant (ExpectedKeys emissions))))"
    using assms(2) by (simp add: range_keys_order) (simp add: range_order_def)
  note v = verify_loop_sound [OF l(1) this]
  have "filter (\<lambda>k'. TenantFromKey k' = TenantFromKey k) (ExpectedKeys emissions) \<noteq> []"
    using assms(3) by (auto simp: filter_empty_conv)
  then have "(TenantFromKey k, sort (filter (\<lambda>k'. TenantFromKey k' = TenantFromKey k) (ExpectedKeys emissions)))
      \<in> set (range_entries ids (groupKeysByTenant (ExpectedKeys emissions)))"
    by (simp add: range_order_entries [OF assms(2)] groupKeysByTenant_lookup Let_def)
  with v have "tenant_verified ops p res (TenantFromKey k) (sort (filter (\<lambda>k'. TenantFromKey k' = TenantFromKey k) (ExpectedKeys emissions)))"
    by blast
  then have "\<exists>t t' got n. Pipeline_tenant p (TenantFromKey k) = Inr t \<and> Tenant_ScanKeys ops t = (Inr got, t') \<and> sorted got \<and>
      mset got = mset (filter (\<lambda>k'. TenantFromKey k' = TenantFromKey k) (ExpectedKeys emissions)) \<and>
      ChangeFeedCount ops t' = Some (None, n) \<and> length got \<le> n \<and>
      fmlookup (vr_KeysByTenant res) (TenantFromKey k) = Some got \<and> fmlookup (vr_TailCountByTenant res) (TenantFromKey k) = Some n"
    unfolding tenant_verified_def by (metis (no_types, lifting) length_sort mset_sort size_mset)
  moreover have "vr_UniqueKeysExpected res \<le> vr_PutCount res \<and>
      (list_ex em_Retry emissions \<longrightarrow> vr_UniqueKeysExpected res < vr_PutCount res)"
    using l(2) by (auto simp: put_count_error_def split: if_splits)
  moreover have "vr_UniqueKeysExpected res = length (ExpectedKeys emissions)" "vr_PutCount res = length emissions"
    using v by (simp_all add: res0_def)
  ultimately show ?thesis by blast
qed

section \<open>Loops over the tenants\<close>

text \<open>\<open>lift_rel\<close> relates two pipelines tenant by tenant.\<close>

definition tenants_rel :: "('s PrefixDB \<Rightarrow> 's PrefixDB \<Rightarrow> bool) \<Rightarrow> 's Pipeline \<Rightarrow> 's Pipeline \<Rightarrow> bool" where
  "tenants_rel R p p' \<longleftrightarrow> (\<forall>t. rel_option R (fmlookup (pp_tenants p) t) (fmlookup (pp_tenants p') t))"

definition tenant_ok :: "('s \<Rightarrow> bool) \<Rightarrow> string \<Rightarrow> 's PrefixDB \<Rightarrow> bool" where
  "tenant_ok live t d \<longleftrightarrow> pd_ID d = t \<and> pd_Reader d \<and> live (pd_State d)"

definition pipeline_ok :: "('s \<Rightarrow> bool) \<Rightarrow> 's Pipeline \<Rightarrow> bool" where
  "pipeline_ok live p \<longleftrightarrow> fmpred (tenant_ok live) (pp_tenants p)"

definition contents :: "('s \<Rightarrow> kv) \<Rightarrow> 's Pipeline \<Rightarrow> string \<Rightarrow> kv option" where
  "contents f p t = map_option (\<lambda>d. f (pd_State d)) (fmlookup (pp_tenants p) t)"

lemma lookup_set_tenant [simp]:
  "fmlookup (pp_tenants (set_tenant tid d p)) t = (if t = tid then Some d else fmlookup (pp_tenants p) t)"
  by (simp add: set_tenant_def)

lemma pipeline_okD: "pipeline_ok live p \<Longrightarrow> fmlookup (pp_tenants p) t = Some d \<Longrightarrow> tenant_ok live t d"
  by (auto simp: pipeline_ok_def fmpred_iff)

lemma pipeline_ok_set: "pipeline_ok live p \<Longrightarrow> tenant_ok live t d \<Longrightarrow> pipeline_ok live (set_tenant t d p)"
  by (auto simp: pipeline_ok_def fmpred_iff split: if_splits)

lemma each_tenant_ok:
  assumes step: "\<And>t d. tenant_ok live t d \<Longrightarrow> \<exists>d'. f d = (None, d') \<and> tenant_ok live t d' \<and> R d d'"
  shows "distinct ids \<Longrightarrow> pipeline_ok live p \<Longrightarrow>
    \<exists>p'. each_tenant f ids p = (None, p') \<and> pipeline_ok live p' \<and>
      (\<forall>t. if t \<in> set ids then rel_option R (fmlookup (pp_tenants p) t) (fmlookup (pp_tenants p') t)
           else fmlookup (pp_tenants p') t = fmlookup (pp_tenants p) t)"
proof (induction ids arbitrary: p)
  case (Cons tid ids)
  show ?case
  proof (cases "fmlookup (pp_tenants p) tid")
    case None
    with Cons.IH [of p] Cons.prems obtain p' where "each_tenant f ids p = (None, p')" "pipeline_ok live p'"
      "\<forall>t. if t \<in> set ids then rel_option R (fmlookup (pp_tenants p) t) (fmlookup (pp_tenants p') t)
           else fmlookup (pp_tenants p') t = fmlookup (pp_tenants p) t" by auto
    with None Cons.prems(1) show ?thesis by (auto simp: if_splits)
  next
    case (Some d)
    obtain d' where d': "f d = (None, d')" "tenant_ok live tid d'" "R d d'"
      using step pipeline_okD [OF Cons.prems(2) Some] by blast
    with Cons.IH [of "set_tenant tid d' p"] Cons.prems pipeline_ok_set obtain p' where
      p': "each_tenant f ids (set_tenant tid d' p) = (None, p')" "pipeline_ok live p'"
      "\<forall>t. if t \<in> set ids then rel_option R (fmlookup (pp_tenants (set_tenant tid d' p)) t) (fmlookup (pp_tenants p') t)
           else fmlookup (pp_tenants p') t = fmlookup (pp_tenants (set_tenant tid d' p)) t" by force
    have "if t \<in> set (tid # ids) then rel_option R (fmlookup (pp_tenants p) t) (fmlookup (pp_tenants p') t)
           else fmlookup (pp_tenants p') t = fmlookup (pp_tenants p) t" for t
      using p'(3) [rule_format, of t] Some d'(3) Cons.prems(1) by (cases "t = tid") (auto split: if_splits)
    with Some d' p' show ?thesis by auto
  qed
qed simp

lemma each_tenant_all:
  assumes "\<And>t d. tenant_ok live t d \<Longrightarrow> \<exists>d'. f d = (None, d') \<and> tenant_ok live t d' \<and> R d d'"
    and "range_order ids (pp_tenants p)" and "pipeline_ok live p"
  shows "\<exists>p'. each_tenant f ids p = (None, p') \<and> pipeline_ok live p' \<and> tenants_rel R p p'"
proof -
  have ids: "distinct ids" using assms(2) by (simp add: range_order_def)
  obtain p' where p': "each_tenant f ids p = (None, p')" "pipeline_ok live p'"
      "\<forall>t. if t \<in> set ids then rel_option R (fmlookup (pp_tenants p) t) (fmlookup (pp_tenants p') t)
           else fmlookup (pp_tenants p') t = fmlookup (pp_tenants p) t"
    using each_tenant_ok [where f = f and R = R, OF assms(1) ids assms(3)] by blast
  have "rel_option R (fmlookup (pp_tenants p) t) (fmlookup (pp_tenants p') t)" for t
    using p'(3) [rule_format, of t] range_order_member [OF assms(2), of t] by (auto split: if_splits)
  with p' show ?thesis by (auto simp: tenants_rel_def)
qed

section \<open>Operations over a live store\<close>

definition put_event :: "string \<Rightarrow> Emission \<Rightarrow> kv \<Rightarrow> kv" where
  "put_event t em m = (if ev_TenantID (em_Event em) = t
     then fmupd (Event_Key (em_Event em)) (projr (Event_ValueBytes (em_Event em))) m else m)"

definition tenant_keys :: "kv \<Rightarrow> string \<Rightarrow> string list" where
  "tenant_keys m t = kv_keys (TenantPrefix t) (TenantUpperBound t) m"

context live_store
begin

lemma Tenant_Put_ok:
  assumes "tenant_ok live t d" and "Event_ValueBytes ev = Inr v"
  shows "\<exists>d'. Tenant_Put ops ev d = (None, d') \<and> tenant_ok live t d' \<and>
    current (pd_State d') = fmupd (Event_Key ev) v (current (pd_State d))"
proof -
  obtain s' where s': "isle_Put ops (Event_Key ev) v (pd_State d) = (None, s')" "live s'"
    using assms(1) live_put [of "pd_State d" "Event_Key ev" v] by (auto simp: tenant_ok_def)
  then show ?thesis
    using assms put_ok [OF s'(1)] by (simp add: Tenant_Put_def with_state_def tenant_ok_def Event_KeyBytes_def)
qed

lemma Tenant_Flush_ok:
  assumes "tenant_ok live t d"
  shows "\<exists>d'. Tenant_Flush ops d = (None, d') \<and> tenant_ok live t d' \<and>
    current (pd_State d') = current (pd_State d) \<and> committed (pd_State d') = current (pd_State d)"
proof -
  obtain s1 where s1: "isle_Flush ops (pd_State d) = (None, s1)" "live s1"
    using assms live_flush by (auto simp: tenant_ok_def)
  obtain s2 where s2: "isle_Refresh ops s1 = (None, s2)" "live s2"
    using live_refresh [OF s1(2)] by blast
  show ?thesis
    using assms s1 s2 flush_ok [OF s1(1)] refresh_ok [OF s2(1)]
    by (simp add: Tenant_Flush_def with_state_def tenant_ok_def RefreshReader_def)
qed

lemma RunMaintenanceOnce_ok:
  assumes "tenant_ok live t d"
  shows "\<exists>d'. RunMaintenanceOnce ops d = (None, d') \<and> tenant_ok live t d' \<and>
    current (pd_State d') = current (pd_State d) \<and> committed (pd_State d') = committed (pd_State d)"
proof -
  obtain s1 where s1: "isle_MaintRunOnce ops (pd_State d) = (None, s1)" "live s1"
    using assms live_maintenance by (auto simp: tenant_ok_def)
  show ?thesis
    using assms s1 maintenance_keeps [OF s1(1)]
    by (simp add: RunMaintenanceOnce_def with_state_def tenant_ok_def)
qed

lemma Tenant_ScanKeys_ok:
  assumes "tenant_ok live t d"
  shows "\<exists>d'. Tenant_ScanKeys ops d = (Inr (tenant_keys (committed (pd_State d)) t), d') \<and> tenant_ok live t d' \<and>
    current (pd_State d') = current (pd_State d) \<and> committed (pd_State d') = committed (pd_State d)"
proof -
  obtain s1 where s1: "isle_Refresh ops (pd_State d) = (None, s1)" "live s1"
    using assms live_refresh by (auto simp: tenant_ok_def)
  obtain es where es: "isle_NewIterator ops s1 (TenantPrefix t) (TenantUpperBound t) = Inr (es, None)"
    using live_iterate [OF s1(2)] by blast
  show ?thesis
    using assms s1 es iterate [OF es] refresh_ok [OF s1(1)]
    by (simp add: Tenant_ScanKeys_def ScanKeysIter_def with_state_def tenant_ok_def tenant_keys_def)
qed

lemma ChangeFeedCount_ok:
  assumes "tenant_ok live t d"
  shows "\<exists>n. ChangeFeedCount ops d = Some (None, n) \<and> card (fmdom' (committed (pd_State d))) \<le> n"
proof -
  have "page_hom (\<lambda>chs n. (None, n + length chs))" by (simp add: page_hom_def)
  from read_feed_all [OF this live_readable] assms feed_covers show ?thesis
    by (simp add: ChangeFeedCount_def CountChangeFeed_def tenant_ok_def)
qed

lemma FlushAll_ok:
  assumes "range_order ids (pp_tenants p)" and "pipeline_ok live p"
  shows "\<exists>p'. FlushAll ops ids p = (None, p') \<and> pipeline_ok live p' \<and>
    contents current p' = contents current p \<and> contents committed p' = contents current p"
proof -
  obtain p' where p': "FlushAll ops ids p = (None, p')" "pipeline_ok live p'"
      "tenants_rel (\<lambda>d d'. current (pd_State d') = current (pd_State d) \<and> committed (pd_State d') = current (pd_State d)) p p'"
    using each_tenant_all [where f = "Tenant_Flush ops", OF Tenant_Flush_ok assms] by (auto simp: FlushAll_def)
  have "contents current p' t = contents current p t \<and> contents committed p' t = contents current p t" for t
    using p'(3) by (auto simp: tenants_rel_def contents_def option_rel_Some1 dest!: spec [of _ t] elim!: option.rel_cases)
  with p' show ?thesis by blast
qed

lemma CompactAll_ok:
  assumes "range_order ids (pp_tenants p)" and "pipeline_ok live p"
  shows "\<exists>p'. CompactAll ops ids p = (None, p') \<and> pipeline_ok live p' \<and>
    contents current p' = contents current p \<and> contents committed p' = contents committed p"
proof -
  obtain p' where p': "CompactAll ops ids p = (None, p')" "pipeline_ok live p'"
      "tenants_rel (\<lambda>d d'. current (pd_State d') = current (pd_State d) \<and> committed (pd_State d') = committed (pd_State d)) p p'"
    using each_tenant_all [where f = "RunMaintenanceOnce ops", OF RunMaintenanceOnce_ok assms] by (auto simp: CompactAll_def)
  have "contents current p' t = contents current p t \<and> contents committed p' t = contents committed p t" for t
    using p'(3) by (auto simp: tenants_rel_def contents_def option_rel_Some1 dest!: spec [of _ t] elim!: option.rel_cases)
  with p' show ?thesis by blast
qed

lemma WriteEmissions_ok:
  "pipeline_ok live p \<Longrightarrow>
   (\<And>em. em \<in> set ems \<Longrightarrow> fmlookup (pp_tenants p) (ev_TenantID (em_Event em)) \<noteq> None \<and> (\<exists>v. Event_ValueBytes (em_Event em) = Inr v)) \<Longrightarrow>
   \<exists>p'. WriteEmissions ops ems p = ((length ems, None), p') \<and> pipeline_ok live p' \<and>
     (\<forall>t. contents current p' t = map_option (fold (put_event t) ems) (contents current p t))"
proof (induction ems arbitrary: p)
  case (Cons em ems)
  let ?t = "ev_TenantID (em_Event em)"
  obtain d v where d: "fmlookup (pp_tenants p) ?t = Some d" "Event_ValueBytes (em_Event em) = Inr v"
    using Cons.prems(2) [of em] by auto
  obtain d' where d': "Tenant_Put ops (em_Event em) d = (None, d')" "tenant_ok live ?t d'"
      "current (pd_State d') = fmupd (Event_Key (em_Event em)) v (current (pd_State d))"
    using Tenant_Put_ok [OF pipeline_okD [OF Cons.prems(1) d(1)] d(2)] by blast
  have "pipeline_ok live (set_tenant ?t d' p)" by (rule pipeline_ok_set [OF Cons.prems(1) d'(2)])
  from Cons.IH [OF this] Cons.prems(2) obtain p' where p': "WriteEmissions ops ems (set_tenant ?t d' p) = ((length ems, None), p')"
      "pipeline_ok live p'" "\<forall>t. contents current p' t = map_option (fold (put_event t) ems) (contents current (set_tenant ?t d' p) t)"
    by (metis list.set_intros(2) lookup_set_tenant option.distinct(1))
  have "contents current (set_tenant ?t d' p) t = map_option (put_event t em) (contents current p t)" for t
    using d d'(3) by (auto simp: contents_def put_event_def option.map_comp comp_def option.map_ident)
  with p' d d' show ?case
    by (auto simp: option.map_comp comp_def)
qed (simp add: option.map_id)

lemma contents_set_tenant:
  "fmlookup (pp_tenants p) t = Some d \<Longrightarrow> f (pd_State d') = f (pd_State d) \<Longrightarrow>
   contents f (set_tenant t d' p) = contents f p"
  by (rule ext) (auto simp: contents_def)

lemma count_keys_ok:
  "pipeline_ok live p \<Longrightarrow> (\<And>t. t \<in> set ids \<Longrightarrow> contents committed p t = Some (m t)) \<Longrightarrow>
   \<exists>p'. count_keys ops ids tot p = ((tot + (\<Sum>t\<leftarrow>ids. length (tenant_keys (m t) t)), None), p') \<and> pipeline_ok live p' \<and>
     contents current p' = contents current p \<and> contents committed p' = contents committed p"
proof (induction ids arbitrary: tot p)
  case (Cons t ids)
  obtain d where d: "fmlookup (pp_tenants p) t = Some d" "committed (pd_State d) = m t"
    using Cons.prems(2) [of t] by (auto simp: contents_def)
  obtain d' where d': "Tenant_ScanKeys ops d = (Inr (tenant_keys (m t) t), d')" "tenant_ok live t d'"
      "current (pd_State d') = current (pd_State d)" "committed (pd_State d') = committed (pd_State d)"
    using Tenant_ScanKeys_ok [OF pipeline_okD [OF Cons.prems(1) d(1)]] d(2) by auto
  have eq: "contents f (set_tenant t d' p) = contents f p" if "f \<in> {current, committed}" for f
    using that d'(3,4) contents_set_tenant [where f = f, OF d(1)] by auto
  have "pipeline_ok live (set_tenant t d' p)" by (rule pipeline_ok_set [OF Cons.prems(1) d'(2)])
  from Cons.IH [OF this, of "tot + length (tenant_keys (m t) t)"] Cons.prems(2) show ?case
    using d d' by (auto simp: eq Pipeline_tenant_def add.assoc)
qed simp

lemma verify_tenant_ok:
  assumes "pipeline_ok live p" and "contents committed p t = Some m" and "want = tenant_keys m t"
  shows "\<exists>res' p'. verify_tenant ops t want res p = Some ((res', None), p') \<and> pipeline_ok live p' \<and>
    contents committed p' = contents committed p \<and>
    vr_PutCount res' = vr_PutCount res \<and> vr_UniqueKeysExpected res' = vr_UniqueKeysExpected res"
proof -
  obtain d where d: "fmlookup (pp_tenants p) t = Some d" "committed (pd_State d) = m"
    using assms(2) by (auto simp: contents_def)
  obtain d' where d': "Tenant_ScanKeys ops d = (Inr want, d')" "tenant_ok live t d'"
      "committed (pd_State d') = m"
    using Tenant_ScanKeys_ok [OF pipeline_okD [OF assms(1) d(1)]] d(2) assms(3) by auto
  obtain n where n: "ChangeFeedCount ops d' = Some (None, n)" "card (fmdom' m) \<le> n"
    using ChangeFeedCount_ok [OF d'(2)] d'(3) by auto
  have "length want = card (set want)"
    using distinct_kv_keys by (simp add: assms(3) tenant_keys_def distinct_card del: set_kv_keys)
  also have "\<dots> \<le> card (fmdom' m)"
    by (rule card_mono) (auto simp: assms(3) tenant_keys_def)
  finally have "length want \<le> n" using n(2) by linarith
  moreover have "verifyKeyOrder want = None"
    using sorted_kv_keys by (simp add: verifyKeyOrder_None assms(3) tenant_keys_def)
  moreover have "verifyKeySet want want = None" by (simp add: verifyKeySet_None)
  ultimately show ?thesis
    using d d' n assms contents_set_tenant [where f = committed, OF d(1), of d'] pipeline_ok_set [OF assms(1) d'(2)]
    by (simp add: verify_tenant_def Pipeline_tenant_def Let_def)
qed

lemma verify_loop_ok:
  "pipeline_ok live p \<Longrightarrow>
   (\<And>t want. (t, want) \<in> set entries \<Longrightarrow> \<exists>m. contents committed p t = Some m \<and> want = tenant_keys m t) \<Longrightarrow>
   \<exists>res' p'. verify_loop ops entries res p = Some ((res', None), p') \<and>
     vr_PutCount res' = vr_PutCount res \<and> vr_UniqueKeysExpected res' = vr_UniqueKeysExpected res"
proof (induction entries arbitrary: res p)
  case (Cons en entries)
  obtain t want where en: "en = (t, want)" by fastforce
  obtain m where m: "contents committed p t = Some m" "want = tenant_keys m t"
    using Cons.prems(2) by (auto simp: en)
  obtain res1 p1 where v: "verify_tenant ops t want res p = Some ((res1, None), p1)" "pipeline_ok live p1"
      "contents committed p1 = contents committed p"
      "vr_PutCount res1 = vr_PutCount res" "vr_UniqueKeysExpected res1 = vr_UniqueKeysExpected res"
    using verify_tenant_ok [OF Cons.prems(1) m] by blast
  from Cons.IH [OF v(2), of res1] Cons.prems(2) v show ?case by (auto simp: en)
qed simp

end

section \<open>What the emissions of a run leave in each tenant\<close>

lemma put_events_dom:
  "fmdom' (fold (put_event t) ems m) =
     fmdom' m \<union> (\<lambda>em. Event_Key (em_Event em)) ` {em \<in> set ems. ev_TenantID (em_Event em) = t}"
  by (induction ems arbitrary: m) (auto simp: put_event_def)

lemma Event_Key_TenantFromKey:
  "ev_TenantID e \<in> fst ` set tenants \<Longrightarrow> TenantFromKey (Event_Key e) = ev_TenantID e"
  using tenants_no_colon [of "ev_TenantID e"] by (simp add: Event_Key_def TenantFromKey_append)

lemma traffic_tenant_keys:
  assumes "traffic ge 0 n ems" and "inj_on (ge_UUID ge) {..<n}"
  shows "tenant_keys (fold (put_event t) ems fmempty) t = sort (filter (\<lambda>k. TenantFromKey k = t) (ExpectedKeys ems))"
proof -
  let ?S = "(\<lambda>em. Event_Key (em_Event em)) ` {em \<in> set ems. ev_TenantID (em_Event em) = t}"
  have tenant: "TenantFromKey (Event_Key (em_Event em)) = ev_TenantID (em_Event em)" if "em \<in> set ems" for em
    using traffic_finite [OF assms(1) that] by (simp add: Event_Key_TenantFromKey)
  have S: "?S = set (filter (\<lambda>k. TenantFromKey k = t) (ExpectedKeys ems))"
  proof -
    have "?S = {k \<in> (\<lambda>em. Event_Key (em_Event em)) ` set ems. TenantFromKey k = t}"
      using tenant by auto
    also have "(\<lambda>em. Event_Key (em_Event em)) ` set ems = set (ExpectedKeys ems)"
      using traffic_keys [OF assms(1)] by (simp only: set_map)
    finally show ?thesis by simp
  qed
  have "TenantPrefix t \<le> k \<and> k < TenantUpperBound t" if "k \<in> ?S" for k
  proof -
    have "prefix (TenantPrefix t) k" using that by (auto simp: TenantPrefix_def Event_Key_def)
    then show ?thesis by (simp only: tenant_scan.in_range)
  qed
  then have "{k \<in> ?S. TenantPrefix t \<le> k \<and> k < TenantUpperBound t} = ?S" by blast
  then have "set (tenant_keys (fold (put_event t) ems fmempty) t) = ?S"
    by (simp add: tenant_keys_def put_events_dom)
  with S have "set (tenant_keys (fold (put_event t) ems fmempty) t) = set (sort (filter (\<lambda>k. TenantFromKey k = t) (ExpectedKeys ems)))"
    by (simp only: set_sort)
  moreover have "distinct (filter (\<lambda>k. TenantFromKey k = t) (ExpectedKeys ems))"
    using traffic_distinct [OF assms] by simp
  ultimately show ?thesis
    by (intro sorted_distinct_set_unique) (simp_all only: tenant_keys_def sorted_kv_keys distinct_kv_keys distinct_sort sorted_sort)
qed

lemma sum_filter_length:
  "distinct ids \<Longrightarrow> (\<And>k. k \<in> set ks \<Longrightarrow> f k \<in> set ids) \<Longrightarrow>
   (\<Sum>t\<leftarrow>ids. length (filter (\<lambda>k. f k = t) ks)) = length ks"
proof (induction ks)
  case (Cons k ks)
  have "(\<Sum>t\<leftarrow>ids. length (filter (\<lambda>k. f k = t) (k # ks))) =
      (\<Sum>t\<leftarrow>ids. (if f k = t then 1 else 0) + length (filter (\<lambda>k. f k = t) ks))"
    by (rule arg_cong [where f = sum_list]) simp
  also have "\<dots> = (\<Sum>t\<leftarrow>ids. if f k = t then 1 else 0) + length ks"
    using Cons by (simp add: sum_list_addf)
  also have "(\<Sum>t\<leftarrow>ids. if f k = t then 1 else 0) = (1 :: nat)"
    using Cons.prems by (simp add: sum_list_distinct_conv_sum_set)
  finally show ?case by simp
qed (simp add: sum_list_0 [unfolded One_nat_def])

section \<open>A verified pipeline\<close>

text \<open>A pipeline with one tenant whose store holds the key of \<open>sample_event\<close>.\<close>

definition sample_pipeline :: "mem Pipeline" where
  "sample_pipeline = \<lparr>pp_tenants = fmupd ''tenant-alpha''
       \<lparr>pd_ID = ''tenant-alpha'', pd_Prefix = ''tenant-alpha'', pd_CacheDir = [],
        pd_State = mem_empty\<lparr>mm_Log := [put_change (Event_Key sample_event) JNull]\<rparr>, pd_DB = True, pd_Writer = True,
        pd_Reader = True, pd_Maintenance = True, pd_closeBucket = True, pd_maintCancel = False\<rparr> fmempty,
     pp_cfg = StoreConfigFromEnv (\<lambda>v. Inl (Errorf v)) (\<lambda>k. []) BackendMemory []\<rparr>"

definition sample_emissions :: "Emission list" where
  "sample_emissions = [\<lparr>em_Event = sample_event, em_Retry = False, em_Unique = True\<rparr>]"

lemma sample_key: "TenantFromKey (Event_Key sample_event) = ''tenant-alpha''"
  "TenantPrefix ''tenant-alpha'' \<le> Event_Key sample_event \<and> Event_Key sample_event < TenantUpperBound ''tenant-alpha''"
  unfolding tenant_scan.in_range
  by (simp_all add: Event_Key_def sample_event_def TenantFromKey_def TenantPrefix_def)

lemma sample_group: "groupKeysByTenant (ExpectedKeys sample_emissions) = fmupd ''tenant-alpha'' [Event_Key sample_event] fmempty"
  by (rule fmap_ext) (auto simp: groupKeysByTenant_lookup ExpectedKeys_def sample_emissions_def sample_key)

lemma sample_verified:
  "\<exists>res p'. Verify (mem_isle 1) [''tenant-alpha''] sample_emissions sample_pipeline = Some ((res, None), p')"
proof -
  have ok: "pipeline_ok mem_live sample_pipeline"
    by (simp add: pipeline_ok_def sample_pipeline_def tenant_ok_def mem_live_def mem_empty_def fmpred_iff)
  have keys: "tenant_keys (fmupd (Event_Key sample_event) JNull fmempty) ''tenant-alpha'' = [Event_Key sample_event]"
    using sample_key(2)
    by (intro sorted_distinct_set_unique) (auto simp: tenant_keys_def sorted_kv_keys distinct_kv_keys)
  have "\<exists>m. contents mem_committed sample_pipeline t = Some m \<and> want = tenant_keys m t"
    if "(t, want) \<in> set [(''tenant-alpha'', [Event_Key sample_event])]" for t want
    using that keys
    by (simp add: contents_def sample_pipeline_def mem_committed_def mem_empty_def feed_map_def put_change_def)
  from mem_live_store.verify_loop_ok [OF ok this, where entries = "[(''tenant-alpha'', [Event_Key sample_event])]"
      and n = 1 and res = "\<lparr>vr_PutCount = 1, vr_UniqueKeysExpected = 1, vr_KeysByTenant = fmempty, vr_TailCountByTenant = fmempty\<rparr>"]
  obtain res p' where "verify_loop (mem_isle 1) [(''tenant-alpha'', [Event_Key sample_event])]
      \<lparr>vr_PutCount = 1, vr_UniqueKeysExpected = 1, vr_KeysByTenant = fmempty, vr_TailCountByTenant = fmempty\<rparr> sample_pipeline =
      Some ((res, None), p')" "vr_PutCount res = 1" "vr_UniqueKeysExpected res = 1" by auto
  moreover have "length sample_emissions = 1" "length (ExpectedKeys sample_emissions) = 1" "\<not> list_ex em_Retry sample_emissions"
    by (simp_all add: sample_emissions_def ExpectedKeys_def)
  ultimately show ?thesis
    by (simp add: Verify_def Let_def sample_group put_count_error_def)
qed

theorem Verify_sound_witness:
  "\<exists>res p' got n. Verify (mem_isle 1) [''tenant-alpha''] sample_emissions sample_pipeline = Some ((res, None), p') \<and>
     fmlookup (vr_KeysByTenant res) ''tenant-alpha'' = Some got \<and> mset got = {#Event_Key sample_event#} \<and>
     fmlookup (vr_TailCountByTenant res) ''tenant-alpha'' = Some n \<and> 1 \<le> n"
proof -
  obtain res p' where v: "Verify (mem_isle 1) [''tenant-alpha''] sample_emissions sample_pipeline = Some ((res, None), p')"
    using sample_verified by blast
  have "range_order [''tenant-alpha''] (groupKeysByTenant (ExpectedKeys sample_emissions))"
    by (simp add: range_order_def sample_group)
  from Verify_sound [OF v this, of "Event_Key sample_event"] obtain got n where
    g: "fmlookup (vr_KeysByTenant res) ''tenant-alpha'' = Some got" "mset got = {#Event_Key sample_event#}"
      "fmlookup (vr_TailCountByTenant res) ''tenant-alpha'' = Some n" "length got \<le> n"
    by (auto simp: sample_emissions_def ExpectedKeys_def sample_key)
  then have "length got = 1" by (metis size_mset size_single)
  with v g show ?thesis by auto
qed

end
