(* ===== verification/Simulation.thy ===== *)
theory Simulation
  imports Tenant_Correct
begin

text \<open>
  \<open>internal/simulation/run.go\<close>: the whole simulation, from generating events to verifying what the
  store holds.

  \<open>sim_env\<close> collects what a run depends on: the generator's environment, the store's operations
  and how it opens, the process environment, the orders in which the tenants are ranged over (one
  per loop, in the order of the loops), and the clock at the start and at the end.
\<close>

record Options =
  op_Backend :: Backend
  op_Duration :: duration
  op_Events :: int
  op_PrefixSuffix :: string
  op_Fast :: bool
  op_CacheRoot :: string

definition DefaultOptions :: "Backend \<Rightarrow> Options" where
  "DefaultOptions backend = \<lparr>op_Backend = backend, op_Duration = 60 * second, op_Events = 1000,
     op_PrefixSuffix = [], op_Fast = False, op_CacheRoot = DefaultCacheRoot\<rparr>"

definition DevOptions :: "Backend \<Rightarrow> Options" where
  "DevOptions backend = (DefaultOptions backend)\<lparr>op_Events := 100, op_Fast := True\<rparr>"

record SimResult =
  sr_Backend :: Backend
  sr_StartedAt :: time
  sr_FinishedAt :: time
  sr_OK :: bool
  sr_Error :: string
  sr_PutCount :: nat
  sr_UniqueExpected :: nat
  sr_PreCompactKeys :: nat
  sr_PostCompactKeys :: nat
  sr_TailByTenant :: "(string, nat) fmap"

record ('s, 'c, 'r) sim_env =
  se_Gen :: "'r gen_env"
  se_Isle :: "('s, 'c) isle"
  se_Open :: "'s open_env"
  se_Env :: osenv
  se_ParseDuration :: "string \<Rightarrow> duration result"
  se_Order :: "nat \<Rightarrow> string list"
  se_Start :: time
  se_Finish :: time

definition sim_config :: "('s, 'c, 'r) sim_env \<Rightarrow> Options \<Rightarrow> StoreConfig" where
  "sim_config se opts =
     (let cfg = StoreConfigFromEnv (se_ParseDuration se) (se_Env se) (op_Backend opts) (op_PrefixSuffix opts)
      in if op_CacheRoot opts \<noteq> [] then cfg\<lparr>sc_CacheRoot := op_CacheRoot opts\<rparr> else cfg)"

definition sim_emissions :: "('s, 'c, 'r) sim_env \<Rightarrow> Options \<Rightarrow> Emission list \<times> goerror option" where
  "sim_emissions se opts =
     (let genCfg = (DefaultConfig (se_Gen se))\<lparr>cg_TotalUnique := op_Events opts, cg_Duration := op_Duration opts,
                     cg_NoDelay := op_Fast opts\<rparr>
      in if op_Fast opts then FastRun (se_Gen se) genCfg else eventgen_Run (se_Gen se) genCfg)"

definition sim_fail :: "('s, 'c, 'r) sim_env \<Rightarrow> SimResult \<Rightarrow> string \<Rightarrow> SimResult" where
  "sim_fail se res msg = res\<lparr>sr_FinishedAt := se_Finish se, sr_OK := False, sr_Error := msg\<rparr>"

text \<open>The part of the run after the pipeline is open; \<open>Close\<close> is deferred.\<close>

definition sim_pipeline ::
  "('s, 'c, 'r) sim_env \<Rightarrow> Emission list \<Rightarrow> SimResult \<Rightarrow> 's Pipeline \<Rightarrow> (SimResult \<times> 's Pipeline) option" where
  "sim_pipeline se emissions res p0 =
     (let ops = se_Isle se in
      case WriteEmissions ops emissions p0 of
        ((puts, Some e), p1) \<Rightarrow> Some (sim_fail se res (''write: '' @ error_text e), p1)
      | ((puts, None), p1) \<Rightarrow>
     (let res1 = res\<lparr>sr_PutCount := puts\<rparr> in
      case FlushAll ops (se_Order se 0) p1 of
        (Some e, p2) \<Rightarrow> Some (sim_fail se res1 (''flush: '' @ error_text e), p2)
      | (None, p2) \<Rightarrow>
     (case CountKeys ops (se_Order se 1) p2 of
        ((_, Some e), p3) \<Rightarrow> Some (sim_fail se res1 (''pre-compact scan: '' @ error_text e), p3)
      | ((pre, None), p3) \<Rightarrow>
     (let res2 = res1\<lparr>sr_PreCompactKeys := pre\<rparr> in
      case CompactAll ops (se_Order se 2) p3 of
        (Some e, p4) \<Rightarrow> Some (sim_fail se res2 (''compact: '' @ error_text e), p4)
      | (None, p4) \<Rightarrow>
     (case CountKeys ops (se_Order se 3) p4 of
        ((_, Some e), p5) \<Rightarrow> Some (sim_fail se res2 (''post-compact scan: '' @ error_text e), p5)
      | ((post, None), p5) \<Rightarrow>
     (let res3 = res2\<lparr>sr_PostCompactKeys := post\<rparr> in
      case Verify ops (se_Order se 4) emissions p5 of
        None \<Rightarrow> None
      | Some ((v, Some e), p6) \<Rightarrow>
          Some ((sim_fail se res3 (error_text e))\<lparr>sr_UniqueExpected := vr_UniqueKeysExpected v\<rparr>, p6)
      | Some ((v, None), p6) \<Rightarrow>
          Some (res3\<lparr>sr_UniqueExpected := vr_UniqueKeysExpected v, sr_TailByTenant := vr_TailCountByTenant v,
                     sr_FinishedAt := se_Finish se, sr_OK := True\<rparr>, p6)))))))"

definition simulation_Run :: "('s, 'c, 'r) sim_env \<Rightarrow> Options \<Rightarrow> (SimResult \<times> 's Pipeline option) option" where
  "simulation_Run se opts =
     (let res = \<lparr>sr_Backend = op_Backend opts, sr_StartedAt = se_Start se, sr_FinishedAt = time_zero, sr_OK = False,
                 sr_Error = [], sr_PutCount = 0, sr_UniqueExpected = 0, sr_PreCompactKeys = 0, sr_PostCompactKeys = 0,
                 sr_TailByTenant = fmempty\<rparr>
      in case sim_emissions se opts of
           (emissions, Some e) \<Rightarrow> Some (sim_fail se res (error_text e), None)
         | (emissions, None) \<Rightarrow>
             (case Pipeline_New (se_Isle se) (se_Open se) (sim_config se opts) (se_Order se 5) AllTenantIDs (se_Env se) of
                (Some e, _, _) \<Rightarrow> Some (sim_fail se res (''pipeline init: '' @ error_text e), None)
              | (None, p, _) \<Rightarrow>
                  (case sim_pipeline se emissions res p of
                     None \<Rightarrow> None
                   | Some (res', p') \<Rightarrow> Some (res', Some (snd (Pipeline_Close (se_Isle se) (se_Order se 6) p'))))))"

section \<open>Opening the tenants\<close>

lemma openTenant_fields:
  "openTenant oe cfg t env = (Inr d, tr, env') \<Longrightarrow> pd_ID d = t \<and> pd_Reader d"
  by (auto simp: openTenant_def OpenPrefixDB_def Let_def split: prod.splits sum.splits option.splits)

lemma open_tenants_ok:
  assumes "\<And>t env. \<exists>d tr env'. openTenant oe cfg t env = (Inr d, tr, env') \<and> live (pd_State d) \<and> current (pd_State d) = m0"
  shows "pipeline_ok live p \<Longrightarrow>
    \<exists>p' env'. open_tenants oe cfg ids p env = (None, p', env') \<and> pipeline_ok live p' \<and>
      (\<forall>t. contents current p' t = (if t \<in> set ids then Some m0 else contents current p t))"
proof (induction ids arbitrary: p env)
  case (Cons t ids)
  obtain d tr env1 where d: "openTenant oe cfg t env = (Inr d, tr, env1)" "live (pd_State d)" "current (pd_State d) = m0"
    using assms by blast
  have "tenant_ok live t d" using d openTenant_fields [OF d(1)] by (simp add: tenant_ok_def)
  then have "pipeline_ok live (set_tenant t d p)" by (rule pipeline_ok_set [OF Cons.prems])
  from Cons.IH [OF this, of env1] obtain p' env' where p': "open_tenants oe cfg ids (set_tenant t d p) env1 = (None, p', env')"
      "pipeline_ok live p'" "\<forall>t'. contents current p' t' = (if t' \<in> set ids then Some m0 else contents current (set_tenant t d p) t')"
    by blast
  moreover have "contents current (set_tenant t d p) t' = (if t' = t then Some m0 else contents current p t')" for t'
    using d(3) by (simp add: contents_def)
  ultimately show ?case using d(1) by auto
qed simp

lemma AllTenantIDs_tenants: "set AllTenantIDs = fst ` set tenants"
  by (auto simp: AllTenantIDs_def tenants_def)

lemma contents_dom: "contents f p t \<noteq> None \<longleftrightarrow> t \<in> fmdom' (pp_tenants p)"
  by (auto simp: contents_def fmlookup_dom'_iff)

section \<open>The run end to end\<close>

text \<open>What the emissions of a run leave in the tenants.\<close>

definition run_contents :: "Emission list \<Rightarrow> string \<Rightarrow> kv option" where
  "run_contents ems t = (if t \<in> set AllTenantIDs then Some (fold (put_event t) ems fmempty) else None)"

definition tenant_order :: "string list \<Rightarrow> bool" where
  "tenant_order ids \<longleftrightarrow> distinct ids \<and> set ids = set AllTenantIDs"

lemma traffic_tenant:
  "traffic ge i n ems \<Longrightarrow> em \<in> set ems \<Longrightarrow>
   ev_TenantID (em_Event em) \<in> set AllTenantIDs \<and> TenantFromKey (Event_Key (em_Event em)) = ev_TenantID (em_Event em)"
  using traffic_finite [of ge i n ems em] by (simp add: AllTenantIDs_tenants Event_Key_TenantFromKey)

lemma traffic_expected_tenant: "traffic ge i n ems \<Longrightarrow> k \<in> set (ExpectedKeys ems) \<Longrightarrow> TenantFromKey k \<in> set AllTenantIDs"
  using traffic_tenant [of ge i n ems] by (auto simp: ExpectedKeys_def)

lemma tenant_order_range:
  "tenant_order ids \<Longrightarrow> contents f q = run_contents ems \<Longrightarrow> range_order ids (pp_tenants q)"
proof -
  assume "tenant_order ids" "contents f q = run_contents ems"
  moreover from this(2) have "t \<in> fmdom' (pp_tenants q) \<longleftrightarrow> t \<in> set AllTenantIDs" for t
    using contents_dom [of f q t] by (simp add: run_contents_def split: if_splits)
  ultimately show ?thesis by (auto simp: tenant_order_def range_order_def)
qed

lemma traffic_put_count:
  assumes "traffic ge 0 n ems" "vr_PutCount v = length ems" "vr_UniqueKeysExpected v = n"
  shows "put_count_error ems v = None"
proof -
  have n: "length (filter em_Unique ems) = n" "n \<le> length ems"
    using traffic_uniques [OF assms(1)] by auto
  have "n < length ems" if retry: "list_ex em_Retry ems"
  proof -
    obtain em where em: "em \<in> set ems" "\<not> em_Unique em"
      using retry traffic_retry_unique [OF assms(1)] unfolding list_ex_iff by blast
    then show ?thesis using length_filter_less [of em ems em_Unique] n by simp
  qed
  then show ?thesis using n assms by (auto simp: put_count_error_def)
qed

context live_store
begin

lemma Write_traffic:
  assumes "pipeline_ok live p" "contents current p = run_contents []" "traffic ge 0 n ems"
    and "\<And>em. em \<in> set ems \<Longrightarrow> \<exists>v. Event_ValueBytes (em_Event em) = Inr v"
  shows "\<exists>p'. WriteEmissions ops ems p = ((length ems, None), p') \<and> pipeline_ok live p' \<and> contents current p' = run_contents ems"
proof -
  have "fmlookup (pp_tenants p) (ev_TenantID (em_Event em)) \<noteq> None" if "em \<in> set ems" for em
    using traffic_tenant [OF assms(3) that] contents_dom [of current p "ev_TenantID (em_Event em)"] assms(2)
    by (auto simp: run_contents_def fmlookup_dom'_iff)
  then obtain p' where p': "WriteEmissions ops ems p = ((length ems, None), p')" "pipeline_ok live p'"
      "\<forall>t. contents current p' t = map_option (fold (put_event t) ems) (contents current p t)"
    using WriteEmissions_ok [OF assms(1), of ems] assms(4) by blast
  then have "contents current p' = run_contents ems"
    by (intro ext) (simp add: assms(2) run_contents_def)
  with p' show ?thesis by blast
qed

lemma CountKeys_traffic:
  assumes "pipeline_ok live q" "contents committed q = run_contents ems" "tenant_order ids"
    and "traffic ge 0 n ems" "inj_on (ge_UUID ge) {..<n}"
  shows "\<exists>q'. CountKeys ops ids q = ((n, None), q') \<and> pipeline_ok live q' \<and>
    contents current q' = contents current q \<and> contents committed q' = contents committed q"
proof -
  have "(\<Sum>t\<leftarrow>ids. length (tenant_keys (fold (put_event t) ems fmempty) t)) = n"
    using sum_filter_length [of ids "ExpectedKeys ems" TenantFromKey] traffic_uniques [OF assms(4)]
      assms(3) traffic_expected_tenant [OF assms(4)]
    by (simp add: traffic_tenant_keys [OF assms(4,5)] tenant_order_def) (simp add: ExpectedKeys_def)
  then show ?thesis
    using count_keys_ok [OF assms(1), of ids "\<lambda>t. fold (put_event t) ems fmempty" 0] assms(2,3)
    by (auto simp: CountKeys_def run_contents_def tenant_order_def)
qed

lemma Verify_traffic:
  assumes "pipeline_ok live q" "contents committed q = run_contents ems"
    and "range_order ids (groupKeysByTenant (ExpectedKeys ems))"
    and "traffic ge 0 n ems" "inj_on (ge_UUID ge) {..<n}"
  shows "\<exists>v q'. Verify ops ids ems q = Some ((v, None), q') \<and> vr_UniqueKeysExpected v = n"
proof -
  have n: "length (ExpectedKeys ems) = n"
    using traffic_uniques [OF assms(4)] by (simp add: ExpectedKeys_def)
  have "\<exists>m. contents committed q t = Some m \<and> want = tenant_keys m t"
    if "(t, want) \<in> set (range_entries ids (groupKeysByTenant (ExpectedKeys ems)))" for t want
  proof -
    have w: "want = sort (filter (\<lambda>k. TenantFromKey k = t) (ExpectedKeys ems))"
        "filter (\<lambda>k. TenantFromKey k = t) (ExpectedKeys ems) \<noteq> []"
      using that by (auto simp: range_order_entries [OF assms(3)] groupKeysByTenant_lookup Let_def split: if_splits)
    then have "t \<in> set AllTenantIDs"
      using traffic_expected_tenant [OF assms(4)] by (auto simp: filter_empty_conv)
    then show ?thesis using w(1) by (simp add: assms(2) run_contents_def traffic_tenant_keys [OF assms(4,5)])
  qed
  from verify_loop_ok [OF assms(1) this, of "range_entries ids (groupKeysByTenant (ExpectedKeys ems))" "\<lparr>vr_PutCount = length ems, vr_UniqueKeysExpected = length (ExpectedKeys ems),
      vr_KeysByTenant = fmempty, vr_TailCountByTenant = fmempty\<rparr>"]
  show ?thesis using traffic_put_count [OF assms(4)] by (auto simp: Verify_def Let_def n)
qed

lemma sim_pipeline_ok:
  assumes ops: "ops = se_Isle se"
    and p0: "pipeline_ok live p0" "contents current p0 = run_contents []"
    and tr: "traffic ge 0 n ems" "inj_on (ge_UUID ge) {..<n}"
    and val: "\<And>em. em \<in> set ems \<Longrightarrow> \<exists>v. Event_ValueBytes (em_Event em) = Inr v"
    and ord: "\<And>i. i < 4 \<Longrightarrow> tenant_order (se_Order se i)"
    and ord4: "range_order (se_Order se 4) (groupKeysByTenant (ExpectedKeys ems))"
  shows "\<exists>res' p'. sim_pipeline se ems res p0 = Some (res', p') \<and> sr_OK res' \<and> sr_Error res' = sr_Error res \<and>
    sr_PutCount res' = length ems \<and> sr_UniqueExpected res' = n \<and> sr_PreCompactKeys res' = n \<and> sr_PostCompactKeys res' = n"
proof -
  obtain p1 where p1: "WriteEmissions ops ems p0 = ((length ems, None), p1)" "pipeline_ok live p1" "contents current p1 = run_contents ems"
    using Write_traffic [OF p0 tr(1) val] by blast
  obtain p2 where p2: "FlushAll ops (se_Order se 0) p1 = (None, p2)" "pipeline_ok live p2" "contents committed p2 = run_contents ems"
      "contents current p2 = run_contents ems"
    using FlushAll_ok [OF tenant_order_range [OF ord [of 0] p1(3)] p1(2)] p1(3) by auto
  obtain p3 where p3: "CountKeys ops (se_Order se 1) p2 = ((n, None), p3)" "pipeline_ok live p3" "contents committed p3 = run_contents ems"
    using CountKeys_traffic [OF p2(2,3) ord [of 1] tr] p2 by auto
  obtain p4 where p4: "CompactAll ops (se_Order se 2) p3 = (None, p4)" "pipeline_ok live p4" "contents committed p4 = run_contents ems"
    using CompactAll_ok [OF tenant_order_range [OF ord [of 2] p3(3)] p3(2)] p3 by auto
  obtain p5 where p5: "CountKeys ops (se_Order se 3) p4 = ((n, None), p5)" "pipeline_ok live p5" "contents committed p5 = run_contents ems"
    using CountKeys_traffic [OF p4(2,3) ord [of 3] tr] p4 by auto
  obtain v p6 where "Verify ops (se_Order se 4) ems p5 = Some ((v, None), p6)" "vr_UniqueKeysExpected v = n"
    using Verify_traffic [OF p5(2,3) ord4 tr] by blast
  with p1(1) p2(1) p3(1) p4(1) p5(1) show ?thesis
    by (simp add: sim_pipeline_def Let_def ops [symmetric])
qed

end

lemma Pipeline_New_ok:
  assumes "\<And>t env. \<exists>d tr env'. openTenant oe cfg t env = (Inr d, tr, env') \<and> live (pd_State d) \<and> current (pd_State d) = fmempty"
  shows "\<exists>p env'. Pipeline_New ops oe cfg closing AllTenantIDs env = (None, p, env') \<and> pipeline_ok live p \<and>
    contents current p = run_contents []"
proof -
  have "pipeline_ok live \<lparr>pp_tenants = fmempty, pp_cfg = cfg\<rparr>" by (simp add: pipeline_ok_def)
  from open_tenants_ok [OF assms this] obtain p env' where
    p: "open_tenants oe cfg AllTenantIDs \<lparr>pp_tenants = fmempty, pp_cfg = cfg\<rparr> env = (None, p, env')" "pipeline_ok live p"
      "\<forall>t. contents current p t = (if t \<in> set AllTenantIDs then Some fmempty else contents current \<lparr>pp_tenants = fmempty, pp_cfg = cfg\<rparr> t)"
    by blast
  then have "contents current p = run_contents []"
    by (intro ext) (simp add: run_contents_def contents_def)
  with p show ?thesis by (simp add: Pipeline_New_def)
qed

lemma FastRun_values:
  assumes "3 * cg_TotalUnique cfg * millisecond \<le> cg_Duration cfg" "cg_TotalUnique cfg \<le> 1000000000"
    and "em \<in> set (fst (FastRun ge cfg))"
  shows "\<exists>v. Event_ValueBytes (em_Event em) = Inr v"
proof -
  define cfg' where "cfg' = cfg\<lparr>cg_NoDelay := True, cg_Now := Some (\<lambda>n. time_Unix 0 (int n * millisecond))\<rparr>"
  obtain m where "traffic ge 0 m (fst (FastRun ge cfg))"
    using eventgen_Run_traffic [of ge cfg'] by (auto simp: FastRun_def cfg'_def)
  then have fin: "float_finite (pl_Amount (ev_Payload (em_Event em)))"
    using traffic_finite assms(3) by blast
  have "0 < cg_TotalUnique cfg" using assms(3) by (auto simp: FastRun_def eventgen_Run_def split: if_splits)
  then have "\<exists>interval r. FastRun ge cfg = gen_loop ge cfg' (\<lambda>n. time_Unix 0 (int n * millisecond))
      (time_Unix 0 (int 0 * millisecond)) interval (nat (cg_TotalUnique cfg)) 0 1 r"
    unfolding FastRun_def cfg'_def [symmetric] eventgen_Run_def Let_def by (simp add: cfg'_def) blast
  then obtain j where "j < 1 + 3 * nat (cg_TotalUnique cfg)" "ev_Timestamp (em_Event em) = time_Unix 0 (int j * millisecond)"
    using assms(3) gen_loop_clock by metis
  then have "time_json_ok (ev_Timestamp (em_Event em))"
    using assms(2) by (simp add: time_json_ok_def time_Unix_def go_consts)
  with fin show ?thesis by (rule Event_ValueBytes_ok)
qed

definition sim_gen_config :: "('s, 'c, 'r) sim_env \<Rightarrow> Options \<Rightarrow> 'r Config" where
  "sim_gen_config se opts = (DefaultConfig (se_Gen se))\<lparr>cg_TotalUnique := op_Events opts, cg_Duration := op_Duration opts,
     cg_NoDelay := op_Fast opts\<rparr>"

text \<open>C1: over a store that keeps its contract and serves every call, starting from empty prefixes,
  a fast simulation of up to a billion events, at least three milliseconds long per event,
  succeeds: its verification passes, and the keys counted before and after compaction are the
  requested number of events.\<close>

theorem simulation_succeeds:
  fixes se :: "('s, 'c, 'r) sim_env"
  assumes store: "live_store (se_Isle se) feed rest lag current committed view live"
    and gen: "\<And>j. ge_CtxErr (se_Gen se) j = None" "\<And>j. \<exists>x. ge_UUID (se_Gen se) j = Inr x" "inj (ge_UUID (se_Gen se))"
    and opts: "op_Fast opts" "0 \<le> op_Events opts" "op_Events opts \<le> 1000000000" "3 * op_Events opts * millisecond \<le> op_Duration opts"
    and opens: "\<And>t env. \<exists>d tr env'. openTenant (se_Open se) (sim_config se opts) t env = (Inr d, tr, env') \<and>
      live (pd_State d) \<and> current (pd_State d) = fmempty"
    and ord: "\<And>i. i < 4 \<Longrightarrow> tenant_order (se_Order se i)"
    and ord4: "range_order (se_Order se 4) (groupKeysByTenant (ExpectedKeys (fst (sim_emissions se opts))))"
  shows "\<exists>res p'. simulation_Run se opts = Some (res, p') \<and> sr_OK res \<and> sr_Error res = [] \<and>
    int (sr_UniqueExpected res) = op_Events opts \<and> sr_PreCompactKeys res = sr_UniqueExpected res \<and>
    sr_PostCompactKeys res = sr_UniqueExpected res \<and> sr_UniqueExpected res \<le> sr_PutCount res"
proof -
  have sim: "sim_emissions se opts = FastRun (se_Gen se) (sim_gen_config se opts)"
    using opts(1) by (simp add: sim_emissions_def sim_gen_config_def)
  obtain es where es: "FastRun (se_Gen se) (sim_gen_config se opts) = (es, None)" "traffic (se_Gen se) 0 (nat (op_Events opts)) es"
    using FastRun_traffic [OF gen(1,2), of "sim_gen_config se opts"] opts(4) by (auto simp: sim_gen_config_def)
  have val: "\<exists>v. Event_ValueBytes (em_Event em) = Inr v" if "em \<in> set es" for em
    using FastRun_values [of "sim_gen_config se opts" em "se_Gen se"] that opts es(1) by (simp add: sim_gen_config_def)
  obtain p env' where p: "Pipeline_New (se_Isle se) (se_Open se) (sim_config se opts) (se_Order se 5) AllTenantIDs (se_Env se) = (None, p, env')"
      "pipeline_ok live p" "contents current p = run_contents []"
    using Pipeline_New_ok [where live = live and current = current, OF opens] by blast
  have inj: "inj_on (ge_UUID (se_Gen se)) {..<nat (op_Events opts)}" using gen(3) by (rule inj_on_subset) simp
  have ord4': "range_order (se_Order se 4) (groupKeysByTenant (ExpectedKeys es))" using ord4 by (simp add: sim es(1))
  have "nat (op_Events opts) \<le> length es" using traffic_uniques [OF es(2)] by simp
  moreover define res0 where "res0 = \<lparr>sr_Backend = op_Backend opts, sr_StartedAt = se_Start se, sr_FinishedAt = time_zero,
    sr_OK = False, sr_Error = [], sr_PutCount = 0, sr_UniqueExpected = 0, sr_PreCompactKeys = 0, sr_PostCompactKeys = 0,
    sr_TailByTenant = fmempty\<rparr>"
  moreover obtain res p' where "sim_pipeline se es res0 p = Some (res, p')" "sr_OK res" "sr_Error res = sr_Error res0"
      "sr_PutCount res = length es" "sr_UniqueExpected res = nat (op_Events opts)"
      "sr_PreCompactKeys res = nat (op_Events opts)" "sr_PostCompactKeys res = nat (op_Events opts)"
    using live_store.sim_pipeline_ok [where res = res0, OF store refl p(2,3) es(2) inj val ord ord4'] by blast
  ultimately show ?thesis
    using opts(2) p(1) by (simp add: simulation_Run_def Let_def sim es(1))
qed

definition sample_sim :: "(mem, nat, int) sim_env" where
  "sample_sim = \<lparr>se_Gen = counter_env, se_Isle = mem_isle 1, se_Open = mem_open, se_Env = (\<lambda>k. []),
     se_ParseDuration = (\<lambda>v. Inl (Errorf v)),
     se_Order = (\<lambda>i. if i = 4 then sorted_list_of_fset (fmdom (groupKeysByTenant (ExpectedKeys
        (fst (FastRun counter_env ((DefaultConfig counter_env)\<lparr>cg_TotalUnique := 100, cg_NoDelay := True\<rparr>))))))
       else AllTenantIDs),
     se_Start = 0, se_Finish = 1\<rparr>"

theorem simulation_succeeds_witness:
  "\<exists>res p'. simulation_Run sample_sim (DevOptions BackendMemory) = Some (res, p') \<and> sr_OK res \<and> sr_UniqueExpected res = 100 \<and>
     sr_PreCompactKeys res = 100 \<and> sr_PostCompactKeys res = 100"
proof -
  have "live_store (se_Isle sample_sim) mm_Log mem_rest mem_lag mem_current mem_committed mm_View mem_live"
    using mem_live_store.live_store_axioms [of 1] by (simp add: sample_sim_def)
  moreover have "\<exists>d tr env'. openTenant (se_Open sample_sim) (sim_config sample_sim (DevOptions BackendMemory)) t env = (Inr d, tr, env') \<and>
      mem_live (pd_State d) \<and> mem_current (pd_State d) = fmempty" for t env
    by (simp add: sample_sim_def openTenant_def OpenPrefixDB_def openIsleDB_def mem_open_def sim_config_def DevOptions_def
        DefaultOptions_def StoreConfigFromEnv_def Let_def mem_live_def mem_current_def feed_map_def mem_empty_def)
  moreover have "tenant_order (se_Order sample_sim i)" if "i < 4" for i
    using that by (simp add: sample_sim_def tenant_order_def AllTenantIDs_def)
  moreover have "range_order (se_Order sample_sim 4) (groupKeysByTenant (ExpectedKeys (fst (sim_emissions sample_sim (DevOptions BackendMemory)))))"
    by (simp add: sample_sim_def sim_emissions_def DevOptions_def DefaultOptions_def DefaultConfig_def range_order_def
        sorted_list_of_fset.rep_eq fmdom'_alt_def)
  ultimately show ?thesis
    using simulation_succeeds [of sample_sim mm_Log mem_rest mem_lag mem_current mem_committed mm_View mem_live "DevOptions BackendMemory"] inj_fmt_nat
    by (fastforce simp: sample_sim_def counter_env_def DevOptions_def DefaultOptions_def go_consts inj_def)
qed

end
