(* ===== verification/Go_Http.thy ===== *)
theory Go_Http
  imports Go_Json
begin

text \<open>
  What the servers use of \<open>net/http\<close>: requests, response writers, errors and redirects. A response
  writer answers each write; its type parameter is the type of the pages a server renders.
\<close>

section \<open>Requests and responses\<close>

record request =
  rq_Method :: string
  rq_Path :: string
  rq_Query :: "(string \<times> string) list"
  rq_Cookies :: "(string \<times> string) list"
  rq_Header :: "(string \<times> string) list"
  rq_Body :: "json result"              \<comment> \<open>what the JSON decoder reads from the body\<close>

record http_cookie =
  ck_Name :: string
  ck_Value :: string
  ck_Path :: string
  ck_HttpOnly :: bool
  ck_SameSiteLax :: bool

text \<open>What is sent: a text, a JSON document, a server-sent event, or a page with the data given to its template.\<close>

datatype 'p chunk = CText string | CJson json | CEvent string json | CPage 'p

text \<open>A response writer: whether it can flush, what its writes answer, and what was sent.\<close>

record 'p writer =
  wr_Flusher :: bool
  wr_Answer :: "nat \<Rightarrow> goerror option"
  wr_Code :: nat
  wr_Header :: "(string, string) fmap"
  wr_Cookies :: "http_cookie list"
  wr_Chunks :: "'p chunk list"

definition new_writer :: "bool \<Rightarrow> (nat \<Rightarrow> goerror option) \<Rightarrow> 'p writer" where
  "new_writer flusher answer = \<lparr>wr_Flusher = flusher, wr_Answer = answer, wr_Code = 200, wr_Header = fmempty, wr_Cookies = [], wr_Chunks = []\<rparr>"

definition set_header :: "string \<Rightarrow> string \<Rightarrow> 'p writer \<Rightarrow> 'p writer" where
  "set_header k v w = w\<lparr>wr_Header := fmupd k v (wr_Header w)\<rparr>"

text \<open>One write: the chunk is sent unless the connection refuses it.\<close>

definition write_chunk :: "'p chunk \<Rightarrow> 'p writer \<Rightarrow> goerror option \<times> 'p writer" where
  "write_chunk c w =
     (case wr_Answer w (length (wr_Chunks w)) of
        Some e \<Rightarrow> (Some e, w)
      | None \<Rightarrow> (None, w\<lparr>wr_Chunks := wr_Chunks w @ [c]\<rparr>))"

definition http_Error :: "string \<Rightarrow> nat \<Rightarrow> 'p writer \<Rightarrow> 'p writer" where
  "http_Error msg code w =
     snd (write_chunk (CText (msg @ [CHR 0x0A]))
       ((set_header ''X-Content-Type-Options'' ''nosniff'' (set_header ''Content-Type'' ''text/plain; charset=utf-8'' w))\<lparr>wr_Code := code\<rparr>))"

definition http_NotFound :: "'p writer \<Rightarrow> 'p writer" where
  "http_NotFound w = http_Error ''404 page not found'' 404 w"

definition method_not_allowed :: "'p writer \<Rightarrow> 'p writer" where
  "method_not_allowed w = http_Error ''method not allowed'' 405 w"

text \<open>A redirect of a request that is neither \<open>GET\<close> nor \<open>HEAD\<close> has no body.\<close>

definition http_Redirect :: "string \<Rightarrow> nat \<Rightarrow> 'p writer \<Rightarrow> 'p writer" where
  "http_Redirect url code w = (set_header ''Location'' url w)\<lparr>wr_Code := code\<rparr>"

definition query_get :: "request \<Rightarrow> string \<Rightarrow> string" where
  "query_get r k = (case map_of (rq_Query r) k of None \<Rightarrow> [] | Some v \<Rightarrow> v)"

end
