(* ===== verification/Dev_Server.thy ===== *)
theory Dev_Server
  imports Simulation Go_Http
begin

text \<open>
  \<open>internal/web/server.go\<close>, the developer's control plane that starts simulations in the background,
  and \<open>cmd/simulate/main.go\<close>, which runs one in the foreground. The dashboard's template, the
  listener, flags and logs are not modelled.

  Handlers and the goroutine of a simulation share the server's state under its lock. What is done
  under the lock is one step; the goroutine of a simulation has two, the store of its result and the
  deferred reset of \<open>running\<close>. Which goroutine moves next is not determined, so the server is a step
  relation. The goroutines that were started and have not returned are part of the state.
\<close>

section \<open>State and views\<close>

record sim_job =
  jb_Backend :: Backend
  jb_Stored :: bool          \<comment> \<open>its result is stored\<close>

record dev_server =
  dv_running :: bool
  dv_lastMinIO :: "SimResult option"
  dv_lastTigris :: "SimResult option"
  dv_Jobs :: "(nat, sim_job) fmap"

definition dev_NewServer :: dev_server where
  "dev_NewServer = \<lparr>dv_running = False, dv_lastMinIO = None, dv_lastTigris = None, dv_Jobs = fmempty\<rparr>"

record backendView =
  bv_Status :: BackendStatus
  bv_LastRun :: "SimResult option"

record dashboardView =
  dbv_Running :: bool
  dbv_MinIO :: backendView
  dbv_Tigris :: backendView
  dbv_UpdatedAt :: time

text \<open>What a view depends on: the environment, how the stores of the two backends open and answer.\<close>

record ('s, 'c) view_env =
  ve_Isle :: "('s, 'c) isle"
  ve_Open :: "'s open_env"
  ve_ParseDuration :: "string \<Rightarrow> duration result"
  ve_Env :: osenv
  ve_TigrisEnv :: osenv      \<comment> \<open>the environment after the first probe\<close>
  ve_Now :: time

definition buildView :: "('s, 'c) view_env \<Rightarrow> dev_server \<Rightarrow> dashboardView" where
  "buildView ve s =
     (let minCfg = StoreConfigFromEnv (ve_ParseDuration ve) (ve_Env ve) BackendMinIO [];
          tigCfg = StoreConfigFromEnv (ve_ParseDuration ve) (ve_Env ve) BackendTigris []
      in \<lparr>dbv_Running = dv_running s,
          dbv_MinIO = \<lparr>bv_Status = Probe (ve_Isle ve) (ve_Open ve) minCfg (ve_Env ve), bv_LastRun = dv_lastMinIO s\<rparr>,
          dbv_Tigris = \<lparr>bv_Status = Probe (ve_Isle ve) (ve_Open ve) tigCfg (ve_TigrisEnv ve), bv_LastRun = dv_lastTigris s\<rparr>,
          dbv_UpdatedAt = ve_Now ve\<rparr>)"

section \<open>Handlers\<close>

text \<open>A view is sent as a page or as JSON.\<close>

datatype dev_page = Dashboard dashboardView | StatusJSON dashboardView

definition handleDashboard :: "('s, 'c) view_env \<Rightarrow> request \<Rightarrow> dev_server \<Rightarrow> dev_page writer \<Rightarrow> dev_page writer" where
  "handleDashboard ve r s w =
     (if rq_Path r \<noteq> ''/'' then http_NotFound w
      else snd (write_chunk (CPage (Dashboard (buildView ve s))) (set_header ''Content-Type'' ''text/html; charset=utf-8'' w)))"

definition handleStatus :: "('s, 'c) view_env \<Rightarrow> dev_server \<Rightarrow> dev_page writer \<Rightarrow> dev_page writer" where
  "handleStatus ve s w =
     snd (write_chunk (CPage (StatusJSON (buildView ve s))) (set_header ''Content-Type'' ''application/json'' w))"

text \<open>\<open>i\<close> names the goroutine, if one is started.\<close>

definition runSimulation :: "nat \<Rightarrow> request \<Rightarrow> Backend \<Rightarrow> dev_server \<Rightarrow> dev_page writer \<Rightarrow> dev_server \<times> dev_page writer" where
  "runSimulation i r backend s w =
     (if rq_Method r \<noteq> ''POST'' then (s, method_not_allowed w)
      else if dv_running s then (s, http_Error ''simulation already running'' 409 w)
      else
        (s\<lparr>dv_running := True, dv_Jobs := fmupd i \<lparr>jb_Backend = backend, jb_Stored = False\<rparr> (dv_Jobs s)\<rparr>,
         if map_of (rq_Header r) ''Accept'' = Some ''application/json''
         then snd (write_chunk (CJson (JObject [(''status'', JString ''started'')])) (set_header ''Content-Type'' ''application/json'' w))
         else http_Redirect ''/'' 303 w))"

definition handleSimulateMinIO :: "nat \<Rightarrow> request \<Rightarrow> dev_server \<Rightarrow> dev_page writer \<Rightarrow> dev_server \<times> dev_page writer" where
  "handleSimulateMinIO i r s w = runSimulation i r BackendMinIO s w"

definition handleSimulateTigris :: "nat \<Rightarrow> request \<Rightarrow> dev_server \<Rightarrow> dev_page writer \<Rightarrow> dev_server \<times> dev_page writer" where
  "handleSimulateTigris i r s w = runSimulation i r BackendTigris s w"

text \<open>The routes of \<open>ListenAndServe\<close>.\<close>

definition dev_route ::
  "('s, 'c) view_env \<Rightarrow> nat \<Rightarrow> request \<Rightarrow> dev_server \<Rightarrow> dev_page writer \<Rightarrow> dev_server \<times> dev_page writer" where
  "dev_route ve i r s w =
     (if rq_Path r = ''/api/status'' then (s, handleStatus ve s w)
      else if rq_Path r = ''/api/simulate/minio'' then handleSimulateMinIO i r s w
      else if rq_Path r = ''/api/simulate/tigris'' then handleSimulateTigris i r s w
      else (s, handleDashboard ve r s w))"

section \<open>The goroutine of a simulation\<close>

definition dev_run_options :: "Backend \<Rightarrow> time \<Rightarrow> Options" where
  "dev_run_options backend now = (DevOptions backend)\<lparr>op_PrefixSuffix := ''run-'' @ fmt_int (now div second)\<rparr>"

definition store_result :: "nat \<Rightarrow> Backend \<Rightarrow> SimResult \<Rightarrow> dev_server \<Rightarrow> dev_server" where
  "store_result i backend res s =
     (let s1 = (if backend = BackendMinIO then s\<lparr>dv_lastMinIO := Some res\<rparr> else s\<lparr>dv_lastTigris := Some res\<rparr>)
      in s1\<lparr>dv_Jobs := fmupd i \<lparr>jb_Backend = backend, jb_Stored = True\<rparr> (dv_Jobs s)\<rparr>)"

definition end_job :: "nat \<Rightarrow> dev_server \<Rightarrow> dev_server" where
  "end_job i s = s\<lparr>dv_running := False, dv_Jobs := fmdrop i (dv_Jobs s)\<rparr>"

text \<open>The environment of the run of goroutine \<open>i\<close>, with the clock read for its prefix.\<close>

type_synonym ('s, 'c, 'r) run_envs = "nat \<Rightarrow> time \<times> ('s, 'c, 'r) sim_env"

inductive dev_step :: "('s, 'c, 'r) run_envs \<Rightarrow> dev_server \<Rightarrow> dev_server \<Rightarrow> bool" for envs :: "('s, 'c, 'r) run_envs" where
  request: "fmlookup (dv_Jobs s) i = None \<Longrightarrow> dev_step envs s (fst (dev_route (ve :: ('s, 'c) view_env) i r s w))"
| store: "fmlookup (dv_Jobs s) i = Some \<lparr>jb_Backend = b, jb_Stored = False\<rparr> \<Longrightarrow>
    simulation_Run (snd (envs i)) (dev_run_options b (fst (envs i))) = Some (res, p) \<Longrightarrow> dev_step envs s (store_result i b res s)"
| finish: "fmlookup (dv_Jobs s) i = Some \<lparr>jb_Backend = b, jb_Stored = True\<rparr> \<Longrightarrow> dev_step envs s (end_job i s)"

inductive dev_reach :: "('s, 'c, 'r) run_envs \<Rightarrow> dev_server \<Rightarrow> bool" for envs where
  start: "dev_reach envs dev_NewServer"
| step: "dev_reach envs s \<Longrightarrow> dev_step envs s s' \<Longrightarrow> dev_reach envs s'"

inductive_cases dev_stepE: "dev_step envs s s'"

section \<open>One simulation at a time\<close>

lemma run_backend:
  assumes "simulation_Run se opts = Some (res, p)"
  shows "sr_Backend res = op_Backend opts"
proof -
  have "sr_Backend res' = sr_Backend res0" if "sim_pipeline se ems res0 p0 = Some (res', p')" for ems res0 p0 res' p'
    using that by (auto simp: sim_pipeline_def sim_fail_def Let_def split: prod.splits option.splits)
  then show ?thesis
    using assms by (auto simp: simulation_Run_def Let_def sim_fail_def split: prod.splits option.splits)
qed

definition one_job :: "(nat, sim_job) fmap \<Rightarrow> bool" where
  "one_job m \<longleftrightarrow> (\<exists>i j. m = fmupd i j fmempty \<and> jb_Backend j \<in> {BackendMinIO, BackendTigris})"

lemma one_jobI: "jb_Backend j \<in> {BackendMinIO, BackendTigris} \<Longrightarrow> one_job (fmupd i j fmempty)"
  unfolding one_job_def by blast

text \<open>The jobs are at most one and \<open>running\<close> tells whether there is one; the stored results are of
  their backends.\<close>

definition dev_inv :: "dev_server \<Rightarrow> bool" where
  "dev_inv s \<longleftrightarrow>
     (if dv_running s then one_job (dv_Jobs s) else dv_Jobs s = fmempty) \<and>
     (\<forall>res. dv_lastMinIO s = Some res \<longrightarrow> sr_Backend res = BackendMinIO) \<and>
     (\<forall>res. dv_lastTigris s = Some res \<longrightarrow> sr_Backend res = BackendTigris)"

lemma dev_inv_post: "dev_inv s \<Longrightarrow> b \<in> {BackendMinIO, BackendTigris} \<Longrightarrow> dev_inv (fst (runSimulation i r b s w))"
  by (simp add: runSimulation_def dev_inv_def one_jobI)

lemma dev_inv_job:
  assumes "dev_inv s" and "fmlookup (dv_Jobs s) i = Some j"
  shows "dv_running s" "dv_Jobs s = fmupd i j fmempty" "jb_Backend j \<in> {BackendMinIO, BackendTigris}"
  using assms by (auto simp: dev_inv_def one_job_def split: if_splits)

lemma dev_step_inv:
  assumes "dev_step envs s s'" and "dev_inv s"
  shows "dev_inv s'"
  using assms(1)
proof (cases rule: dev_step.cases)
  case (request i ve r w)
  then show ?thesis
    using assms(2) dev_inv_post [OF assms(2)]
    by (auto simp: dev_route_def handleSimulateMinIO_def handleSimulateTigris_def)
next
  case (store i b res p)
  note job = dev_inv_job [OF assms(2) store(2)]
  have "sr_Backend res = b" using run_backend [OF store(3)] by (simp add: dev_run_options_def DevOptions_def DefaultOptions_def)
  moreover have "one_job (fmupd i \<lparr>jb_Backend = b, jb_Stored = True\<rparr> fmempty)" using job(3) by (intro one_jobI) simp
  ultimately show ?thesis
    using job assms(2) store(1) by (auto simp: dev_inv_def store_result_def backend_defs)
next
  case (finish i b)
  have "fmdrop i (fmupd i j fmempty) = fmempty" for j :: sim_job by (rule fmap_ext) simp
  with finish dev_inv_job [OF assms(2) finish(2)] assms(2) show ?thesis by (auto simp: dev_inv_def end_job_def)
qed

lemma dev_reach_inv: "dev_reach envs s \<Longrightarrow> dev_inv s"
  by (induction rule: dev_reach.induct) (simp add: dev_inv_def dev_NewServer_def, erule (1) dev_step_inv)

text \<open>C30: however requests and simulations interleave, at most one simulation is in progress, the
  \<open>running\<close> flag tells whether one is, a \<open>POST\<close> starts one exactly when none is and is answered with
  409 otherwise, and each backend's card shows a result of a simulation on that backend only.\<close>

theorem dev_one_simulation:
  assumes "dev_reach envs s" and "b \<in> {BackendMinIO, BackendTigris}" and "rq_Method r = ''POST''" and "fmlookup (dv_Jobs s) i = None"
  shows "(\<forall>x \<in> fmdom' (dv_Jobs s). \<forall>y \<in> fmdom' (dv_Jobs s). x = y) \<and> (dv_running s \<longleftrightarrow> dv_Jobs s \<noteq> fmempty) \<and>
    (case runSimulation i r b s w of (s', w') \<Rightarrow>
       if dv_Jobs s = fmempty then dv_Jobs s' = fmupd i \<lparr>jb_Backend = b, jb_Stored = False\<rparr> fmempty
       else s' = s \<and> wr_Code w' = 409) \<and>
    (\<forall>res. bv_LastRun (dbv_MinIO (buildView ve s)) = Some res \<longrightarrow> sr_Backend res = BackendMinIO) \<and>
    (\<forall>res. bv_LastRun (dbv_Tigris (buildView ve s)) = Some res \<longrightarrow> sr_Backend res = BackendTigris)"
proof -
  have inv: "dev_inv s" by (rule dev_reach_inv [OF assms(1)])
  have run: "dv_running s \<longleftrightarrow> dv_Jobs s \<noteq> fmempty" "\<forall>x \<in> fmdom' (dv_Jobs s). \<forall>y \<in> fmdom' (dv_Jobs s). x = y"
    using inv by (auto simp: dev_inv_def one_job_def split: if_splits dest: arg_cong [of _ fmempty fmdom'])
  moreover have "wr_Code (http_Error msg code w) = code" for msg code
    by (simp add: http_Error_def write_chunk_def set_header_def split: option.splits)
  ultimately show ?thesis
    using inv assms(3) by (auto simp: dev_inv_def buildView_def Let_def runSimulation_def)
qed

section \<open>The command\<close>

text \<open>The exit code of \<open>cmd/simulate\<close> for given flags; \<open>None\<close> is a run that never returns.\<close>

definition simulate_run :: "('s, 'c, 'r) sim_env \<Rightarrow> Backend \<Rightarrow> duration \<Rightarrow> int \<Rightarrow> string \<Rightarrow> bool \<Rightarrow> nat option" where
  "simulate_run se backend dur events sfx fast =
     (case simulation_Run se \<lparr>op_Backend = backend, op_Duration = dur, op_Events = events, op_PrefixSuffix = sfx,
        op_Fast = fast, op_CacheRoot = []\<rparr> of
        None \<Rightarrow> None
      | Some (res, p) \<Rightarrow> Some (if \<not> sr_OK res then 1 else 0))"

section \<open>A sample run\<close>

definition start_request :: request where
  "start_request = \<lparr>rq_Method = ''POST'', rq_Path = ''/api/simulate/minio'', rq_Query = [], rq_Cookies = [], rq_Header = [],
     rq_Body = Inl (Errorf ''EOF'')\<rparr>"

definition sample_view :: "(mem, nat) view_env" where
  "sample_view = \<lparr>ve_Isle = mem_isle 1, ve_Open = mem_open, ve_ParseDuration = (\<lambda>s. Inl (Errorf s)), ve_Env = (\<lambda>k. []),
     ve_TigrisEnv = (\<lambda>k. []), ve_Now = 0\<rparr>"

definition started :: dev_server where
  "started = fst (dev_route sample_view 0 start_request dev_NewServer (new_writer False (\<lambda>n. None)))"

lemma started_reach: "dev_reach (\<lambda>i. (0, sample_sim)) started"
  unfolding started_def by (rule dev_reach.step [OF dev_reach.start dev_step.request]) (simp add: dev_NewServer_def)

lemma started_jobs: "dv_Jobs started = fmupd 0 \<lparr>jb_Backend = BackendMinIO, jb_Stored = False\<rparr> fmempty"
  by (simp add: started_def dev_route_def start_request_def handleSimulateMinIO_def runSimulation_def dev_NewServer_def)

theorem dev_one_simulation_witness:
  "wr_Code (snd (runSimulation 1 start_request BackendTigris started (new_writer False (\<lambda>n. None)))) = 409 \<and> dv_running started"
proof -
  have "rq_Method start_request = ''POST''" "fmlookup (dv_Jobs started) 1 = None" by (simp_all add: start_request_def started_jobs)
  from dev_one_simulation [OF started_reach _ this, of BackendTigris "new_writer False (\<lambda>n. None)" sample_view]
  show ?thesis by (auto simp: started_jobs split: prod.splits)
qed

end
