(* ===== verification/Debug_Harness.thy ===== *)
theory Debug_Harness
  imports Prefix_DB
begin

text \<open>
  \<open>internal/isledbdebug/harness.go\<close>: experiments that measure how soon writes of one prefix become
  visible to a change reader.

  The harness is a record around a prefix database. The page loops are partial functions; the loop of
  \<open>RunIncremental\<close> takes the list of what its turns read from the clock and the context, and \<open>None\<close>
  means that it has not returned at the end of the list. Values written are texts, kept as JSON strings.
\<close>

section \<open>The harness\<close>

definition keyPrefix :: string where "keyPrefix = ''debug:feed:''"

record 's Harness =
  hn_Backend :: Backend
  hn_Prefix :: string
  hn_DB :: "'s PrefixDB"

definition with_store :: "'s Harness \<Rightarrow> 's \<Rightarrow> 's Harness" where
  "with_store h s = h\<lparr>hn_DB := (hn_DB h)\<lparr>pd_State := s\<rparr>\<rparr>"

abbreviation store_of :: "'s Harness \<Rightarrow> 's" where
  "store_of h \<equiv> pd_State (hn_DB h)"

definition Harness_Open ::
  "(string \<Rightarrow> duration result) \<Rightarrow> 's open_env \<Rightarrow> Backend \<Rightarrow> string \<Rightarrow> osenv \<Rightarrow> 's Harness result" where
  "Harness_Open parseDuration oe backend prefixSuffix env =
     (case OpenPrefixDB oe
        \<lparr>oc_Store = StoreConfigFromEnv parseDuration env backend prefixSuffix, oc_PrefixID = ''debug-feed'', oc_FlushEvery = 5 * second,
         oc_Retention = (backend \<noteq> BackendMemory), oc_RunMaint = (backend \<noteq> BackendMemory)\<rparr> env of
        (Inl e, _, _) \<Rightarrow> Inl e
      | (Inr pdb, _, _) \<Rightarrow> Inr \<lparr>hn_Backend = backend, hn_Prefix = ''debug-feed'' @ ''-'' @ prefixSuffix, hn_DB = pdb\<rparr>)"

text \<open>\<open>%04d\<close> of a number that is not negative.\<close>

definition pad4 :: "nat \<Rightarrow> string" where
  "pad4 n = replicate (4 - length (fmt_nat n)) CHR ''0'' @ fmt_nat n"

definition Harness_key :: "nat \<Rightarrow> string" where
  "Harness_key seq = keyPrefix @ pad4 seq"

text \<open>The loop of \<open>WriteBatch\<close>; \<open>clock seq\<close> is the clock read for the value of \<open>seq\<close>.\<close>

fun write_seqs :: "('s, 'c) isle \<Rightarrow> (nat \<Rightarrow> int) \<Rightarrow> nat list \<Rightarrow> 's action" where
  "write_seqs ops clock [] s = (None, s)"
| "write_seqs ops clock (seq # seqs) s =
     (case isle_Put ops (Harness_key seq) (JString (''v-'' @ fmt_int (clock seq) @ ''-'' @ fmt_nat seq)) s of
        (Some e, s') \<Rightarrow> (Some e, s')
      | (None, s') \<Rightarrow> write_seqs ops clock seqs s')"

definition WriteBatch :: "('s, 'c) isle \<Rightarrow> (nat \<Rightarrow> int) \<Rightarrow> nat \<Rightarrow> nat \<Rightarrow> 's Harness action" where
  "WriteBatch ops clock n startSeq h =
     (case write_seqs ops clock [startSeq ..< startSeq + n] (store_of h) of (e, s) \<Rightarrow> (e, with_store h s))"

definition Harness_Flush :: "('s, 'c) isle \<Rightarrow> 's Harness action" where
  "Harness_Flush ops h =
     (case isle_Flush ops (store_of h) of
        (Some e, s) \<Rightarrow> (Some e, with_store h s)
      | (None, s) \<Rightarrow> (case RefreshReader ops (pd_Reader (hn_DB h)) s of (e, s') \<Rightarrow> (e, with_store h s')))"

definition Harness_minKey :: string where "Harness_minKey = keyPrefix"
definition Harness_maxKey :: string where "Harness_maxKey = keyPrefix @ [CHR 0xFF]"

definition in_key_range :: "Change \<Rightarrow> bool" where
  "in_key_range ch \<longleftrightarrow> ch_Key ch \<ge> Harness_minKey \<and> ch_Key ch \<le> Harness_maxKey"

definition Harness_Close :: "('s, 'c) isle \<Rightarrow> 's Harness action" where
  "Harness_Close ops h = (case PrefixDB_Close ops (hn_DB h) of (e, db) \<Rightarrow> (e, h\<lparr>hn_DB := db\<rparr>))"

section \<open>Reading\<close>

partial_function (option) since_loop ::
  "('s, 'c) isle \<Rightarrow> 's \<Rightarrow> 'c \<Rightarrow> nat \<Rightarrow> (nat \<times> 'c \<times> goerror option) option" where
  [code]: "since_loop ops s nxt tot =
     (case isle_Read ops s nxt of
        Inl e \<Rightarrow> Some (tot, nxt, Some e)
      | Inr page \<Rightarrow>
          (let tot' = tot + length (filter in_key_range (pg_Changes page))
           in if pg_CaughtUp page then Some (tot', pg_Next page, None)
              else since_loop ops s (pg_Next page) tot'))"

definition readChangesSince :: "('s, 'c) isle \<Rightarrow> 's \<Rightarrow> 'c \<Rightarrow> (nat \<times> 'c \<times> goerror option) option" where
  "readChangesSince ops s cursor =
     (case isle_OpenChangeReader ops s of
        Some e \<Rightarrow> Some (0, cursor, Some e)
      | None \<Rightarrow>
          (if isle_CursorIsZero ops cursor
           then (case isle_Bounds ops s of
                   Inl e \<Rightarrow> Some (0, cursor, Some e)
                 | Inr _ \<Rightarrow> since_loop ops s (isle_Head ops s) 0)
           else since_loop ops s cursor 0))"

partial_function (option) drain_cursor :: "('s, 'c) isle \<Rightarrow> 's \<Rightarrow> 'c \<Rightarrow> 'c result option" where
  [code]: "drain_cursor ops s cursor =
     (case isle_Read ops s cursor of
        Inl e \<Rightarrow> Some (Inl e)
      | Inr page \<Rightarrow> (if pg_CaughtUp page then Some (Inr (pg_Next page)) else drain_cursor ops s (pg_Next page)))"

text \<open>The cursor returned with an error is never used.\<close>

definition drainToHead :: "('s, 'c) isle \<Rightarrow> 's \<Rightarrow> 'c result option" where
  "drainToHead ops s =
     (case isle_OpenChangeReader ops s of
        Some e \<Rightarrow> Some (Inl e)
      | None \<Rightarrow>
          (case isle_Bounds ops s of
             Inl e \<Rightarrow> Some (Inl e)
           | Inr oldest \<Rightarrow> (if isle_CursorIsZero ops oldest then Some (Inr (isle_Head ops s)) else drain_cursor ops s oldest)))"

section \<open>Experiments\<close>

record VisibilityRow =
  vr_DelayMs :: int
  vr_KeysSeen :: nat
  vr_Err :: string

text \<open>What an experiment reads from the clock and the context: \<open>xe_Clock seq\<close> for the values,
  \<open>xe_Elapsed d\<close> since the flush when delay \<open>d\<close> comes up, \<open>xe_Wait d\<close> what waiting for it gives.\<close>

record exp_env =
  xe_Clock :: "nat \<Rightarrow> int"
  xe_Elapsed :: "int \<Rightarrow> duration"
  xe_Wait :: "int \<Rightarrow> goerror option"

definition visibility_delays :: "int list" where
  "visibility_delays = [0, 50, 100, 250, 500, 1000, 2000, 5000]"

fun visibility_rows ::
  "('s, 'c) isle \<Rightarrow> exp_env \<Rightarrow> 's \<Rightarrow> 'c \<Rightarrow> int list \<Rightarrow> VisibilityRow list \<Rightarrow> (VisibilityRow list \<times> goerror option) option" where
  "visibility_rows ops xe s head [] rows = Some (rows, None)"
| "visibility_rows ops xe s head (d # ds) rows =
     (let waited = (if d * millisecond - xe_Elapsed xe d > 0 then xe_Wait xe d else None) in
      case waited of
        Some e \<Rightarrow> Some (rows, Some e)
      | None \<Rightarrow>
          (case readChangesSince ops s head of
             None \<Rightarrow> None
           | Some (n, _, err) \<Rightarrow>
               visibility_rows ops xe s head ds
                 (rows @ [\<lparr>vr_DelayMs = d, vr_KeysSeen = n, vr_Err = (case err of None \<Rightarrow> [] | Some e \<Rightarrow> error_text e)\<rparr>])))"

definition Harness_RunVisibility ::
  "('s, 'c) isle \<Rightarrow> exp_env \<Rightarrow> nat \<Rightarrow> 's Harness \<Rightarrow> ((VisibilityRow list \<times> goerror option) \<times> 's Harness) option" where
  "Harness_RunVisibility ops xe batchSize h =
     (case WriteBatch ops (xe_Clock xe) batchSize 1 h of
        (Some e, h1) \<Rightarrow> Some (([], Some e), h1)
      | (None, h1) \<Rightarrow>
     (case Harness_Flush ops h1 of
        (Some e, h2) \<Rightarrow> Some (([], Some e), h2)
      | (None, h2) \<Rightarrow>
     (case drainToHead ops (store_of h2) of
        None \<Rightarrow> None
      | Some (Inl e) \<Rightarrow> Some (([], Some e), h2)
      | Some (Inr head) \<Rightarrow>
     (case WriteBatch ops (xe_Clock xe) batchSize (batchSize + 1) h2 of
        (Some e, h3) \<Rightarrow> Some (([], Some e), h3)
      | (None, h3) \<Rightarrow>
     (case Harness_Flush ops h3 of
        (Some e, h4) \<Rightarrow> Some (([], Some e), h4)
      | (None, h4) \<Rightarrow> map_option (\<lambda>r. (r, h4)) (visibility_rows ops xe (store_of h4) head visibility_delays []))))))"

record IncrementalResult =
  ic_WroteKeys :: nat
  ic_TailEvents :: nat
  ic_FirstNewKeyMs :: int
  ic_Timeout :: bool

text \<open>A turn of the polling loop: the clock at its head, the clock when new keys are seen, and what
  the wait at its end gives.\<close>

record poll_turn =
  pt_Now :: time
  pt_Seen :: time
  pt_Ctx :: "goerror option"

fun incremental_loop ::
  "('s, 'c) isle \<Rightarrow> 's \<Rightarrow> 'c \<Rightarrow> nat \<Rightarrow> time \<Rightarrow> time \<Rightarrow> poll_turn list \<Rightarrow> int \<Rightarrow> bool \<Rightarrow> nat \<Rightarrow> IncrementalResult result option" where
  "incremental_loop ops s head newKeys start deadline [] firstMs gotFirst tot = None"
| "incremental_loop ops s head newKeys start deadline (t # ts) firstMs gotFirst tot =
     (if \<not> pt_Now t < deadline
      then Some (Inr \<lparr>ic_WroteKeys = newKeys, ic_TailEvents = tot, ic_FirstNewKeyMs = firstMs, ic_Timeout = True\<rparr>)
      else case readChangesSince ops s head of
        None \<Rightarrow> None
      | Some (n, _, Some e) \<Rightarrow> Some (Inl e)
      | Some (n, _, None) \<Rightarrow>
          (let more = n > tot;
               firstMs' = (if more \<and> \<not> gotFirst then (pt_Seen t - start) div millisecond else firstMs);
               gotFirst' = (gotFirst \<or> more);
               tot' = (if more then n else tot)
           in if tot' \<ge> newKeys
              then Some (Inr \<lparr>ic_WroteKeys = newKeys, ic_TailEvents = tot', ic_FirstNewKeyMs = firstMs', ic_Timeout = False\<rparr>)
              else case pt_Ctx t of
                Some e \<Rightarrow> Some (Inl e)
              | None \<Rightarrow> incremental_loop ops s head newKeys start deadline ts firstMs' gotFirst' tot'))"

definition Harness_RunIncremental ::
  "('s, 'c) isle \<Rightarrow> exp_env \<Rightarrow> time \<Rightarrow> time \<Rightarrow> poll_turn list \<Rightarrow> nat \<Rightarrow> nat \<Rightarrow> duration \<Rightarrow> 's Harness \<Rightarrow>
   (IncrementalResult result \<times> 's Harness) option" where
  "Harness_RunIncremental ops xe start flushed turns priorKeys newKeys wait h =
     (case drainToHead ops (store_of h) of
        None \<Rightarrow> None
      | Some (Inl e) \<Rightarrow> Some (Inl e, h)
      | Some (Inr head) \<Rightarrow>
     (case WriteBatch ops (xe_Clock xe) newKeys (priorKeys + 1) h of
        (Some e, h1) \<Rightarrow> Some (Inl e, h1)
      | (None, h1) \<Rightarrow>
     (case Harness_Flush ops h1 of
        (Some e, h2) \<Rightarrow> Some (Inl e, h2)
      | (None, h2) \<Rightarrow>
          map_option (\<lambda>r. (r, h2)) (incremental_loop ops (store_of h2) head newKeys start (flushed + wait) turns 0 False 0))))"

record ReplayResult =
  rr_EventsInWindow :: nat
  rr_WindowMs :: int

definition Harness_RunReplay :: "('s, 'c) isle \<Rightarrow> duration \<Rightarrow> 's Harness \<Rightarrow> ReplayResult result option" where
  "Harness_RunReplay ops window h =
     (case CountChangeFeed ops (store_of h) of
        None \<Rightarrow> None
      | Some (Some e, _) \<Rightarrow> Some (Inl e)
      | Some (None, n) \<Rightarrow> Some (Inr \<lparr>rr_EventsInWindow = n, rr_WindowMs = window div millisecond\<rparr>))"

section \<open>Stores whose cursors can be resumed\<close>

text \<open>
  What the experiments rely on beyond the contract of a live store: which puts are pending, that a
  flush appends them to the feed, and that a cursor that was read up to the head shows, after a
  flush, exactly what was appended.
\<close>

locale resumable_store = live_store ops feed rest lag current committed view live
  for ops :: "('s, 'c) isle" and feed rest lag current committed view live +
  fixes pending :: "'s \<Rightarrow> Change list"
    and valid :: "'s \<Rightarrow> 'c \<Rightarrow> bool"
  assumes bounds_valid: "isle_Bounds ops s = Inr c \<Longrightarrow> \<not> isle_CursorIsZero ops c \<Longrightarrow> valid s c"
    and next_valid: "valid s c \<Longrightarrow> isle_Read ops s c = Inr pg \<Longrightarrow> valid s (pg_Next pg)"
    and next_head: "valid s c \<Longrightarrow> isle_Read ops s c = Inr pg \<Longrightarrow> pg_CaughtUp pg \<Longrightarrow> rest s (pg_Next pg) = []"
    and valid_nonzero: "valid s c \<Longrightarrow> \<not> isle_CursorIsZero ops c"
    and put_appends: "isle_Put ops k v s = (None, s') \<Longrightarrow>
      pending s' = pending s @ [put_change k v] \<and> feed s' = feed s \<and> (\<forall>c. valid s c \<longrightarrow> valid s' c \<and> rest s' c = rest s c)"
    and flush_appends: "isle_Flush ops s = (None, s') \<Longrightarrow>
      pending s' = [] \<and> feed s' = feed s @ pending s \<and> (\<forall>c. valid s c \<longrightarrow> valid s' c \<and> rest s' c = rest s c @ pending s)"
    and refresh_appends: "isle_Refresh ops s = (None, s') \<Longrightarrow>
      pending s' = pending s \<and> feed s' = feed s \<and> (\<forall>c. valid s c \<longrightarrow> valid s' c \<and> rest s' c = rest s c)"

definition mem_valid :: "mem \<Rightarrow> nat \<Rightarrow> bool" where
  "mem_valid s c \<longleftrightarrow> 1 \<le> c \<and> c \<le> Suc (length (mm_Log s))"

interpretation mem_resumable: resumable_store "mem_isle n" mm_Log mem_rest mem_lag mem_current mem_committed mm_View mem_live mm_Pending mem_valid
  by unfold_locales (auto simp: mem_defs mem_valid_def split: option.splits if_splits)

text \<open>The change a batch puts for a sequence number.\<close>

definition batch_change :: "(nat \<Rightarrow> int) \<Rightarrow> nat \<Rightarrow> Change" where
  "batch_change clock seq = put_change (Harness_key seq) (JString (''v-'' @ fmt_int (clock seq) @ ''-'' @ fmt_nat seq))"

lemma batch_change_in_range: "in_key_range (batch_change clock seq)"
proof -
  obtain c ds where p: "pad4 seq = c # ds" "is_digit c"
  proof (cases "pad4 seq")
    case Nil
    then show ?thesis by (simp add: pad4_def)
  next
    case (Cons c ds)
    have "list_all is_digit (pad4 seq)"
      using fmt_nat_digits [of seq] by (auto simp: pad4_def list_all_iff is_digit_def)
    with Cons that show ?thesis by simp
  qed
  have "c < CHR 0xFF" using p(2) by (simp add: is_digit_def less_char_def)
  then have "keyPrefix @ pad4 seq < keyPrefix @ [CHR 0xFF]" "keyPrefix \<le> keyPrefix @ pad4 seq"
    by (simp_all add: p(1) keyPrefix_def)
  then show ?thesis
    by (simp add: in_key_range_def batch_change_def put_change_def Harness_key_def Harness_minKey_def Harness_maxKey_def)
qed

context resumable_store
begin

lemma write_seqs_live:
  "live s \<Longrightarrow> \<exists>s'. write_seqs ops clock seqs s = (None, s') \<and> live s' \<and> pending s' = pending s @ map (batch_change clock) seqs \<and>
     feed s' = feed s \<and> (\<forall>c. valid s c \<longrightarrow> valid s' c \<and> rest s' c = rest s c)"
proof (induction seqs arbitrary: s)
  case (Cons seq seqs)
  obtain s1 where s1: "isle_Put ops (Harness_key seq) (JString (''v-'' @ fmt_int (clock seq) @ ''-'' @ fmt_nat seq)) s = (None, s1)" "live s1"
    using live_put [OF Cons.prems] by blast
  obtain s2 where s2: "write_seqs ops clock seqs s1 = (None, s2)" "live s2" "pending s2 = pending s1 @ map (batch_change clock) seqs"
      "feed s2 = feed s1" "\<forall>c. valid s1 c \<longrightarrow> valid s2 c \<and> rest s2 c = rest s1 c"
    using Cons.IH [OF s1(2)] by blast
  with s1 put_appends [OF s1(1)] show ?case by (auto simp: batch_change_def)
qed auto

text \<open>A batch and a flush, as the experiments do them: the change feed grows by the batch.\<close>

lemma write_and_flush:
  assumes "live (store_of h)" and "pd_Reader (hn_DB h)" and "pending (store_of h) = []"
  shows "\<exists>h1 h2. WriteBatch ops clock n start h = (None, h1) \<and> Harness_Flush ops h1 = (None, h2) \<and>
    live (store_of h2) \<and> pd_Reader (hn_DB h2) \<and> pending (store_of h2) = [] \<and>
    feed (store_of h2) = feed (store_of h) @ map (batch_change clock) [start ..< start + n] \<and>
    (\<forall>c. valid (store_of h) c \<longrightarrow> valid (store_of h2) c \<and>
       rest (store_of h2) c = rest (store_of h) c @ map (batch_change clock) [start ..< start + n])"
proof -
  obtain s1 where s1: "write_seqs ops clock [start ..< start + n] (store_of h) = (None, s1)" "live s1"
      "pending s1 = map (batch_change clock) [start ..< start + n]" "feed s1 = feed (store_of h)"
      "\<forall>c. valid (store_of h) c \<longrightarrow> valid s1 c \<and> rest s1 c = rest (store_of h) c"
    using write_seqs_live [OF assms(1), of clock "[start ..< start + n]"] assms(3) by auto
  obtain s2 where s2: "isle_Flush ops s1 = (None, s2)" "live s2" using live_flush [OF s1(2)] by blast
  obtain s3 where s3: "isle_Refresh ops s2 = (None, s3)" "live s3" using live_refresh [OF s2(2)] by blast
  have "WriteBatch ops clock n start h = (None, with_store h s1)" by (simp add: WriteBatch_def s1(1))
  moreover have "Harness_Flush ops (with_store h s1) = (None, with_store h s3)"
    using assms(2) by (simp add: Harness_Flush_def with_store_def s2(1) RefreshReader_def s3(1))
  ultimately show ?thesis
    using s1 s3(2) assms(2) flush_appends [OF s2(1)] refresh_appends [OF s3(1)]
    by (intro exI [of _ "with_store h s1"] exI [of _ "with_store h s3"]) (simp add: with_store_def)
qed

lemma drain_cursor_head:
  assumes "live s"
  shows "valid s c \<Longrightarrow> \<exists>c'. drain_cursor ops s c = Some (Inr c') \<and> valid s c' \<and> rest s c' = []"
proof (induction "lag s c" arbitrary: c rule: less_induct)
  case less
  obtain pg where pg: "isle_Read ops s c = Inr pg" using live_readable [OF assms] by (auto simp: readable_def)
  show ?case
  proof (cases "pg_CaughtUp pg")
    case True
    with pg less.prems next_valid next_head show ?thesis by (subst drain_cursor.simps) auto
  next
    case False
    with less(1) [OF read_lag [OF pg False] next_valid [OF less.prems pg]] pg show ?thesis by (subst drain_cursor.simps) auto
  qed
qed

lemma drain_to_head:
  assumes "live s" and "feed s \<noteq> []"
  shows "\<exists>c. drainToHead ops s = Some (Inr c) \<and> valid s c \<and> rest s c = []"
proof -
  obtain c where c: "isle_OpenChangeReader ops s = None" "isle_Bounds ops s = Inr c"
    using live_readable [OF assms(1)] by (auto simp: readable_def)
  then have nz: "\<not> isle_CursorIsZero ops c" using bounds_zero assms(2) by blast
  from drain_cursor_head [OF assms(1) bounds_valid [OF c(2) nz]] c nz show ?thesis by (auto simp: drainToHead_def)
qed

lemma since_loop_rest:
  assumes "live s"
  shows "\<exists>c'. since_loop ops s c t = Some (t + length (filter in_key_range (rest s c)), c', None)"
proof (induction "lag s c" arbitrary: c t rule: less_induct)
  case less
  obtain pg where pg: "isle_Read ops s c = Inr pg" using live_readable [OF assms] by (auto simp: readable_def)
  let ?t = "t + length (filter in_key_range (pg_Changes pg))"
  show ?case
  proof (cases "pg_CaughtUp pg")
    case True
    with pg read_rest [OF pg] show ?thesis by (subst since_loop.simps) simp
  next
    case False
    with less(1) [OF read_lag [OF pg False], of ?t] pg read_rest [OF pg] show ?thesis by (subst since_loop.simps) (auto simp: Let_def)
  qed
qed

lemma read_since_batch:
  assumes "live s" and "valid s c" and "rest s c = map (batch_change clock) seqs"
  shows "\<exists>c'. readChangesSince ops s c = Some (length seqs, c', None)"
proof -
  have "filter in_key_range (rest s c) = rest s c" using batch_change_in_range by (auto simp: assms(3) filter_id_conv)
  then show ?thesis
    using since_loop_rest [OF assms(1), of c 0] live_readable [OF assms(1)] valid_nonzero [OF assms(2)]
    by (auto simp: readChangesSince_def readable_def assms(3))
qed

text \<open>A harness the experiments can be run on: nothing pending, the reader open, every call served.\<close>

lemma visibility_rows_all:
  assumes "live s" and "valid s c" and "rest s c = map (batch_change clock) seqs" and "\<forall>d. xe_Wait xe d = None"
  shows "visibility_rows ops xe s c ds rows =
    Some (rows @ map (\<lambda>d. \<lparr>vr_DelayMs = d, vr_KeysSeen = length seqs, vr_Err = []\<rparr>) ds, None)"
proof -
  obtain c' where "readChangesSince ops s c = Some (length seqs, c', None)" using read_since_batch [OF assms(1-3)] by blast
  with assms(4) show ?thesis by (induction ds arbitrary: rows) (simp_all add: Let_def)
qed

lemma visibility_live:
  assumes "live (store_of h)" and "pd_Reader (hn_DB h)" and "pending (store_of h) = []" and "\<forall>d. xe_Wait xe d = None" and "0 < n"
  shows "\<exists>h'. Harness_RunVisibility ops xe n h =
      Some ((map (\<lambda>d. \<lparr>vr_DelayMs = d, vr_KeysSeen = n, vr_Err = []\<rparr>) visibility_delays, None), h') \<and>
    live (store_of h') \<and> pd_Reader (hn_DB h') \<and> pending (store_of h') = [] \<and> feed (store_of h') \<noteq> []"
proof -
  obtain h1 h2 where h2: "WriteBatch ops (xe_Clock xe) n 1 h = (None, h1)" "Harness_Flush ops h1 = (None, h2)"
      "live (store_of h2)" "pd_Reader (hn_DB h2)" "pending (store_of h2) = []" "feed (store_of h2) \<noteq> []"
    using write_and_flush [OF assms(1-3), of "xe_Clock xe" n 1] assms(5) by auto
  obtain c where c: "drainToHead ops (store_of h2) = Some (Inr c)" "valid (store_of h2) c" "rest (store_of h2) c = []"
    using drain_to_head [OF h2(3,6)] by blast
  obtain h3 h4 where h4: "WriteBatch ops (xe_Clock xe) n (n + 1) h2 = (None, h3)" "Harness_Flush ops h3 = (None, h4)"
      "live (store_of h4)" "pd_Reader (hn_DB h4)" "pending (store_of h4) = []" "feed (store_of h4) \<noteq> []"
      "valid (store_of h4) c" "rest (store_of h4) c = map (batch_change (xe_Clock xe)) [n + 1 ..< n + 1 + n]"
    using write_and_flush [OF h2(3-5), of "xe_Clock xe" n "n + 1"] c h2(6) by auto
  from visibility_rows_all [OF h4(3,7,8) assms(4)] h2 h4 c(1) show ?thesis
    by (simp add: Harness_RunVisibility_def)
qed

lemma incremental_live:
  assumes "live (store_of h)" and "pd_Reader (hn_DB h)" and "pending (store_of h) = []" and "feed (store_of h) \<noteq> []"
    and "turns = t # ts" and "pt_Now t < flushed + wait" and "0 < n"
  shows "\<exists>h'. Harness_RunIncremental ops xe start flushed turns prior n wait h =
      Some (Inr \<lparr>ic_WroteKeys = n, ic_TailEvents = n, ic_FirstNewKeyMs = (pt_Seen t - start) div millisecond, ic_Timeout = False\<rparr>, h') \<and>
    live (store_of h') \<and> pd_Reader (hn_DB h') \<and> pending (store_of h') = []"
proof -
  obtain c where c: "drainToHead ops (store_of h) = Some (Inr c)" "valid (store_of h) c" "rest (store_of h) c = []"
    using drain_to_head [OF assms(1,4)] by blast
  obtain h1 h2 where h2: "WriteBatch ops (xe_Clock xe) n (prior + 1) h = (None, h1)" "Harness_Flush ops h1 = (None, h2)"
      "live (store_of h2)" "pd_Reader (hn_DB h2)" "pending (store_of h2) = []"
      "valid (store_of h2) c" "rest (store_of h2) c = map (batch_change (xe_Clock xe)) [prior + 1 ..< prior + 1 + n]"
    using write_and_flush [OF assms(1-3), of "xe_Clock xe" n "prior + 1"] c by auto
  obtain c' where "readChangesSince ops (store_of h2) c = Some (n, c', None)"
    using read_since_batch [OF h2(3,6,7)] by auto
  with h2 c(1) assms(5-7) show ?thesis by (simp add: Harness_RunIncremental_def Let_def)
qed

lemma replay_live:
  assumes "live (store_of h)"
  shows "Harness_RunReplay ops window h = Some (Inr \<lparr>rr_EventsInWindow = length (feed (store_of h)), rr_WindowMs = window div millisecond\<rparr>)"
proof -
  have "page_hom (\<lambda>chs n. (None, n + length chs))" by (simp add: page_hom_def)
  from read_feed_all [OF this live_readable [OF assms], of 0] show ?thesis by (simp add: Harness_RunReplay_def CountChangeFeed_def)
qed

end

end
