(* ===== verification/Debug_Main.thy ===== *)
theory Debug_Main
  imports Debug_Harness
begin

text \<open>
  \<open>cmd/isledb-debug/main.go\<close>: the command that runs the experiments of \<open>Debug_Harness\<close> and turns
  their results into verdicts and an exit code. The verdicts, the summary and the failure guide are
  modelled with their texts; the progress lines printed during an experiment and flag parsing are not.
\<close>

section \<open>Texts\<close>

text \<open>\<open>Duration.String\<close>: the digits of a fraction without trailing zeros, and the units.\<close>

definition strip_zeros :: "string \<Rightarrow> string" where
  "strip_zeros s = rev (dropWhile (\<lambda>c. c = CHR ''0'') (rev s))"

definition fmt_frac :: "nat \<Rightarrow> nat \<Rightarrow> string" where
  "fmt_frac v prec =
     (let d = fmt_nat v; ds = strip_zeros (replicate (prec - length d) CHR ''0'' @ d) in if ds = [] then [] else ''.'' @ ds)"

definition micro_sign :: string where "micro_sign = [CHR 0xC2, CHR 0xB5]"

definition duration_text :: "duration \<Rightarrow> string" where
  "duration_text d =
     (let u = nat \<bar>d\<bar>; sign = (if d < 0 then ''-'' else []);
          secs = fmt_nat (u div 1000000000 mod 60) @ fmt_frac (u mod 1000000000) 9 @ ''s'';
          mins = u div 60000000000
      in sign @
         (if u = 0 then ''0s''
          else if u < 1000 then fmt_nat u @ ''ns''
          else if u < 1000000 then fmt_nat (u div 1000) @ fmt_frac (u mod 1000) 3 @ micro_sign @ ''s''
          else if u < 1000000000 then fmt_nat (u div 1000000) @ fmt_frac (u mod 1000000) 6 @ ''ms''
          else if mins = 0 then secs
          else if mins < 60 then fmt_nat mins @ ''m'' @ secs
          else fmt_nat (mins div 60) @ ''h'' @ fmt_nat (mins mod 60) @ ''m'' @ secs))"

text \<open>\<open>%-ns\<close>, the arrow and the two marks of the summary.\<close>

definition pad_right :: "nat \<Rightarrow> string \<Rightarrow> string" where
  "pad_right n s = s @ replicate (n - length s) CHR '' ''"

definition arrow_sign :: string where "arrow_sign = [CHR 0xE2, CHR 0x86, CHR 0x92]"
definition check_sign :: string where "check_sign = [CHR 0xE2, CHR 0x9C, CHR 0x85]"
definition cross_sign :: string where "cross_sign = [CHR 0xE2, CHR 0x9D, CHR 0x8C]"

section \<open>Verdicts\<close>

definition visibilityBatch :: nat where "visibilityBatch = 5"
definition memoryVisibilityMaxMs :: int where "memoryVisibilityMaxMs = 500"
definition s3VisibilityMaxMs :: int where "s3VisibilityMaxMs = 5000"
definition incrementalFirstNewMs :: int where "incrementalFirstNewMs = 2000"
definition replayWindow :: duration where "replayWindow = 2 * second"

datatype verdictStatus = VerdictPass | VerdictFail | VerdictInfo

record verdict =
  vd_name :: string
  vd_status :: verdictStatus
  vd_expected :: string
  vd_actual :: string
  vd_hint :: string

definition visibilityBudget :: "Backend \<Rightarrow> int" where
  "visibilityBudget b = (if b = BackendMemory then memoryVisibilityMaxMs else s3VisibilityMaxMs)"

text \<open>The loop over the rows: the first delay with every key and the most keys seen, errors apart.\<close>

definition scan_row :: "VisibilityRow \<Rightarrow> int \<times> nat \<Rightarrow> int \<times> nat" where
  "scan_row r acc =
     (case acc of (firstVisible, maxSeen) \<Rightarrow>
        (if vr_KeysSeen r \<ge> visibilityBatch \<and> firstVisible < 0 \<and> vr_Err r = [] then vr_DelayMs r else firstVisible,
         if vr_Err r = [] \<and> vr_KeysSeen r > maxSeen then vr_KeysSeen r else maxSeen))"

definition visibility_verdict :: "Backend \<Rightarrow> VisibilityRow list \<Rightarrow> verdict \<Rightarrow> verdict" where
  "visibility_verdict b rows v =
     (let budget = visibilityBudget b in
      case fold scan_row rows (-1, 0) of (firstVisible, maxSeen) \<Rightarrow>
        (if firstVisible < 0 then
           v\<lparr>vd_status := VerdictFail,
             vd_actual := ''never reached '' @ fmt_nat visibilityBatch @ '' keys (max_seen='' @ fmt_nat maxSeen @ '' by 5000ms)'',
             vd_hint := ''run `mise run dev:isledb-debug-compare` '' @ em_dash @ '' if memory passes but '' @ b @
               '' fails, keep poll+broadcast UI; do not use per-key tail for live map''\<rparr>
         else if firstVisible > budget then
           v\<lparr>vd_status := VerdictFail,
             vd_actual := ''first full visibility at '' @ fmt_int firstVisible @ ''ms (budget '' @ fmt_int budget @ ''ms)'',
             vd_hint := ''sweep ChangeReader polling in internal/isledbdebug/harness.go, then re-run --backend '' @ b\<rparr>
         else
           v\<lparr>vd_status := VerdictPass,
             vd_actual := ''first full visibility at '' @ fmt_int firstVisible @ ''ms (keys_seen='' @ fmt_nat visibilityBatch @ '')''\<rparr>))"

text \<open>A verdict under construction; its status is the empty text in the code, and every path sets it.\<close>

definition new_verdict :: "string \<Rightarrow> string \<Rightarrow> verdict" where
  "new_verdict name expect = \<lparr>vd_name = name, vd_status = VerdictInfo, vd_expected = expect, vd_actual = [], vd_hint = []\<rparr>"

definition failed_verdict :: "verdict \<Rightarrow> string \<Rightarrow> string \<Rightarrow> verdict" where
  "failed_verdict v actual hint = v\<lparr>vd_status := VerdictFail, vd_actual := actual, vd_hint := hint\<rparr>"

definition runVisibility :: "('s, 'c) isle \<Rightarrow> exp_env \<Rightarrow> Backend \<Rightarrow> 's Harness \<Rightarrow> (verdict \<times> 's Harness) option" where
  "runVisibility ops xe b h =
     (let v = new_verdict ''visibility''
        (''keys_seen>='' @ fmt_nat visibilityBatch @ '' within '' @ fmt_int (visibilityBudget b) @ ''ms after flush'')
      in case Harness_RunVisibility ops xe visibilityBatch h of
           None \<Rightarrow> None
         | Some ((rows, Some e), h') \<Rightarrow>
             Some (failed_verdict v (''error: '' @ error_text e)
               (''re-run single experiment: go run ./cmd/isledb-debug/ --backend '' @ b @ '' --experiment visibility''), h')
         | Some ((rows, None), h') \<Rightarrow> Some (visibility_verdict b rows v, h'))"

definition incremental_verdict :: "Backend \<Rightarrow> duration \<Rightarrow> IncrementalResult \<Rightarrow> verdict \<Rightarrow> verdict" where
  "incremental_verdict b wait res v =
     (if ic_Timeout res then
        failed_verdict v (''timeout after '' @ duration_text wait @ '' (feed_events='' @ fmt_nat (ic_TailEvents res) @ ''/5)'')
          (''re-run with longer wait: go run ./cmd/isledb-debug/ --backend '' @ b @
           '' --experiment incremental --wait 30s; then run `mise run dev:isledb-debug-compare`'')
      else if ic_TailEvents res < ic_WroteKeys res then
        failed_verdict v (''feed_events='' @ fmt_nat (ic_TailEvents res) @ ''/'' @ fmt_nat (ic_WroteKeys res))
          (''ensure MinIO is up (`mise run minio-setup`), increase --wait, and compare memory vs '' @ b)
      else if ic_FirstNewKeyMs res \<ge> incrementalFirstNewMs then
        failed_verdict v (''slow first key at '' @ fmt_int (ic_FirstNewKeyMs res) @ ''ms (budget '' @ fmt_int incrementalFirstNewMs @ ''ms)'')
          (''do not rely on tail for live UI '' @ em_dash @ '' verify demo uses NotifyPoll/LatestPositions (internal/demo/pipeline.go)'')
      else
        v\<lparr>vd_status := VerdictPass,
          vd_actual := ''feed_events='' @ fmt_nat (ic_TailEvents res) @ ''/'' @ fmt_nat (ic_WroteKeys res) @ '', first_new_ms='' @ fmt_int (ic_FirstNewKeyMs res)\<rparr>)"

text \<open>What the incremental experiment reads from the clock and the context.\<close>

record inc_env =
  ie_Exp :: exp_env
  ie_Start :: time
  ie_Flushed :: time
  ie_Turns :: "poll_turn list"

definition runIncremental :: "('s, 'c) isle \<Rightarrow> inc_env \<Rightarrow> Backend \<Rightarrow> duration \<Rightarrow> 's Harness \<Rightarrow> (verdict \<times> 's Harness) option" where
  "runIncremental ops ie b wait h =
     (let v = new_verdict ''incremental''
        (''change feed delivers 5/5 new keys, timeout=false, first_new_ms<'' @ fmt_int incrementalFirstNewMs)
      in case WriteBatch ops (xe_Clock (ie_Exp ie)) 10 1 h of
           (Some e, h1) \<Rightarrow> Some (failed_verdict v (''seed write failed: '' @ error_text e) ''check data/cache/gedung-peristiwa is writable, then re-run'', h1)
         | (None, h1) \<Rightarrow>
        (case Harness_Flush ops h1 of
           (Some e, h2) \<Rightarrow> Some (failed_verdict v (''seed flush failed: '' @ error_text e)
             ''check backend connectivity (MinIO: `mise run minio-setup`), then re-run'', h2)
         | (None, h2) \<Rightarrow>
        (case Harness_RunIncremental ops (ie_Exp ie) (ie_Start ie) (ie_Flushed ie) (ie_Turns ie) 10 5 wait h2 of
           None \<Rightarrow> None
         | Some (Inl e, h3) \<Rightarrow> Some (failed_verdict v (''error: '' @ error_text e)
             (''run `mise run dev:isledb-debug-compare` '' @ em_dash @ '' if all backends fail, file upstream IsleDB issue with this log''), h3)
         | Some (Inr res, h3) \<Rightarrow> Some (incremental_verdict b wait res v, h3))))"

definition runReplay :: "('s, 'c) isle \<Rightarrow> exp_env \<Rightarrow> Backend \<Rightarrow> 's Harness \<Rightarrow> (verdict \<times> 's Harness) option" where
  "runReplay ops xe b h =
     (let v = new_verdict ''replay'' ''ChangeReader reads historical feed from Oldest (observational only)''
      in case WriteBatch ops (xe_Clock xe) 20 1 h of
           (Some e, h1) \<Rightarrow> Some (failed_verdict v (''seed write failed: '' @ error_text e) ''check data/cache/gedung-peristiwa is writable, then re-run'', h1)
         | (None, h1) \<Rightarrow>
        (case Harness_Flush ops h1 of
           (Some e, h2) \<Rightarrow> Some (failed_verdict v (''seed flush failed: '' @ error_text e) ''check backend connectivity, then re-run'', h2)
         | (None, h2) \<Rightarrow>
        (case Harness_RunReplay ops replayWindow h2 of
           None \<Rightarrow> None
         | Some (Inl e) \<Rightarrow> Some (failed_verdict v (''error: '' @ error_text e)
             (''re-run: go run ./cmd/isledb-debug/ --backend '' @ b @ '' --experiment replay''), h2)
         | Some (Inr res) \<Rightarrow>
             Some (if rr_EventsInWindow res > 0
                   then v\<lparr>vd_status := VerdictInfo, vd_actual := fmt_nat (rr_EventsInWindow res) @ '' historical changes in feed''\<rparr>
                   else failed_verdict v ''no replay events (unexpected for seeded store)''
                     ''re-run with fresh prefix: --prefix-suffix debug-$(date +%s); if still zero, rm -rf data/cache/gedung-peristiwa and retry'', h2))))"

definition anyFailed :: "verdict list \<Rightarrow> bool" where
  "anyFailed verdicts \<longleftrightarrow> list_ex (\<lambda>v. vd_status v = VerdictFail) verdicts"

definition failedVerdicts :: "verdict list \<Rightarrow> verdict list" where
  "failedVerdicts verdicts = filter (\<lambda>v. vd_status v = VerdictFail) verdicts"

definition status_text :: "verdictStatus \<Rightarrow> string" where
  "status_text st = (case st of VerdictPass \<Rightarrow> ''PASS'' | VerdictFail \<Rightarrow> ''FAIL'' | VerdictInfo \<Rightarrow> ''INFO'')"

text \<open>The lines printed, with empty lines for the line breaks the texts start with.\<close>

definition printFailureGuide :: "Backend \<Rightarrow> verdict list \<Rightarrow> string list" where
  "printFailureGuide b failed =
     (let vis = list_ex (\<lambda>v. vd_name v = ''visibility'') failed;
          inc = list_ex (\<lambda>v. vd_name v = ''incremental'') failed
      in [] # (if vis \<or> inc then
                 [''diagnose:''] @
                 (if b = BackendMemory then
                    [''  memory failed '' @ arrow_sign @ '' likely IsleDB or harness bug (not object-store)'',
                     ''  '' @ arrow_sign @ '' open upstream issue with output from: go test ./internal/isledbdebug/... -v'']
                  else
                    [''  '' @ arrow_sign @ '' run: mise run dev:isledb-debug-compare'',
                     ''  memory PASS + '' @ b @ '' FAIL '' @ arrow_sign @ '' object-store visibility; keep poll+broadcast UI'',
                     ''  all backends FAIL incremental '' @ arrow_sign @ '' IsleDB ChangeReader or harness bug'']) @
                 (if vis \<and> inc
                  then [''  both visibility and incremental failed '' @ arrow_sign @ '' fix visibility first (flush/read path)'']
                  else [])
               else [''diagnose: replay-only failure '' @ em_dash @ '' follow the replay next step above'']))"

definition summary_line :: "verdict \<Rightarrow> string" where
  "summary_line v = pad_right 14 (vd_name v) @ '' '' @ pad_right 5 (status_text (vd_status v)) @ ''  '' @ vd_actual v"

definition printSummary :: "Backend \<Rightarrow> verdict list \<Rightarrow> string list" where
  "printSummary b verdicts =
     [[], ''=== summary ['' @ b @ ''] ==='', pad_right 14 ''experiment'' @ '' '' @ pad_right 5 ''verdict'' @ ''  actual''] @
     map summary_line verdicts @
     (let failed = failedVerdicts verdicts in
      if failed = [] then [[], check_sign @ '' PASS ['' @ b @ '']'']
      else [[], cross_sign @ '' FAIL ['' @ b @ '']''] @
           map (\<lambda>v. ''  '' @ vd_name v @ '': '' @ vd_hint v) (filter (\<lambda>v. vd_hint v \<noteq> []) failed) @
           printFailureGuide b failed)"

section \<open>The command\<close>

record debug_env =
  de_Visibility :: exp_env
  de_Incremental :: inc_env
  de_Replay :: exp_env

text \<open>An experiment runs when its name or \<open>all\<close> was asked for; \<open>None\<close> is one that never returns.\<close>

definition experiment_step ::
  "string \<Rightarrow> string \<Rightarrow> ('s Harness \<Rightarrow> (verdict \<times> 's Harness) option) \<Rightarrow> verdict list \<times> 's Harness \<Rightarrow> (verdict list \<times> 's Harness) option" where
  "experiment_step ex name f st =
     (if ex = ''all'' \<or> ex = name
      then (case f (snd st) of None \<Rightarrow> None | Some (v, h) \<Rightarrow> Some (fst st @ [v], h))
      else Some st)"

definition debug_experiments ::
  "('s, 'c) isle \<Rightarrow> debug_env \<Rightarrow> Backend \<Rightarrow> duration \<Rightarrow> string \<Rightarrow> 's Harness \<Rightarrow> (verdict list \<times> 's Harness) option" where
  "debug_experiments ops de b wait ex h =
     Option.bind (experiment_step ex ''visibility'' (runVisibility ops (de_Visibility de) b) ([], h)) (\<lambda>st1.
     Option.bind (experiment_step ex ''incremental'' (runIncremental ops (de_Incremental de) b wait) st1) (\<lambda>st2.
     experiment_step ex ''replay'' (runReplay ops (de_Replay de) b) st2))"

text \<open>The exit code, the verdicts, the summary printed and the harness, which is closed on return;
  \<open>now\<close> is the clock in seconds. \<open>None\<close> is a command that never returns.\<close>

record 's debug_result =
  dr_Code :: nat
  dr_Verdicts :: "verdict list"
  dr_Summary :: "string list"
  dr_Harness :: "'s Harness option"

definition debug_run ::
  "(string \<Rightarrow> duration result) \<Rightarrow> 's open_env \<Rightarrow> osenv \<Rightarrow> ('s, 'c) isle \<Rightarrow> debug_env \<Rightarrow> Backend \<Rightarrow> string \<Rightarrow> string \<Rightarrow> duration \<Rightarrow> int \<Rightarrow>
   's debug_result option" where
  "debug_run parseDuration oe env ops de b experiment pre wait now =
     (let sfx = (if pre = [] then ''run-'' @ fmt_int now else pre);
          refused = \<lparr>dr_Code = 1, dr_Verdicts = [], dr_Summary = [], dr_Harness = None\<rparr> in
      if b = BackendTigris \<and> (env ''AWS_ACCESS_KEY_ID'' = [] \<or> env ''AWS_SECRET_ACCESS_KEY'' = []) then Some refused
      else case Harness_Open parseDuration oe b sfx env of
        Inl e \<Rightarrow> Some refused
      | Inr h \<Rightarrow>
          (case debug_experiments ops de b wait (ToLower experiment) h of
             None \<Rightarrow> None
           | Some (verdicts, h') \<Rightarrow>
               Some \<lparr>dr_Code = (if anyFailed verdicts then 1 else 0), dr_Verdicts = verdicts,
                 dr_Summary = printSummary b verdicts, dr_Harness = Some (snd (Harness_Close ops h'))\<rparr>))"

section \<open>Over a store that serves every call\<close>

context resumable_store
begin

lemma visibility_passes:
  assumes "live (store_of h)" and "pd_Reader (hn_DB h)" and "pending (store_of h) = []" and "\<forall>d. xe_Wait xe d = None"
  shows "\<exists>v h'. runVisibility ops xe b h = Some (v, h') \<and> vd_status v = VerdictPass \<and>
    live (store_of h') \<and> pd_Reader (hn_DB h') \<and> pending (store_of h') = []"
proof -
  obtain h' where h': "Harness_RunVisibility ops xe visibilityBatch h =
      Some ((map (\<lambda>d. \<lparr>vr_DelayMs = d, vr_KeysSeen = visibilityBatch, vr_Err = []\<rparr>) visibility_delays, None), h')"
      "live (store_of h')" "pd_Reader (hn_DB h')" "pending (store_of h') = []"
    using visibility_live [OF assms, of visibilityBatch] by (auto simp: visibilityBatch_def)
  have "fold scan_row (map (\<lambda>d. \<lparr>vr_DelayMs = d, vr_KeysSeen = visibilityBatch, vr_Err = []\<rparr>) visibility_delays) (-1, 0) = (0, visibilityBatch)"
    by (simp add: visibility_delays_def scan_row_def visibilityBatch_def)
  moreover have "\<not> visibilityBudget b < 0" by (simp add: visibilityBudget_def memoryVisibilityMaxMs_def s3VisibilityMaxMs_def)
  ultimately show ?thesis using h' by (simp add: runVisibility_def visibility_verdict_def Let_def)
qed

lemma incremental_passes:
  assumes "live (store_of h)" and "pd_Reader (hn_DB h)" and "pending (store_of h) = []"
    and "ie_Turns ie = t # ts" and "pt_Now t < ie_Flushed ie + wait" and "pt_Seen t - ie_Start ie < 2 * second"
  shows "\<exists>v h'. runIncremental ops ie b wait h = Some (v, h') \<and> vd_status v = VerdictPass \<and>
    live (store_of h') \<and> pd_Reader (hn_DB h') \<and> pending (store_of h') = []"
proof -
  obtain h1 h2 where h2: "WriteBatch ops (xe_Clock (ie_Exp ie)) 10 1 h = (None, h1)" "Harness_Flush ops h1 = (None, h2)"
      "live (store_of h2)" "pd_Reader (hn_DB h2)" "pending (store_of h2) = []" "feed (store_of h2) \<noteq> []"
    using write_and_flush [OF assms(1-3), of "xe_Clock (ie_Exp ie)" 10 1] by auto
  obtain h3 where h3: "Harness_RunIncremental ops (ie_Exp ie) (ie_Start ie) (ie_Flushed ie) (ie_Turns ie) 10 5 wait h2 =
      Some (Inr \<lparr>ic_WroteKeys = 5, ic_TailEvents = 5, ic_FirstNewKeyMs = (pt_Seen t - ie_Start ie) div millisecond, ic_Timeout = False\<rparr>, h3)"
      "live (store_of h3)" "pd_Reader (hn_DB h3)" "pending (store_of h3) = []"
    using incremental_live [OF h2(3-6) assms(4,5), where n = 5 and xe = "ie_Exp ie" and start = "ie_Start ie" and prior = 10]
    by auto
  have "(pt_Seen t - ie_Start ie) div millisecond < incrementalFirstNewMs"
    using assms(6) by (simp add: incrementalFirstNewMs_def go_consts)
  then show ?thesis by (simp del: One_nat_def add: runIncremental_def Let_def incremental_verdict_def h2(1,2) h3)
qed

lemma replay_informs:
  assumes "live (store_of h)" and "pd_Reader (hn_DB h)" and "pending (store_of h) = []"
  shows "\<exists>v h'. runReplay ops xe b h = Some (v, h') \<and> vd_status v = VerdictInfo"
proof -
  obtain h1 h2 where h2: "WriteBatch ops (xe_Clock xe) 20 1 h = (None, h1)" "Harness_Flush ops h1 = (None, h2)"
      "live (store_of h2)" "feed (store_of h2) \<noteq> []"
    using write_and_flush [OF assms, of "xe_Clock xe" 20 1] by auto
  from h2 replay_live [OF h2(3), of replayWindow] show ?thesis by (simp add: runReplay_def Let_def)
qed

end

lemma ToLower_all: "ToLower ''all'' = ''all''"
  by (simp add: ToLower_def lower_char_def)

lemma anyFailed_iff: "anyFailed verdicts \<longleftrightarrow> failedVerdicts verdicts \<noteq> []"
  by (simp add: anyFailed_def failedVerdicts_def list_ex_iff filter_empty_conv)

lemma unknown_runs_nothing:
  "ex \<notin> {''all'', ''visibility'', ''incremental'', ''replay''} \<Longrightarrow> debug_experiments ops de b wait ex h = Some ([], h)"
  by (simp add: debug_experiments_def experiment_step_def)

text \<open>C29: over a store that serves every call and whose change feed can be resumed, the command with
  every experiment returns, the keys of a flush are seen at once, and the exit code is 0: the
  visibility and the incremental experiments pass and the replay informs, provided waiting is not
  interrupted and the first look at the feed comes in time.\<close>

theorem debug_all_pass:
  assumes "resumable_store ops feed rest lag current committed view live pending valid"
    and "b \<noteq> BackendTigris" and "Harness_Open parse oe b (if pre = [] then ''run-'' @ fmt_int now else pre) env = Inr h"
    and "live (store_of h)" and "pd_Reader (hn_DB h)" and "pending (store_of h) = []"
    and "\<forall>d. xe_Wait (de_Visibility de) d = None"
    and "ie_Turns (de_Incremental de) = t # ts" and "pt_Now t < ie_Flushed (de_Incremental de) + wait"
    and "pt_Seen t - ie_Start (de_Incremental de) < 2 * second"
  shows "\<exists>r. debug_run parse oe env ops de b ''all'' pre wait now = Some r \<and> dr_Code r = 0 \<and>
    map vd_status (dr_Verdicts r) = [VerdictPass, VerdictPass, VerdictInfo]"
proof -
  obtain v1 h1 where v1: "runVisibility ops (de_Visibility de) b h = Some (v1, h1)" "vd_status v1 = VerdictPass"
      "live (store_of h1)" "pd_Reader (hn_DB h1)" "pending (store_of h1) = []"
    using resumable_store.visibility_passes [OF assms(1,4-7)] by blast
  obtain v2 h2 where v2: "runIncremental ops (de_Incremental de) b wait h1 = Some (v2, h2)" "vd_status v2 = VerdictPass"
      "live (store_of h2)" "pd_Reader (hn_DB h2)" "pending (store_of h2) = []"
    using resumable_store.incremental_passes [OF assms(1) v1(3-5) assms(8-10)] by blast
  obtain v3 h3 where v3: "runReplay ops (de_Replay de) b h2 = Some (v3, h3)" "vd_status v3 = VerdictInfo"
    using resumable_store.replay_informs [OF assms(1) v2(3-5)] by blast
  have "debug_experiments ops de b wait ''all'' h = Some ([v1, v2, v3], h3)"
    by (simp add: debug_experiments_def experiment_step_def v1(1) v2(1) v3(1))
  then show ?thesis
    using assms(2,3) v1(2) v2(2) v3(2) by (simp add: debug_run_def Let_def anyFailed_def ToLower_all)
qed

text \<open>A run over the in-memory store, with a clock that stands still.\<close>

definition sample_debug :: debug_env where
  "sample_debug =
     (let xe = \<lparr>xe_Clock = (\<lambda>seq. 0), xe_Elapsed = (\<lambda>d. 0), xe_Wait = (\<lambda>d. None)\<rparr> in
      \<lparr>de_Visibility = xe,
       de_Incremental = \<lparr>ie_Exp = xe, ie_Start = 0, ie_Flushed = 0, ie_Turns = [\<lparr>pt_Now = 0, pt_Seen = 0, pt_Ctx = None\<rparr>]\<rparr>,
       de_Replay = xe\<rparr>)"

lemma sample_harness:
  "\<exists>h. Harness_Open (\<lambda>v. Inl (Errorf v)) mem_open BackendMemory (if ''t'' = [] then ''run-'' @ fmt_int 0 else ''t'') (\<lambda>k. []) = Inr h \<and>
     mem_live (store_of h) \<and> pd_Reader (hn_DB h) \<and> mm_Pending (store_of h) = []"
  by (simp add: Harness_Open_def OpenPrefixDB_def openIsleDB_def mem_open_def StoreConfigFromEnv_def Let_def
      mem_live_def mem_empty_def)

theorem debug_all_pass_witness:
  "\<exists>r. debug_run (\<lambda>v. Inl (Errorf v)) mem_open (\<lambda>k. []) (mem_isle 1) sample_debug BackendMemory ''all'' ''t'' (10 * second) 0 = Some r \<and>
     dr_Code r = 0 \<and> map vd_status (dr_Verdicts r) = [VerdictPass, VerdictPass, VerdictInfo]"
proof -
  obtain h where h: "Harness_Open (\<lambda>v. Inl (Errorf v)) mem_open BackendMemory (if ''t'' = [] then ''run-'' @ fmt_int 0 else ''t'') (\<lambda>k. []) = Inr h"
      "mem_live (store_of h)" "pd_Reader (hn_DB h)" "mm_Pending (store_of h) = []"
    using sample_harness by blast
  show ?thesis
    by (rule debug_all_pass [OF mem_resumable.resumable_store_axioms [of 1] _ h, where t = "\<lparr>pt_Now = 0, pt_Seen = 0, pt_Ctx = None\<rparr>" and ts = "[]"])
      (simp_all add: sample_debug_def Let_def go_consts BackendMemory_def BackendTigris_def)
qed

text \<open>An experiment's verdict carries its name, whatever the store answers, so the verdicts are those of the chosen experiments.\<close>

lemma verdict_names:
  "runVisibility ops xe b h = Some (v, h') \<Longrightarrow> vd_name v = ''visibility''"
  "runIncremental ops ie b wait h = Some (v, h') \<Longrightarrow> vd_name v = ''incremental''"
  "runReplay ops xe b h = Some (v, h') \<Longrightarrow> vd_name v = ''replay''"
  by (auto simp: runVisibility_def runIncremental_def runReplay_def visibility_verdict_def incremental_verdict_def new_verdict_def failed_verdict_def Let_def
      split: option.splits prod.splits sum.splits if_splits)

lemma experiment_step_names:
  assumes "experiment_step ex name f st = Some st'" and "\<And>h v h'. f h = Some (v, h') \<Longrightarrow> vd_name v = name"
  shows "map vd_name (fst st') = map vd_name (fst st) @ filter (\<lambda>n. ex = ''all'' \<or> ex = n) [name]"
  using assms by (auto simp: experiment_step_def split: if_splits option.splits)

lemma experiments_names:
  assumes "debug_experiments ops de b wait ex h = Some (vs, h')"
  shows "map vd_name vs = filter (\<lambda>n. ex = ''all'' \<or> ex = n) [''visibility'', ''incremental'', ''replay'']"
proof -
  obtain st1 st2 where st: "experiment_step ex ''visibility'' (runVisibility ops (de_Visibility de) b) ([], h) = Some st1"
      "experiment_step ex ''incremental'' (runIncremental ops (de_Incremental de) b wait) st1 = Some st2"
      "experiment_step ex ''replay'' (runReplay ops (de_Replay de) b) st2 = Some (vs, h')"
    using assms by (auto simp: debug_experiments_def bind_eq_Some_conv)
  have "map vd_name (fst st1) = map vd_name (fst ([] :: verdict list, h)) @ filter (\<lambda>n. ex = ''all'' \<or> ex = n) [''visibility'']"
    by (rule experiment_step_names [OF st(1)]) (rule verdict_names(1))
  moreover have "map vd_name (fst st2) = map vd_name (fst st1) @ filter (\<lambda>n. ex = ''all'' \<or> ex = n) [''incremental'']"
    by (rule experiment_step_names [OF st(2)]) (rule verdict_names(2))
  moreover have "map vd_name (fst (vs, h')) = map vd_name (fst st2) @ filter (\<lambda>n. ex = ''all'' \<or> ex = n) [''replay'']"
    by (rule experiment_step_names [OF st(3)]) (rule verdict_names(3))
  ultimately show ?thesis by simp
qed

text \<open>C31: the exit code of the debug command is 0 or 1. It is 1 exactly when the Tigris backend lacks credentials, the harness cannot be
  opened, or some verdict is a failure. In the first two cases no experiment runs and nothing is
  summarised. Otherwise exactly the experiments run, in this order, that the name, in whatever case it is written,
  selects: the one named or all three; the summary has a line for each and its verdict is PASS exactly
  when none failed. A name that is not known selects none, so the command succeeds and reports PASS.\<close>

theorem debug_exit_code:
  assumes "debug_run parse oe env ops de b experiment pre wait now = Some r"
  shows "(let refused = (b = BackendTigris \<and> (env ''AWS_ACCESS_KEY_ID'' = [] \<or> env ''AWS_SECRET_ACCESS_KEY'' = []) \<or>
        (\<exists>e. Harness_Open parse oe b (if pre = [] then ''run-'' @ fmt_int now else pre) env = Inl e))
     in dr_Code r = (if refused \<or> (\<exists>v \<in> set (dr_Verdicts r). vd_status v = VerdictFail) then 1 else 0) \<and>
        (if refused then dr_Verdicts r = [] \<and> dr_Summary r = []
         else map vd_name (dr_Verdicts r) =
             filter (\<lambda>n. ToLower experiment = ''all'' \<or> ToLower experiment = n) [''visibility'', ''incremental'', ''replay''] \<and>
           take (length (dr_Verdicts r)) (drop 3 (dr_Summary r)) = map summary_line (dr_Verdicts r) \<and>
           dr_Summary r ! (length (dr_Verdicts r) + 4) =
             (if dr_Code r = 0 then check_sign @ '' PASS ['' @ b @ '']'' else cross_sign @ '' FAIL ['' @ b @ '']'')))"
proof -
  let ?open = "Harness_Open parse oe b (if pre = [] then ''run-'' @ fmt_int now else pre) env"
  let ?keys = "b = BackendTigris \<and> (env ''AWS_ACCESS_KEY_ID'' = [] \<or> env ''AWS_SECRET_ACCESS_KEY'' = [])"
  show ?thesis
  proof (cases "?keys \<or> (\<exists>e. ?open = Inl e)")
    case True
    then show ?thesis using assms by (auto simp: debug_run_def Let_def split: sum.splits if_splits)
  next
    case False
    then obtain h where h: "?open = Inr h" by (cases "?open") auto
    obtain vs h' where ex: "debug_experiments ops de b wait (ToLower experiment) h = Some (vs, h')"
        and r: "dr_Verdicts r = vs" "dr_Code r = (if anyFailed vs then 1 else 0)" "dr_Summary r = printSummary b vs"
      using assms False h by (auto simp: debug_run_def Let_def split: option.splits prod.splits if_splits)
    have fail: "anyFailed vs \<longleftrightarrow> (\<exists>v \<in> set vs. vd_status v = VerdictFail)" by (auto simp: anyFailed_def list_ex_iff)
    have "take (length vs) (drop 3 (printSummary b vs)) = map summary_line vs" by (simp add: printSummary_def)
    moreover have "printSummary b vs ! (length vs + 4) = (if anyFailed vs then cross_sign @ '' FAIL ['' @ b @ '']'' else check_sign @ '' PASS ['' @ b @ '']'')"
      by (simp add: printSummary_def Let_def nth_append numeral_eq_Suc anyFailed_iff)
    ultimately show ?thesis
      unfolding Let_def if_not_P [OF False] using False experiments_names [OF ex] by (simp only: r fail simp_thms if_False) simp
  qed
qed

theorem debug_exit_code_witness:
  "\<exists>r. debug_run (\<lambda>v. Inl (Errorf v)) mem_open (\<lambda>k. []) (mem_isle 1) sample_debug BackendMemory ''Visibilty'' ''t'' second 0 = Some r \<and>
     dr_Code r = 0 \<and> dr_Verdicts r = [] \<and> dr_Summary r ! 4 = check_sign @ '' PASS ['' @ BackendMemory @ '']''"
proof -
  obtain h where h: "Harness_Open (\<lambda>v. Inl (Errorf v)) mem_open BackendMemory (if ''t'' = [] then ''run-'' @ fmt_int 0 else ''t'') (\<lambda>k. []) = Inr h"
    using sample_harness by blast
  have unknown: "ToLower ''Visibilty'' \<notin> {''all'', ''visibility'', ''incremental'', ''replay''}"
    by (simp add: ToLower_def lower_char_def Let_def)
  have other: "BackendMemory \<noteq> BackendTigris" by (simp add: BackendMemory_def BackendTigris_def)
  obtain r where r: "debug_run (\<lambda>v. Inl (Errorf v)) mem_open (\<lambda>k. []) (mem_isle 1) sample_debug BackendMemory ''Visibilty'' ''t'' second 0 = Some r"
    using h other unknown_runs_nothing [OF unknown, of "mem_isle 1" sample_debug BackendMemory second h]
    by (simp add: debug_run_def Let_def)
  have "\<not> (\<exists>e. Harness_Open (\<lambda>v. Inl (Errorf v)) mem_open BackendMemory (if ''t'' = [] then ''run-'' @ fmt_int 0 else ''t'') (\<lambda>k. []) = Inl e)"
    using h by simp
  with debug_exit_code [OF r] unknown other have names: "map vd_name (dr_Verdicts r) = []"
    and code: "dr_Code r = (if \<exists>v\<in>set (dr_Verdicts r). vd_status v = VerdictFail then 1 else 0)"
    and line: "dr_Summary r ! (length (dr_Verdicts r) + 4) =
      (if dr_Code r = 0 then check_sign @ '' PASS ['' @ BackendMemory @ '']'' else cross_sign @ '' FAIL ['' @ BackendMemory @ '']'')"
    unfolding Let_def by (simp_all only: if_False simp_thms insert_iff empty_iff de_Morgan_disj filter.simps list.map)
  from names have "dr_Verdicts r = []" by simp
  with code line have "dr_Code r = 0" "dr_Summary r ! 4 = check_sign @ '' PASS ['' @ BackendMemory @ '']''" by (simp_all only: list.size set_simps bex_empty simp_thms if_False add_0 if_True)
  with \<open>dr_Verdicts r = []\<close> r show ?thesis by blast
qed

end
