(* ===== verification/Gtfs_Regions.thy ===== *)
theory Gtfs_Regions
  imports Go_Text Go_Time
begin

text \<open>
  \<open>internal/gtfs/feeds.go\<close> and \<open>internal/gtfs/regions.go\<close>: the fifteen vehicle-position
  feeds, the eight map regions that group their agencies, and the lookups between them.
\<close>

record Feed =
  fd_Agency :: string
  fd_URL :: string
  fd_Category :: string
  fd_Type :: string
  fd_Region :: string
  fd_Group :: string
  fd_BucketID :: string

record MapRegion =
  rg_ID :: string
  rg_Label :: string
  rg_Center :: "rat \<times> rat"
  rg_Zoom :: nat
  rg_Agencies :: "string list"

definition baseURL :: string where
  "baseURL = ''https://api.data.gov.my/gtfs-realtime/vehicle-position/''"

definition prasarana_feed :: "string \<Rightarrow> string \<Rightarrow> string \<Rightarrow> Feed" where
  "prasarana_feed category region bucket =
     \<lparr>fd_Agency = ''prasarana-'' @ category, fd_URL = baseURL @ ''prasarana?category='' @ category,
      fd_Category = category, fd_Type = ''bus'', fd_Region = region, fd_Group = ''prasarana'', fd_BucketID = bucket\<rparr>"

definition mybas_feed :: "string \<Rightarrow> string \<Rightarrow> string \<Rightarrow> Feed" where
  "mybas_feed agency region bucket =
     \<lparr>fd_Agency = agency, fd_URL = baseURL @ agency, fd_Category = [], fd_Type = ''bus'',
      fd_Region = region, fd_Group = ''mybas'', fd_BucketID = bucket\<rparr>"

definition AllFeeds :: "Feed list" where
  "AllFeeds =
    [\<lparr>fd_Agency = ''ktmb'', fd_URL = baseURL @ ''ktmb'', fd_Category = [], fd_Type = ''rail'',
      fd_Region = ''National'', fd_Group = ''ktmb'', fd_BucketID = ''national''\<rparr>,
     prasarana_feed ''rapid-bus-kl'' ''KL'' ''klang-valley'',
     prasarana_feed ''rapid-bus-mrtfeeder'' ''KL MRT Feeder'' ''klang-valley'',
     prasarana_feed ''rapid-bus-kuantan'' ''Kuantan'' ''east-coast'',
     prasarana_feed ''rapid-bus-penang'' ''Penang'' ''penang'',
     mybas_feed ''mybas-kangar'' ''Perlis'' ''northern'',
     mybas_feed ''mybas-alor-setar'' ''Kedah'' ''northern'',
     mybas_feed ''mybas-kota-bharu'' ''Kelantan'' ''east-coast'',
     mybas_feed ''mybas-kuala-terengganu'' ''Terengganu'' ''east-coast'',
     mybas_feed ''mybas-ipoh'' ''Perak'' ''northern'',
     mybas_feed ''mybas-seremban-a'' ''N. Sembilan A'' ''central'',
     mybas_feed ''mybas-seremban-b'' ''N. Sembilan B'' ''central'',
     mybas_feed ''mybas-melaka'' ''Melaka'' ''central'',
     mybas_feed ''mybas-johor'' ''Johor'' ''johor'',
     mybas_feed ''mybas-kuching'' ''Sarawak'' ''sarawak'']"

definition DefaultRegionID :: string where
  "DefaultRegionID = ''klang-valley''"

definition mapRegions :: "MapRegion list" where
  "mapRegions =
    [\<lparr>rg_ID = ''klang-valley'', rg_Label = ''Klang Valley'', rg_Center = (3.139, 101.687), rg_Zoom = 12,
      rg_Agencies = [''prasarana-rapid-bus-kl'', ''prasarana-rapid-bus-mrtfeeder'']\<rparr>,
     \<lparr>rg_ID = ''national'', rg_Label = ''National'', rg_Center = (4.2, 102.0), rg_Zoom = 7,
      rg_Agencies = [''ktmb'']\<rparr>,
     \<lparr>rg_ID = ''penang'', rg_Label = ''Penang'', rg_Center = (5.41, 100.33), rg_Zoom = 11,
      rg_Agencies = [''prasarana-rapid-bus-penang'']\<rparr>,
     \<lparr>rg_ID = ''east-coast'', rg_Label = ''East Coast'', rg_Center = (4.95, 103.15), rg_Zoom = 8,
      rg_Agencies = [''prasarana-rapid-bus-kuantan'', ''mybas-kota-bharu'', ''mybas-kuala-terengganu'']\<rparr>,
     \<lparr>rg_ID = ''johor'', rg_Label = ''Johor'', rg_Center = (1.49, 103.74), rg_Zoom = 11,
      rg_Agencies = [''mybas-johor'']\<rparr>,
     \<lparr>rg_ID = ''sarawak'', rg_Label = ''Sarawak'', rg_Center = (1.55, 110.34), rg_Zoom = 11,
      rg_Agencies = [''mybas-kuching'']\<rparr>,
     \<lparr>rg_ID = ''northern'', rg_Label = ''Northern'', rg_Center = (5.55, 100.75), rg_Zoom = 8,
      rg_Agencies = [''mybas-kangar'', ''mybas-alor-setar'', ''mybas-ipoh'']\<rparr>,
     \<lparr>rg_ID = ''central'', rg_Label = ''Central'', rg_Center = (2.55, 102.15), rg_Zoom = 9,
      rg_Agencies = [''mybas-seremban-a'', ''mybas-seremban-b'', ''mybas-melaka'']\<rparr>]"

text \<open>\<open>init\<close> builds the map from agencies to regions; a later region overwrites an earlier one.\<close>

definition agencyToRegion :: "(string, MapRegion) fmap" where
  "agencyToRegion = fold (\<lambda>r m. fold (\<lambda>a. fmupd a r) (rg_Agencies r) m) mapRegions fmempty"

definition DefaultRegion :: MapRegion where
  "DefaultRegion = hd mapRegions"

definition AllRegions :: "MapRegion list" where
  "AllRegions = mapRegions"

definition RegionByID :: "string \<Rightarrow> MapRegion result" where
  "RegionByID i =
     (case find (\<lambda>r. rg_ID r = i) mapRegions of
        Some r \<Rightarrow> Inr r
      | None \<Rightarrow> Inl (Errorf (''unknown region '' @ fmt_q i)))"

definition AgenciesForRegion :: "string \<Rightarrow> string list result" where
  "AgenciesForRegion i = (case RegionByID i of Inl e \<Rightarrow> Inl e | Inr r \<Rightarrow> Inr (rg_Agencies r))"

definition RegionForAgency :: "string \<Rightarrow> MapRegion option" where
  "RegionForAgency agency = fmlookup agencyToRegion agency"

definition FeedsForRegion :: "string \<Rightarrow> Feed list result" where
  "FeedsForRegion i =
     (case RegionByID i of Inl e \<Rightarrow> Inl e
      | Inr r \<Rightarrow> Inr (filter (\<lambda>f. fd_Agency f \<in> set (rg_Agencies r)) AllFeeds))"

text \<open>The inner loop of \<open>FeedsForRegions\<close> over one region's feeds, then the loop over the ids.\<close>

fun add_feeds :: "Feed list \<Rightarrow> string set \<times> Feed list \<Rightarrow> string set \<times> Feed list" where
  "add_feeds [] (seen, out) = (seen, out)"
| "add_feeds (f # fs) (seen, out) =
     (if fd_Agency f \<in> seen then add_feeds fs (seen, out)
      else add_feeds fs (insert (fd_Agency f) seen, out @ [f]))"

fun feeds_loop :: "string list \<Rightarrow> string set \<times> Feed list \<Rightarrow> Feed list result" where
  "feeds_loop [] acc = Inr (snd acc)"
| "feeds_loop (i # ids) acc =
     (case FeedsForRegion i of Inl e \<Rightarrow> Inl e | Inr fs \<Rightarrow> feeds_loop ids (add_feeds fs acc))"

definition FeedsForRegions :: "string list \<Rightarrow> Feed list result" where
  "FeedsForRegions ids = feeds_loop ids ({}, [])"

definition KLFeeds :: "Feed list" where
  "KLFeeds = (case FeedsForRegion DefaultRegionID of Inl _ \<Rightarrow> [] | Inr fs \<Rightarrow> fs)"

definition AgencyIDs :: "Feed list \<Rightarrow> string list" where
  "AgencyIDs feeds = map fd_Agency feeds"

definition AgencySet :: "string list \<Rightarrow> string set" where
  "AgencySet ids = set ids"

lemmas catalogue_defs = AllFeeds_def mapRegions_def prasarana_feed_def mybas_feed_def

section \<open>Facts about the catalogue\<close>

lemma feed_agencies_distinct: "distinct (map fd_Agency AllFeeds)"
  by code_simp

lemma region_ids_distinct: "distinct (map rg_ID mapRegions)"
  by code_simp

lemma region_agencies_partition:
  "distinct (concat (map rg_Agencies mapRegions)) \<and>
   set (concat (map rg_Agencies mapRegions)) = fd_Agency ` set AllFeeds"
proof
  show "distinct (concat (map rg_Agencies mapRegions))" by code_simp
  have "set (concat (map rg_Agencies mapRegions)) = set (map fd_Agency AllFeeds)" by code_simp
  then show "set (concat (map rg_Agencies mapRegions)) = fd_Agency ` set AllFeeds" by simp
qed

lemma feed_bucket_agencies:
  assumes "f \<in> set AllFeeds" and "r \<in> set mapRegions"
  shows "fd_Agency f \<in> set (rg_Agencies r) \<longleftrightarrow> fd_BucketID f = rg_ID r"
proof -
  have "list_all (\<lambda>f. list_all (\<lambda>r. fd_Agency f \<in> set (rg_Agencies r) \<longleftrightarrow> fd_BucketID f = rg_ID r) mapRegions) AllFeeds"
    by code_simp
  with assms show ?thesis by (simp add: list_all_iff)
qed

lemma feed_has_region: "f \<in> set AllFeeds \<Longrightarrow> \<exists>r\<in>set mapRegions. rg_ID r = fd_BucketID f"
proof -
  have "list_all (\<lambda>f. list_ex (\<lambda>r. rg_ID r = fd_BucketID f) mapRegions) AllFeeds"
    by code_simp
  then show "f \<in> set AllFeeds \<Longrightarrow> ?thesis" by (simp add: list_all_iff list_ex_iff)
qed

lemma RegionByID_Inr: "RegionByID i = Inr r \<longleftrightarrow> r \<in> set mapRegions \<and> rg_ID r = i"
proof
  assume "RegionByID i = Inr r"
  then show "r \<in> set mapRegions \<and> rg_ID r = i"
    by (auto simp: RegionByID_def find_Some_iff split: option.splits)
next
  assume r: "r \<in> set mapRegions \<and> rg_ID r = i"
  then obtain r' where r': "find (\<lambda>r. rg_ID r = i) mapRegions = Some r'"
    by (cases "find (\<lambda>r. rg_ID r = i) mapRegions") (auto simp: find_None_iff)
  then have "r' \<in> set mapRegions" "rg_ID r' = i" by (auto simp: find_Some_iff)
  with r have "r' = r" using region_ids_distinct
    by (metis (mono_tags, lifting) distinct_map inj_onD)
  with r' show "RegionByID i = Inr r" by (simp add: RegionByID_def)
qed

lemma RegionByID_Inl: "(\<exists>e. RegionByID i = Inl e) \<longleftrightarrow> i \<notin> rg_ID ` set mapRegions"
  by (cases "RegionByID i") (auto simp: RegionByID_Inr image_iff RegionByID_def find_None_iff find_Some_iff split: option.splits)

lemma FeedsForRegion_Inr:
  assumes "RegionByID i = Inr r"
  shows "FeedsForRegion i = Inr (filter (\<lambda>f. fd_BucketID f = i) AllFeeds)"
proof -
  have "r \<in> set mapRegions" "rg_ID r = i" using assms by (simp_all add: RegionByID_Inr)
  then have "filter (\<lambda>f. fd_Agency f \<in> set (rg_Agencies r)) AllFeeds = filter (\<lambda>f. fd_BucketID f = i) AllFeeds"
    by (intro filter_cong) (simp_all add: feed_bucket_agencies)
  with assms show ?thesis by (simp add: FeedsForRegion_def)
qed

lemma fold_fmupd_const: "fmlookup (fold (\<lambda>a. fmupd a r) as m) x = (if x \<in> set as then Some r else fmlookup m x)"
  by (induction as arbitrary: m) auto

lemma agencyToRegion_fold:
  "distinct (concat (map rg_Agencies rs)) \<Longrightarrow>
   fmlookup (fold (\<lambda>r m. fold (\<lambda>a. fmupd a r) (rg_Agencies r) m) rs m) a = Some r \<longleftrightarrow>
     (r \<in> set rs \<and> a \<in> set (rg_Agencies r)) \<or>
     (fmlookup m a = Some r \<and> (\<forall>r'\<in>set rs. a \<notin> set (rg_Agencies r')))"
  by (induction rs arbitrary: m) (auto simp: fold_fmupd_const)

lemma RegionForAgency_Some:
  "RegionForAgency a = Some r \<longleftrightarrow> r \<in> set mapRegions \<and> a \<in> set (rg_Agencies r)"
  using agencyToRegion_fold [of mapRegions fmempty a r] region_agencies_partition
  by (simp add: RegionForAgency_def agencyToRegion_def)

text \<open>The regions partition the agencies of the fifteen feeds: every feed's agency belongs to
  exactly the region its bucket id names, and looking the agency up gives that region.\<close>

lemma feed_region_consistent:
  "length AllFeeds = 15 \<and> distinct (AgencyIDs AllFeeds) \<and> distinct (map rg_ID AllRegions) \<and>
   (\<forall>a. a \<in> set (AgencyIDs AllFeeds) \<longleftrightarrow> (\<exists>r. RegionForAgency a = Some r)) \<and>
   list_all (\<lambda>f. map_option rg_ID (RegionForAgency (fd_Agency f)) = Some (fd_BucketID f)) AllFeeds"
proof -
  have len: "length AllFeeds = 15" by (simp add: AllFeeds_def)
  have region: "\<exists>r. RegionForAgency (fd_Agency f) = Some r \<and> rg_ID r = fd_BucketID f" if "f \<in> set AllFeeds" for f
    using feed_has_region [OF that] feed_bucket_agencies [OF that] by (auto simp: RegionForAgency_Some)
  have "\<exists>f\<in>set AllFeeds. fd_Agency f = a" if "RegionForAgency a = Some r" for a r
  proof -
    have "a \<in> set (concat (map rg_Agencies mapRegions))" using that by (auto simp: RegionForAgency_Some)
    then have "a \<in> fd_Agency ` set AllFeeds" by (simp only: region_agencies_partition)
    then show ?thesis by auto
  qed
  then show ?thesis
    using len region feed_agencies_distinct region_ids_distinct
    by (auto simp: AgencyIDs_def AllRegions_def list_all_iff) force
qed

text \<open>The feeds of a region are exactly the feeds of its bucket, in catalogue order; an id that
  names no region is an error.\<close>

lemma FeedsForRegion_spec:
  "FeedsForRegion i =
     (if i \<in> rg_ID ` set AllRegions then Inr (filter (\<lambda>f. fd_BucketID f = i) AllFeeds)
      else Inl (Errorf (''unknown region '' @ fmt_q i)))"
proof (cases "RegionByID i")
  case (Inl e)
  then have "i \<notin> rg_ID ` set mapRegions" using RegionByID_Inl by blast
  with Inl show ?thesis
    by (auto simp: FeedsForRegion_def AllRegions_def RegionByID_def split: option.splits)
next
  case (Inr r)
  then have "i \<in> rg_ID ` set mapRegions" by (auto simp: RegionByID_Inr)
  with Inr show ?thesis by (simp add: FeedsForRegion_Inr AllRegions_def)
qed

lemma add_feeds_inv:
  assumes "add_feeds fs (fd_Agency ` set out, out) = (seen', out')" and "distinct (map fd_Agency out)"
  shows "seen' = fd_Agency ` set out' \<and> distinct (map fd_Agency out') \<and>
    fd_Agency ` set out' = fd_Agency ` set out \<union> fd_Agency ` set fs \<and> set out' \<subseteq> set out \<union> set fs"
  using assms
proof (induction fs arbitrary: out)
  case Nil
  then show ?case by auto
next
  case (Cons f fs)
  show ?case
  proof (cases "fd_Agency f \<in> fd_Agency ` set out")
    case True
    then have "add_feeds fs (fd_Agency ` set out, out) = (seen', out')" using Cons.prems by simp
    from Cons.IH [OF this Cons.prems(2)] True show ?thesis by auto
  next
    case False
    then have "add_feeds fs (fd_Agency ` set (out @ [f]), out @ [f]) = (seen', out')"
      using Cons.prems by simp
    moreover have "distinct (map fd_Agency (out @ [f]))" using False Cons.prems(2) by simp
    ultimately show ?thesis using Cons.IH [of "out @ [f]"] by auto
  qed
qed

lemma feeds_loop_inv:
  assumes "feeds_loop ids (fd_Agency ` set out, out) = Inr out'"
    and "distinct (map fd_Agency out)"
  shows "distinct (map fd_Agency out') \<and>
    fd_Agency ` set out' = fd_Agency ` set out \<union> {fd_Agency f | f. f \<in> set AllFeeds \<and> fd_BucketID f \<in> set ids} \<and>
    set out' \<subseteq> set out \<union> set AllFeeds"
  using assms
proof (induction ids arbitrary: out)
  case Nil
  then show ?case by auto
next
  case (Cons i ids)
  then obtain r where r: "RegionByID i = Inr r"
    by (cases "RegionByID i") (auto simp: FeedsForRegion_def)
  let ?fs = "filter (\<lambda>f. fd_BucketID f = i) AllFeeds"
  obtain seen1 out1 where s1: "add_feeds ?fs (fd_Agency ` set out, out) = (seen1, out1)" by force
  note inv = add_feeds_inv [OF s1 Cons.prems(2)]
  have "feeds_loop ids (fd_Agency ` set out1, out1) = Inr out'"
    using Cons.prems(1) s1 inv by (simp add: FeedsForRegion_Inr [OF r])
  from Cons.IH [OF this] inv show ?case by auto
qed

lemma feeds_loop_Inl: "(\<exists>e. feeds_loop ids acc = Inl e) \<longleftrightarrow> \<not> set ids \<subseteq> rg_ID ` set mapRegions"
proof (induction ids arbitrary: acc)
  case (Cons i ids)
  show ?case
  proof (cases "RegionByID i")
    case (Inl e)
    then show ?thesis using RegionByID_Inl [of i] by (auto simp: FeedsForRegion_def)
  next
    case (Inr r)
    then show ?thesis using Cons.IH by (auto simp: FeedsForRegion_Inr RegionByID_Inr)
  qed
qed simp

text \<open>The feeds for several regions are the union of the regions' feeds, each agency once, and
  the result is an error exactly when one of the ids names no region.\<close>

lemma FeedsForRegions_union:
  "case FeedsForRegions ids of
     Inl _ \<Rightarrow> \<not> set ids \<subseteq> rg_ID ` set AllRegions
   | Inr fs \<Rightarrow> set ids \<subseteq> rg_ID ` set AllRegions \<and> distinct (AgencyIDs fs) \<and>
       set fs = {f \<in> set AllFeeds. fd_BucketID f \<in> set ids}"
proof (cases "FeedsForRegions ids")
  case (Inl e)
  then show ?thesis
    using feeds_loop_Inl [of ids "({}, [])"] by (auto simp: FeedsForRegions_def AllRegions_def)
next
  case (Inr fs)
  then have "feeds_loop ids (fd_Agency ` set [], []) = Inr fs" by (simp add: FeedsForRegions_def)
  note inv = feeds_loop_inv [OF this]
  have sub: "set ids \<subseteq> rg_ID ` set mapRegions"
    using Inr feeds_loop_Inl [of ids "({}, [])"] by (auto simp: FeedsForRegions_def)
  have inj: "inj_on fd_Agency (set AllFeeds)"
    using feed_agencies_distinct by (simp add: distinct_map)
  have "fd_Agency ` set fs = fd_Agency ` {f \<in> set AllFeeds. fd_BucketID f \<in> set ids}"
    using inv by auto
  then have "set fs = {f \<in> set AllFeeds. fd_BucketID f \<in> set ids}"
    using inv by (intro inj_on_image_eq_iff [OF inj, THEN iffD1]) auto
  with Inr inv sub show ?thesis by (simp add: AgencyIDs_def AllRegions_def)
qed

end
