(* ===== verification/Demo_Session.thy ===== *)
theory Demo_Session
  imports Gtfs_Regions Go_Json
begin

text \<open>
  \<open>internal/demo/session.go\<close>, with \<open>NormalizePollSeconds\<close> and \<open>RegionViewerCounts\<close> of
  \<open>internal/demo/poll.go\<close>: the store of browser sessions, their region and poll interval, and the
  live viewers.

  The store is a record; its file on disk is the field \<open>st_Disk\<close>. Each operation takes the
  clock it reads and, where it persists, what the file system answers (\<open>persist_env\<close>). All
  readings of the clock within one operation are the same instant.
\<close>

section \<open>Poll intervals\<close>

definition DefaultPollSeconds :: int where "DefaultPollSeconds = 10"
definition DefaultPollInterval :: duration where "DefaultPollInterval = DefaultPollSeconds * second"
definition PollTickInterval :: duration where "PollTickInterval = 10 * second"
definition AllowedPollSeconds :: "int list" where "AllowedPollSeconds = [10, 20, 30]"

definition NormalizePollSeconds :: "int \<Rightarrow> int result" where
  "NormalizePollSeconds seconds =
     (case List.find (\<lambda>n. n = seconds) AllowedPollSeconds of
        Some n \<Rightarrow> Inr n
      | None \<Rightarrow> Inl (Errorf ''poll interval must be 10, 20, or 30 seconds''))"

section \<open>The store\<close>

definition DefaultSessionStorePath :: string where "DefaultSessionStorePath = ''data/demo-sessions.json''"
definition SessionCookieName :: string where "SessionCookieName = ''demo_sid''"
definition SessionIdleTTL :: duration where [go_consts]: "SessionIdleTTL = 5 * minute"
definition SessionHeartbeatInterval :: duration where [go_consts]: "SessionHeartbeatInterval = minute"

record sessionState =
  ss_Region :: string
  ss_PollSeconds :: int
  ss_LastSeen :: time

record SessionStore =
  st_sessions :: "(string, sessionState) fmap"
  st_live :: "(string, int) fmap"
  st_path :: string
  st_Disk :: "json option"      \<comment> \<open>the contents of the file at \<open>path\<close>\<close>

record persist_env =
  pe_MkdirAll :: "goerror option"
  pe_WriteFile :: "goerror option"
  pe_Rename :: "goerror option"

definition NewSessionStore :: "json option \<Rightarrow> SessionStore" where
  "NewSessionStore disk = \<lparr>st_sessions = fmempty, st_live = fmempty, st_path = [], st_Disk = disk\<rparr>"

definition storedPollSeconds :: "int \<Rightarrow> int" where
  "storedPollSeconds n = (case NormalizePollSeconds n of Inr v \<Rightarrow> v | Inl _ \<Rightarrow> DefaultPollSeconds)"

definition sessionExpired :: "sessionState \<Rightarrow> time \<Rightarrow> bool" where
  "sessionExpired st now = (if time_IsZero (ss_LastSeen st) then True else time_Sub now (ss_LastSeen st) \<ge> SessionIdleTTL)"

definition sessionState_zero :: sessionState where
  "sessionState_zero = \<lparr>ss_Region = [], ss_PollSeconds = 0, ss_LastSeen = time_zero\<rparr>"

definition sessionState_json :: "sessionState \<Rightarrow> json result" where
  "sessionState_json st = json_object
     [mem_string ''region'' (ss_Region st), mem_int_omit ''pollSeconds'' (ss_PollSeconds st),
      mem_time ''lastSeen'' (ss_LastSeen st)]"

definition sessionState_fields :: "string \<Rightarrow> sessionState field_decoder option" where
  "sessionState_fields n =
     (if n = ''region'' then Some (dec_string (\<lambda>x st. st\<lparr>ss_Region := x\<rparr>))
      else if n = ''pollSeconds'' then Some (dec_int (\<lambda>x st. st\<lparr>ss_PollSeconds := x\<rparr>))
      else if n = ''lastSeen'' then Some (dec_time (\<lambda>x st. st\<lparr>ss_LastSeen := x\<rparr>))
      else None)"

text \<open>A value is either the region alone, the older form, or an object.\<close>

definition parseSessionValue :: "json \<Rightarrow> sessionState option" where
  "parseSessionValue raw =
     (let as_object =
        (case decode_struct sessionState_fields sessionState_zero raw of
           Inl _ \<Rightarrow> None
         | Inr st \<Rightarrow> (if ss_Region st = [] then None
             else Some (st\<lparr>ss_PollSeconds := storedPollSeconds (ss_PollSeconds st)\<rparr>)))
      in case dec_string (\<lambda>x _. x) raw [] of
           Inr asString \<Rightarrow>
             (if asString \<noteq> [] then Some \<lparr>ss_Region = asString, ss_PollSeconds = DefaultPollSeconds, ss_LastSeen = time_zero\<rparr>
              else as_object)
         | Inl _ \<Rightarrow> as_object)"

definition sessionFile_fields :: "string \<Rightarrow> (string, json) fmap field_decoder option" where
  "sessionFile_fields n =
     (if n = ''sessions'' then
        Some (\<lambda>j m. case j of JObject ms \<Rightarrow> Inr (fold (\<lambda>(k, v). fmupd k v) ms m)
                    | JNull \<Rightarrow> Inr m | _ \<Rightarrow> Inl json_type_error)
      else None)"

text \<open>The loop over the sessions of the file; the keys are distinct, so its order plays no part.\<close>

definition load_session :: "time \<Rightarrow> string \<times> json \<Rightarrow> (string, sessionState) fmap \<Rightarrow> (string, sessionState) fmap" where
  "load_session now entry m =
     (case parseSessionValue (snd entry) of None \<Rightarrow> m
      | Some st \<Rightarrow>
          (case RegionByID (ss_Region st) of Inl _ \<Rightarrow> m
           | Inr _ \<Rightarrow> (if sessionExpired st now then m else fmupd (fst entry) st m)))"

text \<open>What reading the file gives: an error, or its contents, where \<open>None\<close> is an empty file and
  \<open>Inl\<close> a text that is not JSON.\<close>

type_synonym file_read = "json result option result"

definition SessionStore_load :: "file_read \<Rightarrow> time \<Rightarrow> SessionStore \<Rightarrow> goerror option \<times> SessionStore" where
  "SessionStore_load file now s =
     (if st_path s = [] then (None, s)
      else (case file of
              Inl e \<Rightarrow> (if errors_Is e NotExist then (None, s) else (Some e, s))
            | Inr None \<Rightarrow> (None, s)
            | Inr (Some (Inl e)) \<Rightarrow> (Some e, s)
            | Inr (Some (Inr doc)) \<Rightarrow>
                (case decode_struct sessionFile_fields fmempty doc of
                   Inl e \<Rightarrow> (Some e, s)
                 | Inr raws \<Rightarrow>
                     (None, s\<lparr>st_sessions := fold (load_session now) (sorted_list_of_fmap raws) (st_sessions s)\<rparr>))))"

definition OpenSessionStore :: "file_read \<Rightarrow> json option \<Rightarrow> string \<Rightarrow> time \<Rightarrow> SessionStore result" where
  "OpenSessionStore file disk path now =
     (case SessionStore_load file now \<lparr>st_sessions = fmempty, st_live = fmempty, st_path = path, st_Disk = disk\<rparr> of
        (Some e, _) \<Rightarrow> Inl e
      | (None, s) \<Rightarrow> Inr s)"

definition pruneExpiredLocked :: "time \<Rightarrow> SessionStore \<Rightarrow> bool \<times> SessionStore" where
  "pruneExpiredLocked now s =
     (fBex (fmdom (st_sessions s)) (\<lambda>sid. case fmlookup (st_sessions s) sid of None \<Rightarrow> False | Some st \<Rightarrow> sessionExpired st now),
      s\<lparr>st_sessions := fmfilter (\<lambda>sid. case fmlookup (st_sessions s) sid of None \<Rightarrow> False
                                         | Some st \<Rightarrow> \<not> sessionExpired st now) (st_sessions s)\<rparr>)"

definition persisted_state :: "sessionState \<Rightarrow> sessionState" where
  "persisted_state st = (if ss_PollSeconds st = 0 then st\<lparr>ss_PollSeconds := DefaultPollSeconds\<rparr> else st)"

definition sessions_json :: "(string, sessionState) fmap \<Rightarrow> json result" where
  "sessions_json m = json_object [mem_json ''sessions'' (json_object
     (map (\<lambda>(sid, st). mem_json sid (sessionState_json (persisted_state st))) (sorted_list_of_fmap m)))]"

definition persistLocked :: "persist_env \<Rightarrow> SessionStore \<Rightarrow> goerror option \<times> SessionStore" where
  "persistLocked pe s =
     (if st_path s = [] then (None, s)
      else (case pe_MkdirAll pe of Some e \<Rightarrow> (Some e, s)
      | None \<Rightarrow> (case sessions_json (st_sessions s) of Inl e \<Rightarrow> (Some e, s)
      | Inr doc \<Rightarrow> (case pe_WriteFile pe of Some e \<Rightarrow> (Some e, s)
      | None \<Rightarrow> (case pe_Rename pe of Some e \<Rightarrow> (Some e, s)
      | None \<Rightarrow> (None, s\<lparr>st_Disk := Some doc\<rparr>))))))"

section \<open>Operations\<close>

definition defaultState :: "time \<Rightarrow> sessionState" where
  "defaultState now = \<lparr>ss_Region = DefaultRegionID, ss_PollSeconds = DefaultPollSeconds, ss_LastSeen = now\<rparr>"

definition stateLocked :: "time \<Rightarrow> SessionStore \<Rightarrow> string \<Rightarrow> sessionState" where
  "stateLocked now s sessionID =
     (case fmlookup (st_sessions s) sessionID of
        Some st \<Rightarrow> (if ss_PollSeconds st = 0 then st\<lparr>ss_PollSeconds := DefaultPollSeconds\<rparr> else st)
      | None \<Rightarrow> defaultState now)"

text \<open>Prune the idle sessions and, if any was removed, persist; errors of the latter are dropped.\<close>

definition prune_persist :: "persist_env \<Rightarrow> time \<Rightarrow> SessionStore \<Rightarrow> SessionStore" where
  "prune_persist pe now s =
     (case pruneExpiredLocked now s of (pruned, s') \<Rightarrow> (if pruned then snd (persistLocked pe s') else s'))"

definition Touch :: "persist_env \<Rightarrow> time \<Rightarrow> string \<Rightarrow> SessionStore \<Rightarrow> SessionStore" where
  "Touch pe now sessionID s =
     (if sessionID = [] then s
      else
        (let known = fmlookup (st_sessions s) sessionID;
             st = (case known of Some st \<Rightarrow> st | None \<Rightarrow> defaultState now)\<lparr>ss_LastSeen := now\<rparr>;
             s1 = s\<lparr>st_sessions := fmupd sessionID st (st_sessions s)\<rparr>
         in case pruneExpiredLocked now s1 of (pruned, s2) \<Rightarrow>
              (if known = None \<or> pruned then snd (persistLocked pe s2) else s2)))"

definition live_count :: "SessionStore \<Rightarrow> string \<Rightarrow> int" where
  "live_count s sessionID = (case fmlookup (st_live s) sessionID of None \<Rightarrow> 0 | Some n \<Rightarrow> n)"

definition AcquireLive :: "string \<Rightarrow> SessionStore \<Rightarrow> SessionStore" where
  "AcquireLive sessionID s =
     (if sessionID = [] then s else s\<lparr>st_live := fmupd sessionID (live_count s sessionID + 1) (st_live s)\<rparr>)"

definition ReleaseLive :: "string \<Rightarrow> SessionStore \<Rightarrow> SessionStore" where
  "ReleaseLive sessionID s =
     (if sessionID = [] then s
      else let n = live_count s sessionID - 1 in
        if n \<le> 0 then s\<lparr>st_live := fmdrop sessionID (st_live s)\<rparr>
        else s\<lparr>st_live := fmupd sessionID n (st_live s)\<rparr>)"

text \<open>The loop of \<open>LiveRegionIDs\<close> over the live map, with the regions seen so far.\<close>

fun live_regions :: "(string, sessionState) fmap \<Rightarrow> time \<Rightarrow> (string \<times> int) list \<Rightarrow> string set \<Rightarrow> string list" where
  "live_regions m now [] seen = []"
| "live_regions m now ((sid, n) # rest) seen =
     (if n \<le> 0 then live_regions m now rest seen
      else case fmlookup m sid of
        None \<Rightarrow> live_regions m now rest seen
      | Some st \<Rightarrow>
          (if ss_Region st = [] \<or> sessionExpired st now \<or> ss_Region st \<in> seen then live_regions m now rest seen
           else ss_Region st # live_regions m now rest (insert (ss_Region st) seen)))"

definition LiveRegionIDs :: "persist_env \<Rightarrow> time \<Rightarrow> string list \<Rightarrow> SessionStore \<Rightarrow> string list \<times> SessionStore" where
  "LiveRegionIDs pe now order s =
     (let s' = prune_persist pe now s
      in (live_regions (st_sessions s') now (range_entries order (st_live s')) {}, s'))"

definition SessionStore_Region :: "persist_env \<Rightarrow> time \<Rightarrow> string \<Rightarrow> SessionStore \<Rightarrow> string \<times> SessionStore" where
  "SessionStore_Region pe now sessionID s =
     (let s' = prune_persist pe now s in (ss_Region (stateLocked now s' sessionID), s'))"

definition SetRegion :: "persist_env \<Rightarrow> time \<Rightarrow> string \<Rightarrow> string \<Rightarrow> SessionStore \<Rightarrow> goerror option \<times> SessionStore" where
  "SetRegion pe now sessionID regionID s =
     (case RegionByID regionID of
        Inl e \<Rightarrow> (Some e, s)
      | Inr _ \<Rightarrow>
          (let st = (stateLocked now s sessionID)\<lparr>ss_Region := regionID, ss_LastSeen := now\<rparr>
           in persistLocked pe (snd (pruneExpiredLocked now (s\<lparr>st_sessions := fmupd sessionID st (st_sessions s)\<rparr>)))))"

definition SessionStore_PollSeconds :: "persist_env \<Rightarrow> time \<Rightarrow> string \<Rightarrow> SessionStore \<Rightarrow> int \<times> SessionStore" where
  "SessionStore_PollSeconds pe now sessionID s =
     (let s' = prune_persist pe now s in (ss_PollSeconds (stateLocked now s' sessionID), s'))"

definition SetPollSeconds :: "persist_env \<Rightarrow> time \<Rightarrow> string \<Rightarrow> int \<Rightarrow> SessionStore \<Rightarrow> goerror option \<times> SessionStore" where
  "SetPollSeconds pe now sessionID seconds s =
     (case NormalizePollSeconds seconds of
        Inl e \<Rightarrow> (Some e, s)
      | Inr n \<Rightarrow>
          (let st = (stateLocked now s sessionID)\<lparr>ss_PollSeconds := n, ss_LastSeen := now\<rparr>
           in persistLocked pe (snd (pruneExpiredLocked now (s\<lparr>st_sessions := fmupd sessionID st (st_sessions s)\<rparr>)))))"

fun min_interval :: "(string, sessionState) fmap \<Rightarrow> string \<Rightarrow> (string \<times> int) list \<Rightarrow> duration \<Rightarrow> duration" where
  "min_interval m regionID [] mn = mn"
| "min_interval m regionID ((sid, n) # rest) mn =
     (if n \<le> 0 then min_interval m regionID rest mn
      else case fmlookup m sid of
        None \<Rightarrow> min_interval m regionID rest mn
      | Some st \<Rightarrow>
          (if ss_Region st \<noteq> regionID then min_interval m regionID rest mn
           else let d = storedPollSeconds (ss_PollSeconds st) * second
                in min_interval m regionID rest (if mn = 0 \<or> d < mn then d else mn)))"

definition MinPollIntervalForRegion ::
  "persist_env \<Rightarrow> time \<Rightarrow> string list \<Rightarrow> string \<Rightarrow> SessionStore \<Rightarrow> duration \<times> SessionStore" where
  "MinPollIntervalForRegion pe now order regionID s =
     (let s' = prune_persist pe now s
      in (min_interval (st_sessions s') regionID (range_entries order (st_live s')) 0, s'))"

fun distinct_regions :: "sessionState list \<Rightarrow> string set \<Rightarrow> string list" where
  "distinct_regions [] seen = []"
| "distinct_regions (st # sts) seen =
     (if ss_Region st \<in> seen then distinct_regions sts seen
      else ss_Region st # distinct_regions sts (insert (ss_Region st) seen))"

definition ActiveRegionIDs :: "persist_env \<Rightarrow> time \<Rightarrow> string list \<Rightarrow> SessionStore \<Rightarrow> string list \<times> SessionStore" where
  "ActiveRegionIDs pe now order s =
     (let s' = prune_persist pe now s in (distinct_regions (range_values order (st_sessions s')) {}, s'))"

definition RegionViewerCounts :: "persist_env \<Rightarrow> time \<Rightarrow> string list \<Rightarrow> SessionStore \<Rightarrow> (string, int) fmap \<times> SessionStore" where
  "RegionViewerCounts pe now order s =
     (let s' = prune_persist pe now s
      in (fold (\<lambda>st m. fmupd (ss_Region st) ((case fmlookup m (ss_Region st) of None \<Rightarrow> 0 | Some n \<Rightarrow> n) + 1) m)
            (range_values order (st_sessions s')) fmempty, s'))"

definition FeedsToPoll :: "persist_env \<Rightarrow> time \<Rightarrow> string list \<Rightarrow> SessionStore \<Rightarrow> Feed list result \<times> SessionStore" where
  "FeedsToPoll pe now order s = map_prod FeedsForRegions id (LiveRegionIDs pe now order s)"

definition MapRegion_zero :: MapRegion where
  "MapRegion_zero = \<lparr>rg_ID = [], rg_Label = [], rg_Center = (0, 0), rg_Zoom = 0, rg_Agencies = []\<rparr>"

definition ActiveRegion :: "persist_env \<Rightarrow> time \<Rightarrow> string \<Rightarrow> SessionStore \<Rightarrow> MapRegion \<times> SessionStore" where
  "ActiveRegion pe now sessionID s =
     map_prod (\<lambda>r. case RegionByID r of Inr g \<Rightarrow> g | Inl _ \<Rightarrow> MapRegion_zero) id (SessionStore_Region pe now sessionID s)"

definition ActiveFeeds :: "persist_env \<Rightarrow> time \<Rightarrow> string \<Rightarrow> SessionStore \<Rightarrow> Feed list result \<times> SessionStore" where
  "ActiveFeeds pe now sessionID s = map_prod FeedsForRegion id (SessionStore_Region pe now sessionID s)"

definition ActiveAgencies :: "persist_env \<Rightarrow> time \<Rightarrow> string \<Rightarrow> SessionStore \<Rightarrow> string set result \<times> SessionStore" where
  "ActiveAgencies pe now sessionID s =
     map_prod (\<lambda>r. map_sum id AgencySet (AgenciesForRegion r)) id (SessionStore_Region pe now sessionID s)"

section \<open>What the operations change\<close>

lemma persist_keeps [simp]:
  "st_sessions (snd (persistLocked pe s)) = st_sessions s"
  "st_live (snd (persistLocked pe s)) = st_live s"
  "st_path (snd (persistLocked pe s)) = st_path s"
  by (auto simp: persistLocked_def split: option.splits sum.splits)

lemma prune_lookup [simp]:
  "fmlookup (st_sessions (snd (pruneExpiredLocked now s))) sid =
     (case fmlookup (st_sessions s) sid of None \<Rightarrow> None | Some st \<Rightarrow> (if sessionExpired st now then None else Some st))"
  by (simp add: pruneExpiredLocked_def split: option.splits)

lemma prune_keeps [simp]:
  "st_live (snd (pruneExpiredLocked now s)) = st_live s" "st_path (snd (pruneExpiredLocked now s)) = st_path s"
  by (simp_all add: pruneExpiredLocked_def)

lemma prune_persist_lookup [simp]:
  "fmlookup (st_sessions (prune_persist pe now s)) sid =
     (case fmlookup (st_sessions s) sid of None \<Rightarrow> None | Some st \<Rightarrow> (if sessionExpired st now then None else Some st))"
  by (simp add: prune_persist_def case_prod_beta)

lemma prune_persist_live [simp]: "st_live (prune_persist pe now s) = st_live s"
  by (simp add: prune_persist_def case_prod_beta)

lemma fresh_not_expired: "now \<noteq> time_zero \<Longrightarrow> \<not> sessionExpired (st\<lparr>ss_LastSeen := now\<rparr>) now"
  by (simp add: sessionExpired_def time_IsZero_def time_Sub_def go_consts)

section \<open>The invariant\<close>

text \<open>A stored session names a known region and an allowed interval; a live count is positive.\<close>

definition session_ok :: "sessionState \<Rightarrow> bool" where
  "session_ok st \<longleftrightarrow> ss_Region st \<in> set (map rg_ID mapRegions) \<and> ss_PollSeconds st \<in> set AllowedPollSeconds"

definition session_inv :: "SessionStore \<Rightarrow> bool" where
  "session_inv s \<longleftrightarrow> fmpred (\<lambda>_. session_ok) (st_sessions s) \<and> fmpred (\<lambda>_ n. 0 < n) (st_live s)"

lemma RegionByID_known: "RegionByID r = Inr g \<Longrightarrow> r \<in> set (map rg_ID mapRegions)"
  by (auto simp: RegionByID_def find_Some_iff split: option.splits)

lemma NormalizePollSeconds_allowed: "NormalizePollSeconds n = Inr v \<longleftrightarrow> v = n \<and> n \<in> set AllowedPollSeconds"
  by (auto simp: NormalizePollSeconds_def AllowedPollSeconds_def)

lemma storedPollSeconds_allowed: "storedPollSeconds n \<in> set AllowedPollSeconds"
  by (auto simp: storedPollSeconds_def NormalizePollSeconds_def AllowedPollSeconds_def DefaultPollSeconds_def)

lemma storedPollSeconds_id: "n \<in> set AllowedPollSeconds \<Longrightarrow> storedPollSeconds n = n"
  by (auto simp: storedPollSeconds_def NormalizePollSeconds_def AllowedPollSeconds_def)

lemma default_known: "DefaultRegionID \<in> set (map rg_ID mapRegions)"
  by code_simp

lemma default_ok: "session_ok (defaultState now)"
  using default_known by (simp add: session_ok_def defaultState_def AllowedPollSeconds_def DefaultPollSeconds_def)

lemma session_ok_seen [simp]: "session_ok (st\<lparr>ss_LastSeen := t\<rparr>) = session_ok st"
  by (simp add: session_ok_def)

lemma stateLocked_ok: "session_inv s \<Longrightarrow> session_ok (stateLocked now s sid)"
  by (auto simp: session_inv_def stateLocked_def default_ok fmpred_iff split: option.splits)
    (auto simp: session_ok_def AllowedPollSeconds_def DefaultPollSeconds_def)

lemma parseSessionValue_allowed: "parseSessionValue raw = Some st \<Longrightarrow> ss_PollSeconds st \<in> set AllowedPollSeconds"
  using storedPollSeconds_allowed
  by (auto simp: parseSessionValue_def Let_def split: sum.splits if_splits)
    (simp_all add: AllowedPollSeconds_def DefaultPollSeconds_def)

lemma load_sessions_ok:
  "fmpred (\<lambda>_. session_ok) m \<Longrightarrow> fmpred (\<lambda>_. session_ok) (fold (load_session now) entries m)"
proof (induction entries arbitrary: m)
  case (Cons en entries)
  have "session_ok st" if "parseSessionValue (snd en) = Some st" "RegionByID (ss_Region st) = Inr g" for st g
    using parseSessionValue_allowed [OF that(1)] RegionByID_known [OF that(2)] by (simp add: session_ok_def)
  then have "fmpred (\<lambda>_. session_ok) (load_session now en m)"
    using Cons.prems by (auto simp: load_session_def fmpred_iff split: option.splits sum.splits)
  then show ?case by (simp add: Cons.IH)
qed simp

text \<open>The operations on a store, as steps.\<close>

inductive session_step :: "SessionStore \<Rightarrow> SessionStore \<Rightarrow> bool" where
  step_touch: "session_step s (Touch pe now sid s)"
| step_acquire: "session_step s (AcquireLive sid s)"
| step_release: "session_step s (ReleaseLive sid s)"
| step_read: "session_step s (prune_persist pe now s)"
| step_region: "session_step s (snd (SetRegion pe now sid rid s))"
| step_poll: "session_step s (snd (SetPollSeconds pe now sid n s))"

inductive session_reach :: "SessionStore \<Rightarrow> bool" where
  reach_new: "session_reach (NewSessionStore disk)"
| reach_open: "OpenSessionStore file disk path now = Inr s \<Longrightarrow> session_reach s"
| reach_step: "session_reach s \<Longrightarrow> session_step s s' \<Longrightarrow> session_reach s'"

lemma prune_inv: "session_inv s \<Longrightarrow> session_inv (snd (pruneExpiredLocked now s))"
  by (auto simp: session_inv_def fmpred_iff split: option.splits if_splits)

lemma persist_inv: "session_inv (snd (persistLocked pe s)) = session_inv s"
  by (simp add: session_inv_def)

lemma update_inv: "session_inv s \<Longrightarrow> session_ok st \<Longrightarrow> session_inv (s\<lparr>st_sessions := fmupd sid st (st_sessions s)\<rparr>)"
  by (auto simp: session_inv_def fmpred_iff)

lemma Touch_inv:
  assumes "session_inv s"
  shows "session_inv (Touch pe now sid s)"
proof -
  define st where "st = (case fmlookup (st_sessions s) sid of Some st \<Rightarrow> st | None \<Rightarrow> defaultState now)\<lparr>ss_LastSeen := now\<rparr>"
  have "session_ok st"
    using assms default_ok by (auto simp: st_def session_inv_def fmpred_iff split: option.splits)
  with assms have "session_inv (snd (pruneExpiredLocked now (s\<lparr>st_sessions := fmupd sid st (st_sessions s)\<rparr>)))"
    by (intro prune_inv update_inv)
  then show ?thesis
    using assms by (auto simp: Touch_def Let_def st_def [symmetric] persist_inv split: prod.splits)
qed

lemma session_step_inv: "session_step s s' \<Longrightarrow> session_inv s \<Longrightarrow> session_inv s'"
proof (induction rule: session_step.induct)
  case (step_touch s pe now sid)
  then show ?case by (rule Touch_inv)
next
  case (step_read s pe now)
  then show ?case
    using prune_inv [of s now] by (auto simp: prune_persist_def persist_inv split: prod.splits)
next
  case (step_region s pe now sid rid)
  have "session_ok ((stateLocked now s sid)\<lparr>ss_Region := rid, ss_LastSeen := now\<rparr>)" if "RegionByID rid = Inr g" for g
    using stateLocked_ok [OF step_region, of now sid] RegionByID_known [OF that] by (simp add: session_ok_def)
  then show ?case
    using step_region by (auto simp: SetRegion_def Let_def persist_inv intro!: prune_inv update_inv split: sum.splits)
next
  case (step_poll s pe now sid n)
  have "session_ok ((stateLocked now s sid)\<lparr>ss_PollSeconds := v, ss_LastSeen := now\<rparr>)" if "NormalizePollSeconds n = Inr v" for v
    using stateLocked_ok [OF step_poll, of now sid] that by (simp add: session_ok_def NormalizePollSeconds_allowed)
  then show ?case
    using step_poll by (auto simp: SetPollSeconds_def Let_def persist_inv intro!: prune_inv update_inv split: sum.splits)
next
  case (step_acquire s sid)
  then have "0 \<le> live_count s sid"
    by (auto simp: live_count_def session_inv_def fmpred_iff intro: less_imp_le split: option.splits)
  with step_acquire show ?case
    by (auto simp: AcquireLive_def session_inv_def fmpred_iff)
next
  case (step_release s sid)
  then show ?case
    by (auto simp: ReleaseLive_def session_inv_def Let_def fmpred_iff)
qed

lemma reach_inv: "session_reach s \<Longrightarrow> session_inv s"
proof (induction rule: session_reach.induct)
  case (reach_open f disk path now s)
  then show ?case
    using load_sessions_ok [of fmempty now]
    by (auto simp: OpenSessionStore_def SessionStore_load_def session_inv_def split: if_splits sum.splits option.splits)
next
  case (reach_step s s')
  then show ?case using session_step_inv by blast
qed (simp add: NewSessionStore_def session_inv_def)

text \<open>C16: in every reachable session store, whatever was in the file it was opened from and however
  persisting failed, each session names a known region and one of the allowed intervals, and each
  live count is positive.\<close>

theorem session_reach_inv:
  assumes "session_reach s"
  shows "fmpred (\<lambda>_ st. ss_Region st \<in> set (map rg_ID mapRegions) \<and> ss_PollSeconds st \<in> set AllowedPollSeconds) (st_sessions s) \<and>
    fmpred (\<lambda>_ n. 0 < n) (st_live s)"
  using reach_inv [OF assms] by (simp add: session_inv_def session_ok_def [abs_def])

definition disk_ok :: persist_env where
  "disk_ok = \<lparr>pe_MkdirAll = None, pe_WriteFile = None, pe_Rename = None\<rparr>"

definition sample_store :: SessionStore where
  "sample_store = AcquireLive ''b'' (snd (SetRegion disk_ok (8 * second) ''b'' ''penang''
     (AcquireLive ''a'' (Touch disk_ok (7 * second) ''a'' (NewSessionStore None)))))"

lemma sample_store_reach: "session_reach sample_store"
  unfolding sample_store_def 
  by (rule reach_step [OF reach_step [OF reach_step [OF reach_step [OF reach_new step_touch] step_acquire] step_region] step_acquire])

theorem session_reach_inv_witness:
  "fmpred (\<lambda>_ st. ss_Region st \<in> set (map rg_ID mapRegions) \<and> ss_PollSeconds st \<in> set AllowedPollSeconds) (st_sessions sample_store) \<and>
    fmpred (\<lambda>_ n. 0 < n) (st_live sample_store)"
  by (rule session_reach_inv [OF sample_store_reach])

section \<open>Which regions are watched\<close>

definition viewer :: "time \<Rightarrow> SessionStore \<Rightarrow> string \<Rightarrow> sessionState \<Rightarrow> bool" where
  "viewer now s sid st \<longleftrightarrow> fmlookup (st_sessions s) sid = Some st \<and> \<not> sessionExpired st now \<and> 0 < live_count s sid"

definition watched :: "(string, sessionState) fmap \<Rightarrow> time \<Rightarrow> string \<times> int \<Rightarrow> string option" where
  "watched m now e =
     (if snd e \<le> 0 then None
      else case fmlookup m (fst e) of None \<Rightarrow> None
        | Some st \<Rightarrow> (if ss_Region st = [] \<or> sessionExpired st now then None else Some (ss_Region st)))"

lemma live_regions_Cons:
  "live_regions m now (e # es) seen =
     (case watched m now e of None \<Rightarrow> live_regions m now es seen
      | Some r \<Rightarrow> (if r \<in> seen then live_regions m now es seen else r # live_regions m now es (insert r seen)))"
  by (cases e) (auto simp: watched_def split: option.splits)

lemma live_regions_spec:
  "distinct (live_regions m now entries seen) \<and>
   set (live_regions m now entries seen) = {r. \<exists>e\<in>set entries. watched m now e = Some r} - seen"
proof (induction entries arbitrary: seen)
  case (Cons e es)
  show ?case
    using Cons.IH [of seen] Cons.IH [of "insert (the (watched m now e)) seen"]
    by (cases "watched m now e") (auto simp: live_regions_Cons simp del: live_regions.simps)
qed simp

lemma live_entries:
  assumes "range_order order (st_live s)" and "session_inv s"
  shows "(sid, n) \<in> set (range_entries order (st_live s)) \<and> 0 < n \<longleftrightarrow> 0 < live_count s sid \<and> n = live_count s sid"
  using assms by (auto simp: range_order_entries live_count_def session_inv_def fmpred_iff split: option.splits)

lemma session_region_nonempty: "session_ok st \<Longrightarrow> ss_Region st \<noteq> []"
proof -
  have "list_all (\<lambda>r. rg_ID r \<noteq> []) mapRegions" by code_simp
  then show "session_ok st \<Longrightarrow> ss_Region st \<noteq> []" by (auto simp: session_ok_def list_all_iff)
qed

lemma watched_viewer:
  assumes "session_inv s" and "range_order order (st_live s)"
  shows "(\<exists>e\<in>set (range_entries order (st_live s)). watched (st_sessions (prune_persist pe now s)) now e = Some r) \<longleftrightarrow>
    (\<exists>sid st. r = ss_Region st \<and> viewer now s sid st)"
proof -
  have ne: "ss_Region st \<noteq> []" if "fmlookup (st_sessions s) sid = Some st" for sid st
    using assms(1) that session_region_nonempty by (auto simp: session_inv_def fmpred_iff)
  have w: "watched (st_sessions (prune_persist pe now s)) now (sid, n) = Some r \<longleftrightarrow>
      0 < n \<and> (\<exists>st. fmlookup (st_sessions s) sid = Some st \<and> \<not> sessionExpired st now \<and> r = ss_Region st)" for sid n
    using ne by (auto simp: watched_def split: option.splits if_splits)
  have "(\<exists>e\<in>set (range_entries order (st_live s)). watched (st_sessions (prune_persist pe now s)) now e = Some r) \<longleftrightarrow>
      (\<exists>sid n. ((sid, n) \<in> set (range_entries order (st_live s)) \<and> 0 < n) \<and>
        (\<exists>st. fmlookup (st_sessions s) sid = Some st \<and> \<not> sessionExpired st now \<and> r = ss_Region st))"
    unfolding Bex_def split_paired_Ex w by blast
  also have "\<dots> \<longleftrightarrow> (\<exists>sid st. r = ss_Region st \<and> viewer now s sid st)"
    unfolding live_entries [OF assms(2,1)] viewer_def by blast
  finally show ?thesis .
qed

lemma LiveRegionIDs_set:
  assumes "session_inv s" and "range_order order (st_live s)"
  shows "distinct (fst (LiveRegionIDs pe now order s)) \<and>
    set (fst (LiveRegionIDs pe now order s)) = {ss_Region st |sid st. viewer now s sid st}"
  using watched_viewer [OF assms]
    live_regions_spec [of "st_sessions (prune_persist pe now s)" now "range_entries order (st_live s)" "{}"]
  by (simp add: LiveRegionIDs_def Let_def)

lemma FeedsForRegions_ok: "set ids \<subseteq> rg_ID ` set mapRegions \<Longrightarrow> \<exists>feeds. FeedsForRegions ids = Inr feeds"
  using feeds_loop_Inl [of ids "({}, [])"] by (cases "FeedsForRegions ids") (auto simp: FeedsForRegions_def)

text \<open>The live regions of a reachable store are, each once and for every order in which the live
  map is visited, the regions of the sessions that are being viewed and have reported within five
  minutes; they are known regions, so planning their feeds never fails.\<close>

lemma live_regions_exact:
  assumes "session_reach s" and "range_order order (st_live s)"
  shows "distinct (fst (LiveRegionIDs pe now order s)) \<and>
    set (fst (LiveRegionIDs pe now order s)) = {ss_Region st |sid st. viewer now s sid st} \<and>
    (\<exists>feeds. fst (FeedsToPoll pe now order s) = Inr feeds)"
proof -
  have inv: "session_inv s" by (rule reach_inv [OF assms(1)])
  have "set (fst (LiveRegionIDs pe now order s)) \<subseteq> rg_ID ` set mapRegions"
    using inv LiveRegionIDs_set [OF inv assms(2)] by (auto simp: viewer_def session_inv_def session_ok_def fmpred_iff)
  then have "\<exists>feeds. FeedsForRegions (fst (LiveRegionIDs pe now order s)) = Inr feeds"
    by (rule FeedsForRegions_ok)
  with LiveRegionIDs_set [OF inv assms(2)] show ?thesis by (simp add: FeedsToPoll_def)
qed

lemma penang_known: "RegionByID ''penang'' = Inr (mapRegions ! 2)"
  by code_simp

lemma sample_store_live: "st_live sample_store = fmupd ''b'' 1 (fmupd ''a'' 1 fmempty)"
  by (simp add: sample_store_def AcquireLive_def live_count_def SetRegion_def penang_known Touch_def NewSessionStore_def
      Let_def case_prod_beta)

lemma live_regions_exact_example:
  "distinct (fst (LiveRegionIDs disk_ok (9 * second) [''a'', ''b''] sample_store)) \<and>
   (\<exists>feeds. fst (FeedsToPoll disk_ok (9 * second) [''a'', ''b''] sample_store) = Inr feeds)"
proof -
  have "range_order [''a'', ''b''] (st_live sample_store)"
    by (auto simp: range_order_def sample_store_live)
  from live_regions_exact [OF sample_store_reach this, of disk_ok "9 * second"] show ?thesis by blast
qed

section \<open>Choosing a region\<close>

lemma expired_mono:
  "sessionExpired st now \<Longrightarrow> now \<le> now' \<Longrightarrow> sessionExpired st now'"
  by (auto simp: sessionExpired_def time_Sub_ge go_consts split: if_splits)

lemma Region_lookup:
  "fst (SessionStore_Region pe now sid s) =
     (case fmlookup (st_sessions s) sid of
        Some st \<Rightarrow> (if sessionExpired st now then DefaultRegionID else ss_Region st)
      | None \<Rightarrow> DefaultRegionID)"
  by (auto simp: SessionStore_Region_def stateLocked_def defaultState_def Let_def split: option.splits)

lemma SetRegion_sessions:
  "RegionByID rid = Inr g \<Longrightarrow>
   fmlookup (st_sessions (snd (SetRegion pe now sid rid s))) sid' =
     (if sid' = sid then
        (let st = (stateLocked now s sid)\<lparr>ss_Region := rid, ss_LastSeen := now\<rparr> in if sessionExpired st now then None else Some st)
      else case fmlookup (st_sessions s) sid' of None \<Rightarrow> None | Some st \<Rightarrow> (if sessionExpired st now then None else Some st))"
  by (simp add: SetRegion_def Let_def)

text \<open>A session that has chosen a region sees it until it has been idle for five minutes and
  the default region from then on, also when persisting the choice failed; no other session's
  region is affected. An unknown region is refused and changes nothing.\<close>

lemma SetRegion_effect:
  assumes "now \<noteq> time_zero" and "now \<le> now'"
  shows "case RegionByID rid of
      Inl e \<Rightarrow> SetRegion pe now sid rid s = (Some e, s)
    | Inr _ \<Rightarrow>
        fst (SessionStore_Region pe' now' sid (snd (SetRegion pe now sid rid s))) =
          (if now' - now < SessionIdleTTL then rid else DefaultRegionID) \<and>
        (\<forall>sid'. sid' \<noteq> sid \<longrightarrow>
          fst (SessionStore_Region pe' now' sid' (snd (SetRegion pe now sid rid s))) = fst (SessionStore_Region pe' now' sid' s))"
proof (cases "RegionByID rid")
  case (Inr g)
  have "sessionExpired (st\<lparr>ss_LastSeen := now\<rparr>) t \<longleftrightarrow> \<not> t - now < SessionIdleTTL" for st t
    using assms(1) by (simp add: sessionExpired_def time_IsZero_def time_Sub_ge go_consts not_less)
  moreover have "\<not> sessionExpired (st\<lparr>ss_LastSeen := now\<rparr>) now" for st
    by (rule fresh_not_expired [OF assms(1)])
  moreover have "fst (SessionStore_Region pe' now' sid' (snd (SetRegion pe now sid rid s))) = fst (SessionStore_Region pe' now' sid' s)"
    if "sid' \<noteq> sid" for sid'
    using that expired_mono [OF _ assms(2)]
    by (auto simp: Region_lookup SetRegion_sessions [OF Inr] split: option.splits)
  ultimately show ?thesis
    using Inr by (simp add: Region_lookup SetRegion_sessions [OF Inr] Let_def)
qed (simp add: SetRegion_def)

lemma SetRegion_effect_example:
  "fst (SessionStore_Region disk_ok (200 * second) ''a'' (snd (SetRegion disk_ok (10 * second) ''a'' ''penang'' sample_store))) = ''penang'' \<and>
   fst (SessionStore_Region disk_ok (310 * second) ''a'' (snd (SetRegion disk_ok (10 * second) ''a'' ''penang'' sample_store))) = DefaultRegionID"
  using SetRegion_effect [of "10 * second" "200 * second" disk_ok "''a''" "''penang''" sample_store disk_ok]
    SetRegion_effect [of "10 * second" "310 * second" disk_ok "''a''" "''penang''" sample_store disk_ok]
  by (simp add: penang_known go_consts)

section \<open>Viewers\<close>

definition live_run :: "string \<Rightarrow> bool list \<Rightarrow> SessionStore \<Rightarrow> SessionStore" where
  "live_run sid evs s = fold (\<lambda>acq. if acq then AcquireLive sid else ReleaseLive sid) evs s"

fun balance :: "bool list \<Rightarrow> int \<Rightarrow> int option" where
  "balance [] n = Some n"
| "balance (True # evs) n = balance evs (n + 1)"
| "balance (False # evs) n = (if n \<le> 0 then None else balance evs (n - 1))"

lemma live_count_simps:
  "sid \<noteq> [] \<Longrightarrow> live_count (AcquireLive sid s) sid = live_count s sid + 1"
  "sid \<noteq> [] \<Longrightarrow> 0 < live_count s sid \<Longrightarrow> live_count (ReleaseLive sid s) sid = live_count s sid - 1"
  by (auto simp: live_count_def AcquireLive_def ReleaseLive_def Let_def split: option.splits)

text \<open>The live count of a session is the number of its open connections: with every
  release matching an earlier acquisition, it is the acquisitions less the
  releases.\<close>

lemma live_count_balance:
  assumes "sid \<noteq> []" and "balance evs (live_count s sid) = Some n"
  shows "live_count (live_run sid evs s) sid = n"
  using assms(2)
proof (induction evs arbitrary: s)
  case (Cons acq evs)
  then show ?case
    using live_count_simps [OF assms(1), of s] by (cases acq) (auto simp: live_run_def split: if_splits)
qed (simp add: live_run_def)

lemma live_count_balance_example:
  "live_count (live_run ''a'' [True, True, False] (NewSessionStore None)) ''a'' = 1"
  by (rule live_count_balance) (simp_all add: live_count_def NewSessionStore_def)

section \<open>The file\<close>

lemma sessionState_roundtrip:
  assumes "sessionState_json st = Inr j" and "session_ok st"
  shows "parseSessionValue j = Some st"
proof -
  have ps: "ss_PollSeconds st \<noteq> 0" "int64 (ss_PollSeconds st)" "storedPollSeconds (ss_PollSeconds st) = ss_PollSeconds st"
    using assms(2) storedPollSeconds_id [of "ss_PollSeconds st"] by (auto simp: session_ok_def) (auto simp: AllowedPollSeconds_def)
  have "sessionState_json st = (if time_json_ok (ss_LastSeen st) then
      Inr (JObject [(''region'', JString (ss_Region st)), (''pollSeconds'', JNum (of_int (ss_PollSeconds st))),
        (''lastSeen'', JTime (ss_LastSeen st))]) else Inl json_time_error)"
    using ps(1) by (simp add: sessionState_json_def json_encode_defs)
  then have j: "j = JObject [(''region'', JString (ss_Region st)), (''pollSeconds'', JNum (of_int (ss_PollSeconds st))),
      (''lastSeen'', JTime (ss_LastSeen st))]"
    using assms(1) by (simp split: if_splits)
  have "decode_struct sessionState_fields sessionState_zero j = Inr st"
    using ps(2) by (simp add: j sessionState_fields_def sessionState_zero_def)
  then show ?thesis
    using ps(3) session_region_nonempty [OF assms(2)] by (simp add: parseSessionValue_def j)
qed

lemma members_mem_json:
  "members (map (\<lambda>(k, x). mem_json k (f x)) xs) = Inr ys \<Longrightarrow>
   ys = map (\<lambda>(k, x). (k, projr (f x))) xs \<and> (\<forall>(k, x) \<in> set xs. \<exists>j. f x = Inr j)"
  by (induction xs arbitrary: ys) (auto simp: mem_json_def split: sum.splits)

text \<open>What loading makes of one value.\<close>

definition loaded :: "time \<Rightarrow> json \<Rightarrow> sessionState option" where
  "loaded now raw =
     (case parseSessionValue raw of None \<Rightarrow> None
      | Some st \<Rightarrow> (case RegionByID (ss_Region st) of Inl _ \<Rightarrow> None
        | Inr _ \<Rightarrow> (if sessionExpired st now then None else Some st)))"

lemma load_session_lookup:
  "fmlookup (load_session now (sid, raw) m) k =
     (if k = sid then (case loaded now raw of None \<Rightarrow> fmlookup m k | Some st \<Rightarrow> Some st) else fmlookup m k)"
  by (simp add: load_session_def loaded_def split: option.splits sum.splits)

lemma load_fold_lookup:
  "distinct (map fst es) \<Longrightarrow>
   fmlookup (fold (load_session now) es m) k =
     (case map_of es k of None \<Rightarrow> fmlookup m k
      | Some raw \<Rightarrow> (case loaded now raw of None \<Rightarrow> fmlookup m k | Some st \<Rightarrow> Some st))"
proof (induction es arbitrary: m)
  case (Cons en es)
  have "map_of es (fst en) = None" using Cons.prems by (simp add: map_of_eq_None_iff)
  with Cons show ?case
    by (cases en; cases "k = fst en") (simp_all add: load_session_lookup split: option.splits)
qed simp

lemma distinct_sorted_list_of_fmap: "distinct (map fst (sorted_list_of_fmap m))"
  by (simp add: sorted_list_of_fmap_def comp_def sorted_list_of_fset.rep_eq)

lemma sessions_json_decode:
  assumes "sessions_json m = Inr doc" and "fmpred (\<lambda>_. session_ok) m"
  obtains raws where "decode_struct sessionFile_fields fmempty doc = Inr raws"
    and "\<And>sid. rel_option (\<lambda>st raw. parseSessionValue raw = Some st) (fmlookup m sid) (fmlookup raws sid)"
proof -
  let ?es = "sorted_list_of_fmap m"
  obtain kvs where kvs: "members (map (\<lambda>(sid, st). mem_json sid (sessionState_json (persisted_state st))) ?es) = Inr kvs"
      "doc = JObject [(''sessions'', JObject kvs)]"
    using assms(1)
    by (cases "members (map (\<lambda>(sid, st). mem_json sid (sessionState_json (persisted_state st))) ?es)")
      (auto simp: sessions_json_def json_object_def mem_json_def [of "''sessions''"])
  note eq = members_mem_json [OF kvs(1)]
  have keys: "map fst kvs = map fst ?es" using eq by (auto simp: comp_def case_prod_beta)
  define raws where "raws = fold (\<lambda>(k, v). fmupd k v) kvs fmempty"
  have raw: "fmlookup raws sid = map_option (\<lambda>st. projr (sessionState_json (persisted_state st))) (fmlookup m sid)" for sid
  proof -
    have "map_of kvs = map_option (\<lambda>st. projr (sessionState_json (persisted_state st))) \<circ> map_of ?es"
      using eq by (simp only: map_of_map comp_def)
    moreover have "distinct (map fst kvs)" using distinct_sorted_list_of_fmap [of m] by (simp only: keys)
    ultimately show ?thesis
      by (simp add: raws_def fold_fmupd_lookup [where g = "\<lambda>v. v"] split: option.splits)
  qed
  have "parseSessionValue (projr (sessionState_json (persisted_state st))) = Some st" if "fmlookup m sid = Some st" for sid st
  proof -
    have ok: "session_ok st" using that assms(2) by (auto simp: fmpred_iff)
    then have p: "persisted_state st = st" by (auto simp: persisted_state_def session_ok_def AllowedPollSeconds_def)
    have "(sid, st) \<in> set ?es" using that by (metis map_of_SomeD map_of_sorted_list)
    then obtain j where "sessionState_json (persisted_state st) = Inr j" using eq by blast
    then show ?thesis using sessionState_roundtrip [OF _ ok] p by simp
  qed
  then have "rel_option (\<lambda>st raw. parseSessionValue raw = Some st) (fmlookup m sid) (fmlookup raws sid)" for sid
    by (cases "fmlookup m sid") (simp_all add: raw)
  moreover have "decode_struct sessionFile_fields fmempty doc = Inr raws"
    by (simp add: kvs(2) sessionFile_fields_def raws_def)
  ultimately show thesis using that by blast
qed

text \<open>C28: opening a store from the file a reachable store has persisted gives back exactly the
  sessions that have not been idle for five minutes, unchanged.\<close>

theorem persist_open_roundtrip:
  assumes "session_reach s" and "st_path s \<noteq> []" and "persistLocked pe s = (None, s')"
  shows "\<exists>doc s''. st_Disk s' = Some doc \<and> OpenSessionStore (Inr (Some (Inr doc))) (Some doc) (st_path s) now = Inr s'' \<and>
    (\<forall>sid. fmlookup (st_sessions s'') sid =
      (case fmlookup (st_sessions s) sid of None \<Rightarrow> None | Some st \<Rightarrow> (if sessionExpired st now then None else Some st)))"
proof -
  obtain doc where doc: "sessions_json (st_sessions s) = Inr doc" "st_Disk s' = Some doc"
    using assms(2,3) by (auto simp: persistLocked_def split: option.splits sum.splits)
  have ok: "fmpred (\<lambda>_. session_ok) (st_sessions s)"
    using reach_inv [OF assms(1)] by (simp add: session_inv_def)
  obtain raws where raws: "decode_struct sessionFile_fields fmempty doc = Inr raws"
      "\<And>sid. rel_option (\<lambda>st raw. parseSessionValue raw = Some st) (fmlookup (st_sessions s) sid) (fmlookup raws sid)"
    using sessions_json_decode [OF doc(1) ok] by metis
  define s'' where "s'' = \<lparr>st_sessions = fold (load_session now) (sorted_list_of_fmap raws) fmempty, st_live = fmempty,
    st_path = st_path s, st_Disk = Some doc\<rparr>"
  have "OpenSessionStore (Inr (Some (Inr doc))) (Some doc) (st_path s) now = Inr s''"
    using assms(2) raws(1) by (simp add: OpenSessionStore_def SessionStore_load_def s''_def)
  moreover have "fmlookup (st_sessions s'') sid =
      (case fmlookup (st_sessions s) sid of None \<Rightarrow> None | Some st \<Rightarrow> (if sessionExpired st now then None else Some st))" for sid
  proof (cases "fmlookup (st_sessions s) sid")
    case None
    with raws(2) [of sid] show ?thesis by (simp add: s''_def load_fold_lookup distinct_sorted_list_of_fmap)
  next
    case (Some st)
    then have "ss_Region st \<in> rg_ID ` set mapRegions" using ok by (auto simp: fmpred_iff session_ok_def)
    then obtain g where "RegionByID (ss_Region st) = Inr g" by (cases "RegionByID (ss_Region st)") (auto dest: RegionByID_Inl [THEN iffD1, OF exI])
    with Some raws(2) [of sid] show ?thesis
      by (auto simp: s''_def load_fold_lookup distinct_sorted_list_of_fmap loaded_def option_rel_Some1)
  qed
  ultimately show ?thesis using doc(2) by blast
qed

definition sample_file_store :: SessionStore where
  "sample_file_store = snd (SetRegion disk_ok (8 * second) ''b'' ''penang''
     \<lparr>st_sessions = fmempty, st_live = fmempty, st_path = ''s.json'', st_Disk = None\<rparr>)"

theorem persist_open_roundtrip_witness:
  "\<exists>doc s''. st_Disk (snd (persistLocked disk_ok sample_file_store)) = Some doc \<and>
    OpenSessionStore (Inr (Some (Inr doc))) (Some doc) ''s.json'' (9 * second) = Inr s'' \<and>
    fmlookup (st_sessions s'') ''b'' = Some \<lparr>ss_Region = ''penang'', ss_PollSeconds = 10, ss_LastSeen = 8 * second\<rparr>"
proof -
  let ?b = "\<lparr>ss_Region = ''penang'', ss_PollSeconds = 10, ss_LastSeen = 8 * second\<rparr>"
  have reach: "session_reach sample_file_store"
  proof -
    have "OpenSessionStore (Inr None) None ''s.json'' 0 =
        Inr \<lparr>st_sessions = fmempty, st_live = fmempty, st_path = ''s.json'', st_Disk = None\<rparr>"
      by (simp add: OpenSessionStore_def SessionStore_load_def)
    from reach_step [OF reach_open [OF this] step_region] show ?thesis by (simp only: sample_file_store_def)
  qed
  have live: "\<not> sessionExpired ?b t" if "t \<in> {8 * second, 9 * second}" for t
    using that by (auto simp: sessionExpired_def time_IsZero_def time_Sub_def go_consts)
  have b: "fmlookup (st_sessions sample_file_store) ''b'' = Some ?b"
    using live [of "8 * second"]
    by (simp add: sample_file_store_def SetRegion_sessions [OF penang_known] stateLocked_def defaultState_def DefaultPollSeconds_def Let_def)
  have "sid = ''b''" if "fmlookup (st_sessions sample_file_store) sid \<noteq> None" for sid
    using that by (auto simp: sample_file_store_def SetRegion_sessions [OF penang_known] split: if_splits)
  then have "st_sessions sample_file_store = fmupd ''b'' ?b fmempty"
    using b by (intro fmap_ext) (metis fmempty_lookup fmupd_lookup option.exhaust)
  then have "\<exists>s'. persistLocked disk_ok sample_file_store = (None, s')"
    by (simp add: persistLocked_def disk_ok_def sessions_json_def sorted_list_of_fmap_def sorted_list_of_fset.rep_eq sessionState_json_def
        persisted_state_def json_encode_defs time_json_ok_def go_consts)
  then obtain s' where s': "persistLocked disk_ok sample_file_store = (None, s')" ..
  have path: "st_path sample_file_store = ''s.json''"
    by (simp add: sample_file_store_def SetRegion_def penang_known Let_def)
  show ?thesis
    using persist_open_roundtrip [OF reach _ s', of "9 * second"] b live [of "9 * second"] by (auto simp: path s')
qed

end
