(* ===== verification/Gtfs_Types.thy ===== *)
theory Gtfs_Types
  imports Key_Scan Go_Json
begin

text \<open>
  \<open>internal/gtfs/types.go\<close> and \<open>internal/gtfs/bounds.go\<close>: one GPS reading of a vehicle, its
  key \<open>agency:vehicle:nanoseconds\<close>, its JSON value, the functions that read a key back, and the
  bounding box of Malaysia.
\<close>

record VehiclePosition =
  vp_Agency :: string
  vp_VehicleID :: string
  vp_Lat :: float64
  vp_Lng :: float64
  vp_Bearing :: float64
  vp_Speed :: float64
  vp_Route :: string
  vp_Trip :: string
  vp_Timestamp :: time

definition minLat :: float64 where "minLat = Fin 1"
definition maxLat :: float64 where "maxLat = Fin 7"
definition minLng :: float64 where "minLng = Fin 100"
definition maxLng :: float64 where "maxLng = Fin 119"

definition ValidMalaysiaBounds :: "float64 \<Rightarrow> float64 \<Rightarrow> bool" where
  "ValidMalaysiaBounds lat lng \<longleftrightarrow>
     float_le minLat lat \<and> float_le lat maxLat \<and> float_le minLng lng \<and> float_le lng maxLng"

definition VehiclePosition_Key :: "VehiclePosition \<Rightarrow> string" where
  "VehiclePosition_Key v =
     vp_Agency v @ '':'' @ vp_VehicleID v @ '':'' @ fmt_int (time_UnixNano (vp_Timestamp v))"

definition VehiclePosition_KeyBytes :: "VehiclePosition \<Rightarrow> string" where
  "VehiclePosition_KeyBytes v = VehiclePosition_Key v"

definition VehiclePosition_ValueBytes :: "VehiclePosition \<Rightarrow> json result" where
  "VehiclePosition_ValueBytes v = json_object
     [mem_string ''agency'' (vp_Agency v),
      mem_string ''vehicle_id'' (vp_VehicleID v),
      mem_float ''lat'' (vp_Lat v),
      mem_float ''lng'' (vp_Lng v),
      mem_float_omit ''bearing'' (vp_Bearing v),
      mem_float_omit ''speed'' (vp_Speed v),
      mem_string_omit ''route'' (vp_Route v),
      mem_string_omit ''trip'' (vp_Trip v),
      mem_time ''timestamp'' (vp_Timestamp v)]"

definition VehiclePosition_zero :: VehiclePosition where
  "VehiclePosition_zero = \<lparr>vp_Agency = [], vp_VehicleID = [], vp_Lat = Fin 0, vp_Lng = Fin 0,
     vp_Bearing = Fin 0, vp_Speed = Fin 0, vp_Route = [], vp_Trip = [], vp_Timestamp = time_zero\<rparr>"

definition VehiclePosition_fields :: "string \<Rightarrow> VehiclePosition field_decoder option" where
  "VehiclePosition_fields n =
     (if n = ''agency'' then Some (dec_string (\<lambda>x v. v\<lparr>vp_Agency := x\<rparr>))
      else if n = ''vehicle_id'' then Some (dec_string (\<lambda>x v. v\<lparr>vp_VehicleID := x\<rparr>))
      else if n = ''lat'' then Some (dec_float (\<lambda>x v. v\<lparr>vp_Lat := x\<rparr>))
      else if n = ''lng'' then Some (dec_float (\<lambda>x v. v\<lparr>vp_Lng := x\<rparr>))
      else if n = ''bearing'' then Some (dec_float (\<lambda>x v. v\<lparr>vp_Bearing := x\<rparr>))
      else if n = ''speed'' then Some (dec_float (\<lambda>x v. v\<lparr>vp_Speed := x\<rparr>))
      else if n = ''route'' then Some (dec_string (\<lambda>x v. v\<lparr>vp_Route := x\<rparr>))
      else if n = ''trip'' then Some (dec_string (\<lambda>x v. v\<lparr>vp_Trip := x\<rparr>))
      else if n = ''timestamp'' then Some (dec_time (\<lambda>x v. v\<lparr>vp_Timestamp := x\<rparr>))
      else None)"

definition ParseVehiclePosition :: "json \<Rightarrow> VehiclePosition result" where
  "ParseVehiclePosition data = decode_struct VehiclePosition_fields VehiclePosition_zero data"

definition AgencyPrefix :: "string \<Rightarrow> string" where
  "AgencyPrefix agency = agency @ '':''"

definition gtfs_prefixUpperBound :: "string \<Rightarrow> string" where
  "gtfs_prefixUpperBound p = upper_loop p (length p)"

definition AgencyUpperBound :: "string \<Rightarrow> string" where
  "AgencyUpperBound agency = gtfs_prefixUpperBound (agency @ '':'')"

definition VehicleIDFromKey :: "string \<Rightarrow> string" where
  "VehicleIDFromKey key =
     (let parts = splitN 3 (CHR '':'') key in if length parts < 2 then [] else parts ! 1)"

definition TimestampNSFromKey :: "string \<Rightarrow> int" where
  "TimestampNSFromKey key =
     (let parts = splitN 3 (CHR '':'') key in if length parts < 3 then 0 else fst (parse_int64 (parts ! 2)))"

interpretation agency_scan: key_scan AgencyPrefix AgencyUpperBound
  by unfold_locales
    (unfold AgencyPrefix_def AgencyUpperBound_def gtfs_prefixUpperBound_def, rule upper_loop_range,
     auto intro: bexI [where x = "CHR '':''"])

section \<open>Keys\<close>

lemma splitN_three: "splitN 3 c s =
  (case index_byte s c of None \<Rightarrow> [s]
   | Some i \<Rightarrow> take i s # (case index_byte (drop (Suc i) s) c of None \<Rightarrow> [drop (Suc i) s]
       | Some j \<Rightarrow> [take j (drop (Suc i) s), drop (Suc j) (drop (Suc i) s)]))"
  by (simp add: numeral_3_eq_3 cong: option.case_cong)

lemma splitN_key:
  "CHR '':'' \<notin> set a \<Longrightarrow> CHR '':'' \<notin> set v \<Longrightarrow>
   splitN 3 (CHR '':'') (a @ CHR '':'' # v @ CHR '':'' # t) = [a, v, t]"
  by (simp add: splitN_three)

lemma splitN_key_colon:
  "CHR '':'' \<notin> set a \<Longrightarrow> CHR '':'' \<notin> set v \<Longrightarrow>
   splitN 3 (CHR '':'') (a @ CHR '':'' # (v @ CHR '':'' # w) @ CHR '':'' # t) = [a, v, w @ CHR '':'' # t]"
  by (simp add: splitN_three)

text \<open>The vehicle id and the timestamp read back from a position's key are the ones it was
  built from, when neither the agency nor the vehicle id holds a colon.\<close>

lemma vehicle_key_roundtrip:
  assumes "CHR '':'' \<notin> set (vp_Agency v)" and "CHR '':'' \<notin> set (vp_VehicleID v)"
  shows "VehicleIDFromKey (VehiclePosition_Key v) = vp_VehicleID v \<and>
    TimestampNSFromKey (VehiclePosition_Key v) = time_UnixNano (vp_Timestamp v)"
proof -
  have "parse_int64 (fmt_int (time_UnixNano (vp_Timestamp v))) = (time_UnixNano (vp_Timestamp v), True)"
    using wrap64_bounds by (intro parse_fmt_int) (auto simp: time_UnixNano_def)
  then show ?thesis
    using assms
    by (simp add: VehicleIDFromKey_def TimestampNSFromKey_def VehiclePosition_Key_def splitN_key)
qed

definition sample_position :: VehiclePosition where
  "sample_position = VehiclePosition_zero\<lparr>vp_Agency := ''mybas-ipoh'', vp_VehicleID := ''PLX 1234'',
     vp_Lat := Fin (459 / 100), vp_Lng := Fin (10109 / 100), vp_Timestamp := 1700000000 * 1000000000\<rparr>"

lemma vehicle_key_roundtrip_example:
  "VehicleIDFromKey (VehiclePosition_Key sample_position) = ''PLX 1234'' \<and>
   TimestampNSFromKey (VehiclePosition_Key sample_position) = 1700000000000000000"
  using vehicle_key_roundtrip [of sample_position]
  by (simp add: sample_position_def time_UnixNano_def)

section \<open>The order of keys and the order of time\<close>

lemma digit_char_less: "d < 10 \<Longrightarrow> e < 10 \<Longrightarrow> digit_char d < digit_char e \<longleftrightarrow> d < e"
  by (simp add: less_char_def digit_char_def)

lemma digit_char_eq: "d < 10 \<Longrightarrow> e < 10 \<Longrightarrow> digit_char d = digit_char e \<longleftrightarrow> d = e"
  by (metis digit_char_simps(2))

lemma snoc_less:
  "length xs = length ys \<Longrightarrow> (xs :: string) @ [a] < ys @ [b] \<longleftrightarrow> xs < ys \<or> xs = ys \<and> a < b"
  by (induction xs ys rule: list_induct2) auto

lemma append_less: "(p :: string) @ xs < p @ ys \<longleftrightarrow> xs < ys"
  by (induction p) auto

lemma length_fmt_nat: "10 ^ k \<le> n \<Longrightarrow> n < 10 ^ Suc k \<Longrightarrow> length (fmt_nat n) = Suc k"
proof (induction k arbitrary: n)
  case 0
  then show ?case by (subst fmt_nat.simps) simp
next
  case (Suc k)
  have "10 ^ k \<le> n div 10"
    using Suc.prems(1) by (simp add: less_eq_div_iff_mult_less_eq mult.commute)
  moreover have "n div 10 < 10 ^ Suc k"
    using Suc.prems(2) by (simp add: less_mult_imp_div_less mult.commute)
  ultimately have "length (fmt_nat (n div 10)) = Suc k" by (rule Suc.IH)
  moreover have "\<not> n < 10" using Suc.prems(1) le_trans [of 10 "10 ^ Suc k" n] by auto
  ultimately show ?case by (subst fmt_nat.simps) simp
qed

lemma fmt_nat_eq: "fmt_nat m = fmt_nat n \<longleftrightarrow> m = n"
  by (metis parse_fmt_nat option.inject)

lemma div_mod_less: "m div 10 < n div 10 \<or> m div 10 = n div 10 \<and> m mod 10 < n mod 10 \<longleftrightarrow> m < (n :: nat)"
proof (cases "m div 10 = n div 10")
  case True
  then show ?thesis using div_mult_mod_eq [of m 10] div_mult_mod_eq [of n 10] by linarith
next
  case False
  then show ?thesis by (metis div_le_mono le_antisym le_eq_less_or_eq linorder_not_less)
qed

lemma fmt_nat_less:
  "length (fmt_nat m) = length (fmt_nat n) \<Longrightarrow> fmt_nat m < fmt_nat n \<longleftrightarrow> m < n"
proof (induction m arbitrary: n rule: fmt_nat.induct)
  case (1 m)
  show ?case
  proof (cases "m < 10")
    case True
    with "1.prems" have "n < 10"
      by (auto simp: fmt_nat.simps [of m] fmt_nat.simps [of n] split: if_splits)
    with True show ?thesis
      by (simp add: fmt_nat.simps [of m] fmt_nat.simps [of n] digit_char_less)
  next
    case False
    with "1.prems" have n: "\<not> n < 10"
      by (auto simp: fmt_nat.simps [of m] fmt_nat.simps [of n] split: if_splits)
    have len: "length (fmt_nat (m div 10)) = length (fmt_nat (n div 10))"
      using "1.prems" False n by (simp add: fmt_nat.simps [of m] fmt_nat.simps [of n])
    have "fmt_nat m < fmt_nat n \<longleftrightarrow>
        fmt_nat (m div 10) < fmt_nat (n div 10) \<or>
        fmt_nat (m div 10) = fmt_nat (n div 10) \<and> digit_char (m mod 10) < digit_char (n mod 10)"
      using False n by (simp add: fmt_nat.simps [of m] fmt_nat.simps [of n] snoc_less [OF len])
    also have "\<dots> \<longleftrightarrow> m div 10 < n div 10 \<or> m div 10 = n div 10 \<and> m mod 10 < n mod 10"
      by (simp add: "1.IH" [OF False len] fmt_nat_eq digit_char_less)
    also have "\<dots> \<longleftrightarrow> m < n"
      by (rule div_mod_less)
    finally show ?thesis .
  qed
qed

text \<open>For readings of one vehicle between 2001 and 2262, whose nanosecond timestamps all have
  nineteen digits, the order of the keys is the order of time.\<close>

lemma vehicle_key_order:
  assumes "vp_Agency v = vp_Agency w" and "vp_VehicleID v = vp_VehicleID w"
    and "10 ^ 18 \<le> vp_Timestamp v" "vp_Timestamp v < 2 ^ 63"
    and "10 ^ 18 \<le> vp_Timestamp w" "vp_Timestamp w < 2 ^ 63"
  shows "VehiclePosition_Key v < VehiclePosition_Key w \<longleftrightarrow> vp_Timestamp v < vp_Timestamp w"
proof -
  have len: "length (fmt_nat (nat t)) = Suc 18" if "10 ^ 18 \<le> t" "t < 2 ^ 63" for t :: int
    using that by (intro length_fmt_nat) auto
  have "fmt_nat (nat (vp_Timestamp v)) < fmt_nat (nat (vp_Timestamp w)) \<longleftrightarrow> nat (vp_Timestamp v) < nat (vp_Timestamp w)"
    using assms by (intro fmt_nat_less) (simp add: len)
  then show ?thesis
    using assms by (simp add: VehiclePosition_Key_def append_less time_UnixNano_def fmt_int_def)
qed

lemma vehicle_key_order_example:
  "VehiclePosition_Key sample_position < VehiclePosition_Key (sample_position\<lparr>vp_Timestamp := 1700000030 * 1000000000\<rparr>)"
  using vehicle_key_order [of sample_position "sample_position\<lparr>vp_Timestamp := 1700000030 * 1000000000\<rparr>"]
  by (simp add: sample_position_def)

section \<open>Values\<close>

text \<open>A position's stored value parses back to the position; encoding fails exactly when one of
  the four numbers is not finite or the timestamp has no RFC 3339 text.\<close>

lemma vehicle_value_cases:
  "case VehiclePosition_ValueBytes v of
     Inr j \<Rightarrow> list_all float_finite [vp_Lat v, vp_Lng v, vp_Bearing v, vp_Speed v] \<and>
       time_json_ok (vp_Timestamp v) \<and> ParseVehiclePosition j = Inr v
   | Inl _ \<Rightarrow> \<not> (list_all float_finite [vp_Lat v, vp_Lng v, vp_Bearing v, vp_Speed v] \<and>
       time_json_ok (vp_Timestamp v))"
proof (cases v)
  case (fields a i lat lng be sp r t ts)
  then show ?thesis
    by (cases lat; cases lng; cases be; cases sp)
      (simp_all add: VehiclePosition_ValueBytes_def json_encode_defs ParseVehiclePosition_def
        VehiclePosition_fields_def VehiclePosition_zero_def)
qed

lemma ValueBytes_ok:
  assumes "list_all float_finite [vp_Lat v, vp_Lng v, vp_Bearing v, vp_Speed v]" "time_json_ok (vp_Timestamp v)"
  shows "\<exists>j. VehiclePosition_ValueBytes v = Inr j \<and> ParseVehiclePosition j = Inr v"
  using vehicle_value_cases [of v] assms by (auto split: sum.splits)

lemma ValueBytes_parse: "VehiclePosition_ValueBytes v = Inr j \<Longrightarrow> ParseVehiclePosition j = Inr v"
  using vehicle_value_cases [of v] by (auto split: sum.splits)

lemma ValidMalaysiaBounds_finite:
  "ValidMalaysiaBounds lat lng \<Longrightarrow> float_finite lat \<and> float_finite lng"
  by (cases lat; cases lng)
    (simp_all add: ValidMalaysiaBounds_def minLat_def maxLat_def minLng_def maxLng_def)

end
