(* ===== verification/Gtfs_Poller.thy ===== *)
theory Gtfs_Poller
  imports Gtfs_Types Gtfs_Regions
begin

text \<open>
  \<open>internal/gtfs/poller.go\<close>: fetching one feed with retries on HTTP 429, polling several feeds,
  and turning a decoded feed message into positions.

  The environment of a poll is what the context, the HTTP client and the clock do: for every
  attempt, whether the context is already done, what the request gives, and whether the context
  ends during the wait. The protobuf decoder is code outside the repository: it is a parameter,
  and its result, the list of entities, is the type \<open>Entity\<close> (an optional field that is nil
  in Go is \<open>None\<close>).
\<close>

section \<open>Feed messages\<close>

record PbPosition =
  pb_Latitude :: float64
  pb_Longitude :: float64
  pb_Bearing :: float64
  pb_Speed :: float64

record PbVehicle =
  pv_Trip :: "(string \<times> string) option"      \<comment> \<open>trip id and route id\<close>
  pv_Descriptor :: "(string \<times> string) option" \<comment> \<open>id and label\<close>
  pv_Position :: "PbPosition option"
  pv_Timestamp :: "int option"                 \<comment> \<open>an unsigned 64-bit number of seconds\<close>

record Entity =
  en_Id :: string
  en_Vehicle :: "PbVehicle option"

type_synonym pb_decoder = "string \<Rightarrow> Entity list result"

definition entity_vehicle_id :: "Entity \<Rightarrow> PbVehicle \<Rightarrow> string" where
  "entity_vehicle_id en vp =
     (let v1 = (case pv_Descriptor vp of None \<Rightarrow> [] | Some (i, label) \<Rightarrow> (if i = [] then label else i))
      in if v1 = [] then en_Id en else v1)"

definition entity_time :: "time \<Rightarrow> PbVehicle \<Rightarrow> time" where
  "entity_time now vp =
     (case pv_Timestamp vp of None \<Rightarrow> now | Some ts \<Rightarrow> time_Unix (wrap64 ts) 0)"

definition entity_position :: "Feed \<Rightarrow> time \<Rightarrow> Entity \<Rightarrow> PbVehicle \<Rightarrow> PbPosition \<Rightarrow> VehiclePosition" where
  "entity_position feed now en vp pos =
     \<lparr>vp_Agency = fd_Agency feed, vp_VehicleID = entity_vehicle_id en vp,
      vp_Lat = pb_Latitude pos, vp_Lng = pb_Longitude pos,
      vp_Bearing = pb_Bearing pos, vp_Speed = pb_Speed pos,
      vp_Route = (case pv_Trip vp of None \<Rightarrow> [] | Some (t, r) \<Rightarrow> r),
      vp_Trip = (case pv_Trip vp of None \<Rightarrow> [] | Some (t, r) \<Rightarrow> t),
      vp_Timestamp = entity_time now vp\<rparr>"

text \<open>The loop over the entities; \<open>now i\<close> is the clock read for the entity at index \<open>i\<close>.\<close>

fun parse_entities :: "Feed \<Rightarrow> (nat \<Rightarrow> time) \<Rightarrow> nat \<Rightarrow> Entity list \<Rightarrow> VehiclePosition list \<times> nat" where
  "parse_entities feed now i [] = ([], 0)"
| "parse_entities feed now i (en # ens) =
     (let (ps, sk) = parse_entities feed now (Suc i) ens in
      case en_Vehicle en of None \<Rightarrow> (ps, sk)
      | Some vp \<Rightarrow> (case pv_Position vp of None \<Rightarrow> (ps, sk)
        | Some pos \<Rightarrow>
            (if \<not> ValidMalaysiaBounds (pb_Latitude pos) (pb_Longitude pos) then (ps, Suc sk)
             else if entity_vehicle_id en vp = [] then (ps, Suc sk)
             else (entity_position feed (now i) en vp pos # ps, sk))))"

definition parseFeedMessage ::
  "pb_decoder \<Rightarrow> (nat \<Rightarrow> time) \<Rightarrow> Feed \<Rightarrow> string \<Rightarrow> (VehiclePosition list \<times> nat) result" where
  "parseFeedMessage decode now feed body =
     (case decode body of
        Inl e \<Rightarrow> Inl (Wrapf ''unmarshal feed'' e)
      | Inr ens \<Rightarrow> Inr (parse_entities feed now 0 ens))"

definition ParseFeedBytes ::
  "pb_decoder \<Rightarrow> (nat \<Rightarrow> time) \<Rightarrow> Feed \<Rightarrow> string \<Rightarrow> (VehiclePosition list \<times> nat) result" where
  "ParseFeedBytes decode now feed body = parseFeedMessage decode now feed body"

section \<open>Backoff\<close>

record Backoff =
  bo_Initial :: duration
  bo_Max :: duration

definition defaultPollTimeout :: duration where "defaultPollTimeout = 30 * second"
definition UpstreamRefreshInterval :: duration where "UpstreamRefreshInterval = 30 * second"
definition maxPollAttempts :: nat where "maxPollAttempts = 6"

text \<open>\<open>b.Initial << attempt\<close> is a shift of a 64-bit value.\<close>

definition Backoff_duration :: "Backoff \<Rightarrow> nat \<Rightarrow> duration" where
  "Backoff_duration b attempt =
     (let initial = (if bo_Initial b \<le> 0 then second else bo_Initial b);
          mx = (if bo_Max b \<le> 0 then 30 * second else bo_Max b);
          d = wrap64 (initial * 2 ^ attempt)
      in if d > mx then mx else d)"

text \<open>\<open>strconv.Atoi\<close> and the 64-bit product with \<open>time.Second\<close>.\<close>

definition retryAfterDuration :: "string \<Rightarrow> duration option" where
  "retryAfterDuration header =
     (if header = [] then None
      else (case parse_int64 header of
              (seconds, ok) \<Rightarrow> (if \<not> ok \<or> seconds < 0 then None else Some (wrap64 (seconds * second)))))"

record Poller =
  po_Backoff :: Backoff

definition DefaultPoller :: Poller where
  "DefaultPoller = \<lparr>po_Backoff = \<lparr>bo_Initial = second, bo_Max = 30 * second\<rparr>\<rparr>"

definition retry_wait :: "Poller \<Rightarrow> nat \<Rightarrow> string \<Rightarrow> duration" where
  "retry_wait p attempt header =
     (case retryAfterDuration header of
        None \<Rightarrow> Backoff_duration (po_Backoff p) attempt
      | Some ra \<Rightarrow> (if bo_Max (po_Backoff p) > 0 \<and> ra > bo_Max (po_Backoff p) then bo_Max (po_Backoff p) else ra))"

section \<open>Polling one feed\<close>

record HttpResponse =
  hr_Status :: int
  hr_RetryAfter :: string
  hr_Body :: "string result"   \<comment> \<open>what reading the body gives\<close>

record Attempt =
  at_CtxErr :: "goerror option"         \<comment> \<open>\<open>ctx.Err()\<close> at the head of the loop\<close>
  at_NewRequest :: "goerror option"     \<comment> \<open>the error of building the request\<close>
  at_Response :: "HttpResponse result"  \<comment> \<open>what the client gives\<close>
  at_WaitErr :: "goerror option"        \<comment> \<open>the context ends during the wait\<close>
  at_Clock :: "nat \<Rightarrow> time"             \<comment> \<open>the clock while the message is read\<close>

record PollResult =
  pr_Feed :: Feed
  pr_Positions :: "VehiclePosition list"
  pr_Skipped :: nat
  pr_Err :: "goerror option"

definition poll_error :: "Feed \<Rightarrow> goerror option \<Rightarrow> PollResult" where
  "poll_error feed e = \<lparr>pr_Feed = feed, pr_Positions = [], pr_Skipped = 0, pr_Err = e\<rparr>"

text \<open>
  The loop with \<open>n\<close> attempts left; \<open>waits\<close> collects the sleeps the poller asks for, in
  order. The source's \<open>attempt\<close> is \<open>maxPollAttempts - n\<close>.
\<close>

fun poll_loop :: "pb_decoder \<Rightarrow> Poller \<Rightarrow> (nat \<Rightarrow> Attempt) \<Rightarrow> Feed \<Rightarrow> nat \<Rightarrow> goerror option \<Rightarrow> PollResult \<times> duration list" where
  "poll_loop decode p env feed 0 lastErr = (poll_error feed lastErr, [])"
| "poll_loop decode p env feed (Suc n) lastErr =
     (let attempt = maxPollAttempts - Suc n; a = env attempt in
      case at_CtxErr a of
        Some e \<Rightarrow> (poll_error feed (Some e), [])
      | None \<Rightarrow>
      (case at_NewRequest a of
         Some e \<Rightarrow> (poll_error feed (Some e), [])
       | None \<Rightarrow>
      (case at_Response a of
         Inl e \<Rightarrow> (poll_error feed (Some e), [])
       | Inr resp \<Rightarrow>
      (case hr_Body resp of
         Inl e \<Rightarrow> (poll_error feed (Some e), [])
       | Inr body \<Rightarrow>
           (if hr_Status resp = 429 then
              (if n = 0 then (poll_error feed (Some (Errorf ''rate limited (429)'')), [])
               else
                 (let wait = retry_wait p attempt (hr_RetryAfter resp) in
                  case at_WaitErr a of
                    Some e \<Rightarrow> (poll_error feed (Some e), [wait])
                  | None \<Rightarrow> map_prod id (Cons wait)
                      (poll_loop decode p env feed n (Some (Errorf ''rate limited (429)'')))))
            else if hr_Status resp \<noteq> 200 then
              (poll_error feed (Some (Errorf (''http '' @ fmt_int (hr_Status resp)))), [])
            else
              (case parseFeedMessage decode (at_Clock a) feed body of
                 Inl e \<Rightarrow> (poll_error feed (Some e), [])
               | Inr (ps, sk) \<Rightarrow>
                   (\<lparr>pr_Feed = feed, pr_Positions = ps, pr_Skipped = sk, pr_Err = None\<rparr>, [])))))))"

definition pollFeed :: "pb_decoder \<Rightarrow> Poller \<Rightarrow> (nat \<Rightarrow> Attempt) \<Rightarrow> Feed \<Rightarrow> PollResult \<times> duration list" where
  "pollFeed decode p env feed = poll_loop decode p env feed maxPollAttempts None"

definition Poll :: "pb_decoder \<Rightarrow> Poller \<Rightarrow> (nat \<Rightarrow> Attempt) \<Rightarrow> Feed \<Rightarrow> VehiclePosition list \<times> goerror option" where
  "Poll decode p env feed =
     (let res = fst (pollFeed decode p env feed) in (pr_Positions res, pr_Err res))"

text \<open>
  \<open>PollAll\<close> starts one goroutine per feed and waits for all of them; each writes its own slot
  of the result, so the result is the same for every interleaving. \<open>PollSequential\<close> checks the
  context before each feed.
\<close>

definition PollAll :: "pb_decoder \<Rightarrow> Poller \<Rightarrow> (nat \<Rightarrow> nat \<Rightarrow> Attempt) \<Rightarrow> Feed list \<Rightarrow> PollResult list" where
  "PollAll decode p env feeds =
     map (\<lambda>(i, feed). fst (pollFeed decode p (env i) feed)) (enumerate 0 feeds)"

definition PollSequential ::
  "pb_decoder \<Rightarrow> Poller \<Rightarrow> (nat \<Rightarrow> goerror option) \<Rightarrow> (nat \<Rightarrow> nat \<Rightarrow> Attempt) \<Rightarrow> Feed list \<Rightarrow> PollResult list" where
  "PollSequential decode p ctxErr env feeds =
     map (\<lambda>(i, feed). case ctxErr i of Some e \<Rightarrow> poll_error feed (Some e)
                      | None \<Rightarrow> fst (pollFeed decode p (env i) feed)) (enumerate 0 feeds)"

section \<open>What a feed message gives\<close>

definition located :: "Entity \<Rightarrow> bool" where
  "located en \<longleftrightarrow> (case en_Vehicle en of None \<Rightarrow> False | Some vp \<Rightarrow> pv_Position vp \<noteq> None)"

definition accepted :: "Feed \<Rightarrow> VehiclePosition \<Rightarrow> bool" where
  "accepted feed p \<longleftrightarrow> ValidMalaysiaBounds (vp_Lat p) (vp_Lng p) \<and> vp_VehicleID p \<noteq> [] \<and> vp_Agency p = fd_Agency feed"

lemma parse_entities_accepted: "list_all (accepted feed) (fst (parse_entities feed now i ens))"
  by (induction ens arbitrary: i)
    (auto simp: Let_def case_prod_beta accepted_def entity_position_def split: option.splits)

lemma parse_entities_count:
  "length (fst (parse_entities feed now i ens)) + snd (parse_entities feed now i ens) = length (filter located ens)"
proof (induction ens arbitrary: i)
  case (Cons en ens)
  then show ?case
    using Cons.IH [of "Suc i"] by (auto simp: Let_def case_prod_beta located_def split: option.splits)
qed simp

text \<open>The positions of a decoded feed all lie within Malaysia, carry a vehicle id and the feed's
  agency; every entity with a vehicle position is either returned or counted as skipped, and
  nothing else is counted. A message that does not decode is an error.\<close>

lemma parseFeedMessage_sound:
  "case decode body of
     Inl e \<Rightarrow> parseFeedMessage decode now feed body = Inl (Wrapf ''unmarshal feed'' e)
   | Inr ens \<Rightarrow> (\<exists>ps sk. parseFeedMessage decode now feed body = Inr (ps, sk) \<and>
       list_all (\<lambda>p. ValidMalaysiaBounds (vp_Lat p) (vp_Lng p) \<and> vp_VehicleID p \<noteq> [] \<and> vp_Agency p = fd_Agency feed) ps \<and>
       length ps + sk = length (filter located ens))"
proof (cases "decode body")
  case (Inr ens)
  obtain ps sk where "parse_entities feed now 0 ens = (ps, sk)" by fastforce
  then show ?thesis
    using Inr parse_entities_accepted [of feed now 0 ens] parse_entities_count [of feed now 0 ens]
    by (simp add: parseFeedMessage_def accepted_def [abs_def])
qed (simp add: parseFeedMessage_def)

section \<open>Waiting\<close>

lemma wrap64_small: "0 \<le> x \<Longrightarrow> x < 2 ^ 63 \<Longrightarrow> wrap64 x = x"
  by (simp add: wrap64_def)

text \<open>While the shift stays within 64 bits, the backoff before retry \<open>attempt\<close> is the initial
  wait doubled \<open>attempt\<close> times, capped at the maximum.\<close>

lemma Backoff_duration_doubles:
  assumes "0 < bo_Initial b" and "0 < bo_Max b" and "bo_Initial b * 2 ^ attempt < 2 ^ 63"
  shows "Backoff_duration b attempt = min (bo_Initial b * 2 ^ attempt) (bo_Max b)"
  using assms by (simp add: Backoff_duration_def wrap64_small Let_def)

lemma Backoff_duration_doubles_example:
  "Backoff_duration (po_Backoff DefaultPoller) 4 = 16 * second \<and>
   Backoff_duration (po_Backoff DefaultPoller) 5 = 30 * second"
  using Backoff_duration_doubles [of "po_Backoff DefaultPoller" 4] Backoff_duration_doubles [of "po_Backoff DefaultPoller" 5]
  by (simp add: DefaultPoller_def go_consts)

lemma poll_loop_waits: "length (snd (poll_loop decode p env feed n lastErr)) \<le> n - 1"
proof (induction n arbitrary: lastErr)
  case (Suc n)
  have "0 < n \<Longrightarrow> Suc (length (snd (poll_loop decode p env feed n e))) \<le> n" for e
    using Suc.IH [of e] by linarith
  then show ?case
    by (auto simp: Let_def split: option.splits sum.splits prod.splits)
qed simp

lemma poll_loop_feed: "pr_Feed (fst (poll_loop decode p env feed n lastErr)) = feed"
  by (induction n arbitrary: lastErr)
    (auto simp: Let_def poll_error_def split: option.splits sum.splits prod.splits)

lemma poll_loop_error:
  "pr_Err (fst (poll_loop decode p env feed n lastErr)) \<noteq> None \<Longrightarrow>
   pr_Positions (fst (poll_loop decode p env feed n lastErr)) = []"
  by (induction n arbitrary: lastErr)
    (auto simp: Let_def poll_error_def split: option.splits sum.splits prod.splits if_splits)

lemma parseFeedMessage_accepted:
  "parseFeedMessage decode now feed body = Inr (ps, sk) \<Longrightarrow> list_all (accepted feed) ps"
  using parse_entities_accepted [of feed now 0]
  by (auto simp: parseFeedMessage_def split: sum.splits) (metis fst_conv)

lemma poll_loop_accepted:
  "list_all (accepted feed) (pr_Positions (fst (poll_loop decode p env feed n lastErr)))"
proof (induction n arbitrary: lastErr)
  case (Suc n)
  then show ?case
    by (auto simp: Let_def poll_error_def split: option.splits sum.splits prod.splits
        dest: parseFeedMessage_accepted)
qed (simp add: poll_error_def)

lemma poll_loop_no_silent_failure:
  "n \<noteq> 0 \<or> lastErr \<noteq> None \<Longrightarrow> pr_Err (fst (poll_loop decode p env feed n lastErr)) = None \<Longrightarrow>
   \<exists>i<maxPollAttempts. \<exists>r. at_Response (env i) = Inr r \<and> hr_Status r = 200"
proof (induction n arbitrary: lastErr)
  case (Suc n)
  have i: "maxPollAttempts - Suc n < maxPollAttempts" by (simp add: maxPollAttempts_def)
  show ?case
    using Suc.prems(2) Suc.IH [of "Some (Errorf ''rate limited (429)'')"] i
    by (auto simp: Let_def poll_error_def split: option.splits sum.splits if_splits)
qed (simp add: poll_error_def)

text \<open>One poll of a feed asks for at most five waits whatever the server and the context do; it
  reports its own feed, an error comes with no positions, success means that some attempt was
  answered with status 200, and every position it returns is within Malaysia, has a vehicle id and
  the feed's agency.\<close>

lemma pollFeed_contract:
  "let (res, waits) = pollFeed decode p env feed in
     length waits < maxPollAttempts \<and> pr_Feed res = feed \<and>
     (case pr_Err res of
        Some _ \<Rightarrow> pr_Positions res = []
      | None \<Rightarrow> (\<exists>i<maxPollAttempts. \<exists>r. at_Response (env i) = Inr r \<and> hr_Status r = 200)) \<and>
     list_all (accepted feed) (pr_Positions res)"
proof -
  obtain res waits where eq: "pollFeed decode p env feed = (res, waits)" by fastforce
  show ?thesis
    using poll_loop_waits [of decode p env feed maxPollAttempts None]
      poll_loop_feed [of decode p env feed maxPollAttempts None]
      poll_loop_error [of decode p env feed maxPollAttempts None]
      poll_loop_accepted [of feed decode p env maxPollAttempts None]
      poll_loop_no_silent_failure [of maxPollAttempts None decode p env feed] eq
    by (auto simp: pollFeed_def maxPollAttempts_def split: option.splits)
qed

lemma default_backoff_waits: "retryAfterDuration h = None \<Longrightarrow> retry_wait DefaultPoller a h = Backoff_duration (po_Backoff DefaultPoller) a"
  by (simp add: retry_wait_def)

lemma poll_loop_default_waits:
  "(\<And>i r. at_Response (env i) = Inr r \<Longrightarrow> retryAfterDuration (hr_RetryAfter r) = None) \<Longrightarrow> n \<le> maxPollAttempts \<Longrightarrow>
   prefix (snd (poll_loop decode DefaultPoller env feed n lastErr))
     (map (Backoff_duration (po_Backoff DefaultPoller)) [maxPollAttempts - n ..< maxPollAttempts - 1])"
proof (induction n arbitrary: lastErr)
  case (Suc n)
  have "[maxPollAttempts - Suc n ..< maxPollAttempts - 1] = (maxPollAttempts - Suc n) # [maxPollAttempts - n ..< maxPollAttempts - 1]"
    if "n \<noteq> 0"
  proof -
    have "maxPollAttempts - Suc n < maxPollAttempts - 1" "Suc (maxPollAttempts - Suc n) = maxPollAttempts - n"
      using that Suc.prems(2) by (auto simp: maxPollAttempts_def)
    then show ?thesis by (metis upt_conv_Cons)
  qed
  then show ?case
    using Suc.IH [where lastErr = "Some (Errorf ''rate limited (429)'')"] Suc.prems
    by (auto simp: Let_def default_backoff_waits split: option.splits sum.splits prod.splits)
qed simp

text \<open>With the default backoff and no usable \<open>Retry-After\<close> header, the waits of a poll are an
  initial part of 1, 2, 4, 8 and 16 seconds: the 30 second cap is never waited for.\<close>

lemma pollFeed_default_waits:
  assumes "\<And>i r. at_Response (env i) = Inr r \<Longrightarrow> retryAfterDuration (hr_RetryAfter r) = None"
  shows "prefix (snd (pollFeed decode DefaultPoller env feed)) [second, 2 * second, 4 * second, 8 * second, 16 * second]"
proof -
  have "map (Backoff_duration (po_Backoff DefaultPoller)) [maxPollAttempts - maxPollAttempts ..< maxPollAttempts - 1] =
      [second, 2 * second, 4 * second, 8 * second, 16 * second]"
    by (simp add: maxPollAttempts_def upt_rec Backoff_duration_def DefaultPoller_def wrap64_def Let_def go_consts)
  then show ?thesis
    using poll_loop_default_waits [of env maxPollAttempts decode feed None] assms by (simp add: pollFeed_def)
qed

definition limited_attempt :: "string \<Rightarrow> Attempt" where
  "limited_attempt header = \<lparr>at_CtxErr = None, at_NewRequest = None,
     at_Response = Inr \<lparr>hr_Status = 429, hr_RetryAfter = header, hr_Body = Inr []\<rparr>,
     at_WaitErr = None, at_Clock = (\<lambda>i. 0)\<rparr>"

lemma pollFeed_default_waits_example:
  "prefix (snd (pollFeed (\<lambda>s. Inr []) DefaultPoller (\<lambda>i. limited_attempt []) (AllFeeds ! 0)))
     [second, 2 * second, 4 * second, 8 * second, 16 * second]"
  by (rule pollFeed_default_waits) (auto simp: limited_attempt_def retryAfterDuration_def)

text \<open>C40: a \<open>Retry-After\<close> delay that fits 64 bits in nanoseconds is waited for exactly, up to the
  maximum; the next
  number of seconds overflows, and the wait is negative.\<close>

theorem retry_wait_range:
  assumes "0 \<le> n" and "n \<le> 9223372036" and "0 < bo_Max (po_Backoff p)"
  shows "retry_wait p attempt (fmt_int n) = min (n * second) (bo_Max (po_Backoff p)) \<and>
    retry_wait p attempt ''9223372037'' < 0"
proof -
  have "fmt_int n \<noteq> []" by (simp add: fmt_int_def)
  moreover have "parse_int64 (fmt_int n) = (n, True)"
    using assms by (intro parse_fmt_int) auto
  ultimately have "retryAfterDuration (fmt_int n) = Some (wrap64 (n * second))"
    using assms by (simp add: retryAfterDuration_def)
  moreover have "retryAfterDuration ''9223372037'' = Some (- 9223372036709551616)"
    by (simp add: retryAfterDuration_def parse_int64_def parse_nat_def is_digit_def digit_val_def wrap64_def go_consts)
  ultimately show ?thesis
    using assms by (simp add: retry_wait_def wrap64_small go_consts min_def)
qed

theorem retry_wait_range_witness:
  "retry_wait DefaultPoller 0 (fmt_int 7) = 7 * second \<and> retry_wait DefaultPoller 0 ''9223372037'' < 0"
  using retry_wait_range [of 7 DefaultPoller 0] by (simp add: DefaultPoller_def go_consts)

section \<open>Polling several feeds\<close>

text \<open>A sequential poll gives one result per feed, in the order of the feeds, each for its own
  feed with the acceptance contract; when the context never ends before a feed it equals the
  concurrent poll.\<close>

lemma PollSequential_contract:
  "map pr_Feed (PollSequential decode p ctxErr env feeds) = feeds \<and>
   list_all (\<lambda>res. list_all (accepted (pr_Feed res)) (pr_Positions res)) (PollSequential decode p ctxErr env feeds) \<and>
   PollSequential decode p (\<lambda>i. None) env feeds = PollAll decode p env feeds"
proof -
  have feed: "pr_Feed (fst (pollFeed decode p e f)) = f" for e f
    by (simp add: pollFeed_def poll_loop_feed)
  have acc: "list_all (accepted f) (pr_Positions (fst (pollFeed decode p e f)))" for e f
    by (simp add: pollFeed_def poll_loop_accepted)
  have "map pr_Feed (PollSequential decode p ctxErr env feeds) = map snd (enumerate 0 feeds)"
    by (auto simp: PollSequential_def poll_error_def feed simp del: map_snd_enumerate split: option.splits)
  moreover have "list_all (\<lambda>res. list_all (accepted (pr_Feed res)) (pr_Positions res)) (PollSequential decode p ctxErr env feeds)"
    by (auto simp: PollSequential_def list.pred_map list.pred_True poll_error_def feed acc list_all_iff [of _ "enumerate 0 feeds"] split: option.splits)
  ultimately show ?thesis by (simp add: PollSequential_def PollAll_def)
qed

end
