(* ===== verification/Demo_Poll.thy ===== *)
theory Demo_Poll
  imports Demo_Session Gtfs_Poller "HOL-Library.Product_Lexorder"
begin

text \<open>
  \<open>internal/demo/poll.go\<close>: the coordinator that decides which region's feeds to fetch next, and
  \<open>internal/demo/health.go\<close>: the tracker of failed writes.

  The coordinator shares the session store: asking for an interval prunes idle sessions, so its
  operations thread the store. They take what the file system answers, the wall clock and the order
  in which the live map is visited; \<open>now\<close> is the instant the scheduler passes.
\<close>

section \<open>The coordinator\<close>

record PollCoordinator =
  pc_interval :: duration
  pc_lastPoll :: "(string, time) fmap"

definition NewPollCoordinator :: "duration \<Rightarrow> PollCoordinator" where
  "NewPollCoordinator interval =
     \<lparr>pc_interval = (if interval \<le> 0 then DefaultPollInterval else interval), pc_lastPoll = fmempty\<rparr>"

definition MarkPolled :: "string list \<Rightarrow> time \<Rightarrow> PollCoordinator \<Rightarrow> PollCoordinator" where
  "MarkPolled regionIDs t c =
     (if regionIDs = [] then c else c\<lparr>pc_lastPoll := fold (\<lambda>rid. fmupd rid t) regionIDs (pc_lastPoll c)\<rparr>)"

definition pollPriorityKlangValley :: nat where "pollPriorityKlangValley = 0"
definition pollPriorityPenang :: nat where "pollPriorityPenang = 1"
definition pollPriorityOther :: nat where "pollPriorityOther = 2"

lemmas priority_defs = pollPriorityKlangValley_def pollPriorityPenang_def pollPriorityOther_def

definition regionPollPriority :: "string \<Rightarrow> nat" where
  "regionPollPriority regionID =
     (if regionID = DefaultRegionID then pollPriorityKlangValley
      else if regionID = ''penang'' then pollPriorityPenang else pollPriorityOther)"

text \<open>What a coordinator operation depends on besides its arguments.\<close>

record poll_env =
  pk_Persist :: persist_env
  pk_Clock :: time
  pk_Order :: "string list"

definition intervalLocked :: "poll_env \<Rightarrow> PollCoordinator \<Rightarrow> string \<Rightarrow> SessionStore \<Rightarrow> duration \<times> SessionStore" where
  "intervalLocked pk c regionID s =
     (case MinPollIntervalForRegion (pk_Persist pk) (pk_Clock pk) (pk_Order pk) regionID s of
        (iv, s') \<Rightarrow>
          (let interval = (if iv \<le> 0 then pc_interval c else iv)
           in (if interval < UpstreamRefreshInterval then UpstreamRefreshInterval else interval, s')))"

definition effectivePollPriorityLocked ::
  "poll_env \<Rightarrow> PollCoordinator \<Rightarrow> string \<Rightarrow> time \<Rightarrow> SessionStore \<Rightarrow> nat \<times> SessionStore" where
  "effectivePollPriorityLocked pk c regionID now s =
     (let pri = regionPollPriority regionID in
      if pri < pollPriorityOther then (pri, s)
      else case fmlookup (pc_lastPoll c) regionID of
        None \<Rightarrow> (pri, s)
      | Some lastP \<Rightarrow>
          (case intervalLocked pk c regionID s of
             (iv, s') \<Rightarrow> (if time_Sub now lastP \<ge> wrap64 (2 * iv) then pollPriorityKlangValley else pri, s')))"

definition isStaleLocked :: "poll_env \<Rightarrow> PollCoordinator \<Rightarrow> string \<Rightarrow> time \<Rightarrow> SessionStore \<Rightarrow> bool \<times> SessionStore" where
  "isStaleLocked pk c regionID now s =
     (case fmlookup (pc_lastPoll c) regionID of
        None \<Rightarrow> (True, s)
      | Some lastP \<Rightarrow> (case intervalLocked pk c regionID s of (iv, s') \<Rightarrow> (time_Sub now lastP \<ge> iv, s')))"

text \<open>A candidate: its id, last poll, whether it was ever polled, and its priority.\<close>

type_synonym candidate = "string \<times> time \<times> bool \<times> nat"

fun preferDueRegion :: "candidate \<Rightarrow> candidate \<Rightarrow> bool" where
  "preferDueRegion (rid, lastP, seen, pri) (bestID, bestLast, bestSeen, bestPri) =
     (if pri \<noteq> bestPri then pri < bestPri
      else if \<not> seen \<and> bestSeen then True
      else if seen \<and> \<not> bestSeen then False
      else if \<not> seen \<and> \<not> bestSeen then rid < bestID
      else if lastP = bestLast then rid < bestID
      else lastP < bestLast)"

fun due_loop ::
  "poll_env \<Rightarrow> PollCoordinator \<Rightarrow> time \<Rightarrow> string list \<Rightarrow> candidate \<Rightarrow> SessionStore \<Rightarrow> candidate \<times> SessionStore" where
  "due_loop pk c now [] best s = (best, s)"
| "due_loop pk c now (rid # rids) best s =
     (case isStaleLocked pk c rid now s of
        (False, s1) \<Rightarrow> due_loop pk c now rids best s1
      | (True, s1) \<Rightarrow>
          (case effectivePollPriorityLocked pk c rid now s1 of
             (pri, s2) \<Rightarrow>
               (let cand = (rid, (case fmlookup (pc_lastPoll c) rid of Some t \<Rightarrow> t | None \<Rightarrow> time_zero),
                            fmlookup (pc_lastPoll c) rid \<noteq> None, pri)
                in if fst best = [] \<or> preferDueRegion cand best then due_loop pk c now rids cand s2
                   else due_loop pk c now rids best s2)))"

definition nextDueRegion :: "poll_env \<Rightarrow> time \<Rightarrow> PollCoordinator \<Rightarrow> SessionStore \<Rightarrow> string \<times> SessionStore" where
  "nextDueRegion pk now c s =
     (case LiveRegionIDs (pk_Persist pk) (pk_Clock pk) (pk_Order pk) s of
        (candidates, s') \<Rightarrow>
          (if candidates = [] then ([], s')
           else map_prod fst id (due_loop pk c now candidates ([], time_zero, False, 0) s')))"

definition FeedsForScheduledPoll ::
  "poll_env \<Rightarrow> time \<Rightarrow> PollCoordinator \<Rightarrow> SessionStore \<Rightarrow> (Feed list \<times> string list) result \<times> SessionStore" where
  "FeedsForScheduledPoll pk now c s =
     (case nextDueRegion pk now c s of
        (rid, s') \<Rightarrow>
          (if rid = [] then (Inr ([], []), s')
           else (case FeedsForRegion rid of Inl e \<Rightarrow> (Inl e, s') | Inr feeds \<Rightarrow> (Inr (feeds, [rid]), s'))))"

definition FeedsForRegionSwitch ::
  "poll_env \<Rightarrow> time \<Rightarrow> string \<Rightarrow> PollCoordinator \<Rightarrow> SessionStore \<Rightarrow> (Feed list \<times> string list) result \<times> SessionStore" where
  "FeedsForRegionSwitch pk now regionID c s =
     (if regionID = [] then FeedsForScheduledPoll pk now c s
      else (case isStaleLocked pk c regionID now s of
              (stale, s') \<Rightarrow>
                (if \<not> stale then (Inr ([], []), s')
                 else (case FeedsForRegion regionID of
                         Inl e \<Rightarrow> (Inl e, s') | Inr feeds \<Rightarrow> (Inr (feeds, [regionID]), s')))))"

section \<open>Intervals\<close>

lemma storedPollSeconds_range: "10 * second \<le> storedPollSeconds n * second \<and> storedPollSeconds n * second \<le> 30 * second"
  using storedPollSeconds_allowed [of n] by (auto simp: AllowedPollSeconds_def go_consts)

lemma min_interval_range:
  "0 \<le> mn \<Longrightarrow> mn \<le> 30 * second \<Longrightarrow> 0 \<le> min_interval m rid es mn \<and> min_interval m rid es mn \<le> 30 * second"
proof (induction es arbitrary: mn)
  case (Cons e es)
  obtain sid n where e: "e = (sid, n)" by fastforce
  have d: "0 \<le> storedPollSeconds k * second \<and> storedPollSeconds k * second \<le> 30 * second" for k
    using storedPollSeconds_range [of k] by (simp add: go_consts)
  show ?case
    using Cons.IH [OF Cons.prems] Cons.IH [OF d [THEN conjunct1] d [THEN conjunct2]]
    by (simp add: e Let_def split: option.splits)
qed simp

text \<open>The sessions' choice never exceeds thirty seconds, which is also the floor, so it decides
  nothing: the interval is the floor while somebody watches the region, and otherwise the
  coordinator's own, raised to the floor.\<close>

lemma intervalLocked_floor: "30 * second \<le> fst (intervalLocked pk c rid s)"
  by (auto simp: intervalLocked_def Let_def UpstreamRefreshInterval_def split: prod.splits)

lemma intervalLocked_value:
  "fst (intervalLocked pk c rid s) =
     (if fst (MinPollIntervalForRegion (pk_Persist pk) (pk_Clock pk) (pk_Order pk) rid s) = 0
      then max UpstreamRefreshInterval (pc_interval c) else UpstreamRefreshInterval)"
  using min_interval_range [of 0 "st_sessions (prune_persist (pk_Persist pk) (pk_Clock pk) s)" rid
      "range_entries (pk_Order pk) (st_live (prune_persist (pk_Persist pk) (pk_Clock pk) s))"]
  by (auto simp: intervalLocked_def MinPollIntervalForRegion_def Let_def UpstreamRefreshInterval_def go_consts)

lemma isStale_since:
  assumes "fst (isStaleLocked pk c rid now s)" and "fmlookup (pc_lastPoll c) rid = Some lastP"
  shows "30 * second \<le> now - lastP"
proof -
  have "30 * second \<le> time_Sub now lastP"
    using assms intervalLocked_floor [of pk c rid s] by (auto simp: isStaleLocked_def split: prod.splits)
  then show ?thesis by (simp add: time_Sub_ge go_consts)
qed

section \<open>The region chosen\<close>

text \<open>The order of candidates, as a key.\<close>

definition due_key :: "candidate \<Rightarrow> nat \<times> nat \<times> int \<times> string" where
  "due_key cand = (case cand of (rid, lastP, seen, pri) \<Rightarrow> (pri, if seen then 1 else 0, if seen then lastP else 0, rid))"

lemma prefer_key: "preferDueRegion a b \<longleftrightarrow> due_key a < due_key b"
  by (cases a; cases b) (auto simp: due_key_def less_prod_def)

text \<open>In a store without idle sessions the coordinator's questions change nothing.\<close>

definition pruned :: "time \<Rightarrow> SessionStore \<Rightarrow> bool" where
  "pruned clk s \<longleftrightarrow> fmpred (\<lambda>_ st. \<not> sessionExpired st clk) (st_sessions s)"

lemma prune_persist_pruned: "pruned clk (prune_persist pe clk s)"
  by (auto simp: pruned_def fmpred_iff split: option.splits if_splits)

lemma prune_persist_id: "pruned clk s \<Longrightarrow> prune_persist pe clk s = s"
proof -
  assume p: "pruned clk s"
  then have "fmfilter (\<lambda>sid. case fmlookup (st_sessions s) sid of None \<Rightarrow> False | Some st \<Rightarrow> \<not> sessionExpired st clk) (st_sessions s) = st_sessions s"
    by (intro fmap_ext) (auto simp: pruned_def fmpred_iff split: option.splits)
  moreover have "\<not> fst (pruneExpiredLocked clk s)"
    using p by (auto simp: pruneExpiredLocked_def pruned_def fmpred_iff split: option.splits)
  ultimately show ?thesis
    by (simp add: prune_persist_def pruneExpiredLocked_def)
qed

lemma questions_keep:
  assumes "pruned (pk_Clock pk) s"
  shows "snd (intervalLocked pk c rid s) = s" "snd (isStaleLocked pk c rid now s) = s"
    "snd (effectivePollPriorityLocked pk c rid now s) = s"
  using assms
  by (auto simp: intervalLocked_def MinPollIntervalForRegion_def isStaleLocked_def effectivePollPriorityLocked_def
      Let_def prune_persist_id split: option.splits)

definition cand_of :: "poll_env \<Rightarrow> PollCoordinator \<Rightarrow> time \<Rightarrow> SessionStore \<Rightarrow> string \<Rightarrow> candidate" where
  "cand_of pk c now s rid =
     (rid, (case fmlookup (pc_lastPoll c) rid of Some t \<Rightarrow> t | None \<Rightarrow> time_zero),
      fmlookup (pc_lastPoll c) rid \<noteq> None, fst (effectivePollPriorityLocked pk c rid now s))"

definition stale :: "poll_env \<Rightarrow> PollCoordinator \<Rightarrow> time \<Rightarrow> SessionStore \<Rightarrow> string \<Rightarrow> bool" where
  "stale pk c now s rid = fst (isStaleLocked pk c rid now s)"

lemma due_loop_Cons:
  assumes "pruned (pk_Clock pk) s"
  shows "due_loop pk c now (rid # rids) best s =
    (if \<not> stale pk c now s rid then due_loop pk c now rids best s
     else if fst best = [] \<or> preferDueRegion (cand_of pk c now s rid) best
       then due_loop pk c now rids (cand_of pk c now s rid) s
     else due_loop pk c now rids best s)"
  using questions_keep(2,3) [OF assms, of c rid now]
  by (cases "isStaleLocked pk c rid now s"; cases "effectivePollPriorityLocked pk c rid now s")
    (auto simp: stale_def cand_of_def Let_def)

text \<open>The loop as a fold over the stale candidates.\<close>

definition pick :: "candidate \<Rightarrow> candidate \<Rightarrow> candidate" where
  "pick x best = (if fst best = [] \<or> preferDueRegion x best then x else best)"

lemma due_loop_fold:
  assumes "pruned (pk_Clock pk) s"
  shows "due_loop pk c now rids best s =
    (fold pick (map (cand_of pk c now s) (filter (stale pk c now s) rids)) best, s)"
  by (induction rids arbitrary: best) (simp_all add: due_loop_Cons [OF assms] pick_def del: due_loop.simps(2))

lemma fold_pick_min:
  assumes "\<And>x. x \<in> set xs \<Longrightarrow> fst x \<noteq> []" and "fst best \<noteq> []"
  shows "fold pick xs best \<in> insert best (set xs) \<and> (\<forall>x \<in> insert best (set xs). due_key (fold pick xs best) \<le> due_key x)"
  using assms
proof (induction xs arbitrary: best)
  case (Cons x xs)
  have "due_key (pick x best) \<le> due_key x \<and> due_key (pick x best) \<le> due_key best \<and> pick x best \<in> {x, best}"
    using Cons.prems(2) by (auto simp: pick_def prefer_key)
  moreover have "fst (pick x best) \<noteq> []"
    using Cons.prems(1) [of x] Cons.prems(2) by (simp add: pick_def)
  note Cons.IH [OF _ this]
  ultimately show ?case using Cons.prems(1) by (auto intro: order_trans)
qed simp

lemma fold_pick_nonempty:
  assumes "\<And>x. x \<in> set xs \<Longrightarrow> fst x \<noteq> []" and "xs \<noteq> []" and "fst best = []"
  shows "fold pick xs best \<in> set xs \<and> (\<forall>x \<in> set xs. due_key (fold pick xs best) \<le> due_key x)"
proof (cases xs)
  case (Cons x ys)
  then have "fold pick xs best = fold pick ys x" using assms(3) by (simp add: pick_def)
  then show ?thesis using fold_pick_min [of ys x] assms(1) Cons by simp
qed (use assms(2) in simp)

text \<open>The regions somebody watches that are due for a fetch.\<close>

abbreviation settled :: "poll_env \<Rightarrow> SessionStore \<Rightarrow> SessionStore" where
  "settled pk s \<equiv> prune_persist (pk_Persist pk) (pk_Clock pk) s"

definition due_regions :: "poll_env \<Rightarrow> PollCoordinator \<Rightarrow> time \<Rightarrow> SessionStore \<Rightarrow> string set" where
  "due_regions pk c now s =
     {ss_Region st |sid st. viewer (pk_Clock pk) s sid st \<and> stale pk c now (settled pk s) (ss_Region st)}"

lemma nextDueRegion_min:
  assumes inv: "session_inv s" and ord: "range_order (pk_Order pk) (st_live s)"
  shows "snd (nextDueRegion pk now c s) = settled pk s \<and>
    (if due_regions pk c now s = {} then fst (nextDueRegion pk now c s) = []
     else fst (nextDueRegion pk now c s) \<in> due_regions pk c now s \<and>
       (\<forall>r\<in>due_regions pk c now s. due_key (cand_of pk c now (settled pk s) (fst (nextDueRegion pk now c s))) \<le>
         due_key (cand_of pk c now (settled pk s) r)))"
proof -
  define s0 where "s0 = settled pk s"
  obtain rids where rids: "LiveRegionIDs (pk_Persist pk) (pk_Clock pk) (pk_Order pk) s = (rids, s0)"
    by (simp add: LiveRegionIDs_def Let_def s0_def)
  have set: "set rids = {ss_Region st |sid st. viewer (pk_Clock pk) s sid st}"
    using LiveRegionIDs_set [OF inv ord, of "pk_Persist pk" "pk_Clock pk"] rids by simp
  have ne: "r \<noteq> []" if "r \<in> set rids" for r
    using that inv session_region_nonempty by (auto simp: set viewer_def session_inv_def fmpred_iff)
  define xs where "xs = map (cand_of pk c now s0) (filter (stale pk c now s0) rids)"
  have pr: "pruned (pk_Clock pk) s0" by (simp add: s0_def prune_persist_pruned)
  have next_eq: "nextDueRegion pk now c s = (fst (fold pick xs ([], time_zero, False, 0)), s0)"
    by (simp add: nextDueRegion_def rids due_loop_fold [OF pr] xs_def)
  have cand: "x = cand_of pk c now s0 (fst x)" if "x \<in> set xs" for x
    using that by (auto simp: xs_def cand_of_def)
  have due: "due_regions pk c now s = fst ` set xs"
  proof -
    have "due_regions pk c now s = {r \<in> set rids. stale pk c now s0 r}"
      unfolding set due_regions_def s0_def by blast
    then show ?thesis by (simp add: xs_def cand_of_def image_image)
  qed
  show ?thesis
  proof (cases "xs = []")
    case False
    have "fst x \<noteq> []" if "x \<in> set xs" for x using that ne by (auto simp: xs_def cand_of_def)
    from fold_pick_nonempty [OF this False, of "([], time_zero, False, 0)"]
    have m: "fold pick xs ([], time_zero, False, 0) \<in> set xs"
      "\<forall>x\<in>set xs. due_key (fold pick xs ([], time_zero, False, 0)) \<le> due_key x" by auto
    have "\<forall>r\<in>due_regions pk c now s. due_key (cand_of pk c now s0 (fst (fold pick xs ([], time_zero, False, 0)))) \<le> due_key (cand_of pk c now s0 r)"
      using m cand by (auto simp: due)
    with m(1) show ?thesis by (simp add: next_eq due False s0_def)
  qed (simp add: next_eq due s0_def)
qed

text \<open>Two viewers, of Johor and of Sarawak; Sarawak was polled seventy seconds ago, Johor never.\<close>

definition watch_store :: SessionStore where
  "watch_store = AcquireLive ''k'' (snd (SetRegion disk_ok (100 * second) ''k'' ''sarawak''
     (AcquireLive ''j'' (snd (SetRegion disk_ok (100 * second) ''j'' ''johor'' (NewSessionStore None))))))"

definition watch_env :: poll_env where
  "watch_env = \<lparr>pk_Persist = disk_ok, pk_Clock = 110 * second, pk_Order = [''j'', ''k'']\<rparr>"

definition watch_coord :: PollCoordinator where
  "watch_coord = MarkPolled [''sarawak''] (40 * second) (NewPollCoordinator DefaultPollInterval)"

lemma watch_reach: "session_reach watch_store"
  unfolding watch_store_def
  by (rule reach_step [OF reach_step [OF reach_step [OF reach_step [OF reach_new step_region] step_acquire] step_region] step_acquire])

lemma watch_regions: "RegionByID ''johor'' = Inr (mapRegions ! 4)" "RegionByID ''sarawak'' = Inr (mapRegions ! 5)"
  by code_simp+

lemma watch_live: "st_live watch_store = fmupd ''k'' 1 (fmupd ''j'' 1 fmempty)"
  by (simp add: watch_store_def AcquireLive_def live_count_def SetRegion_def watch_regions NewSessionStore_def Let_def)

lemma watch_order: "range_order (pk_Order watch_env) (st_live watch_store)"
  by (auto simp: range_order_def watch_env_def watch_live)

lemma watch_interval: "fst (intervalLocked pk watch_coord rid s) = 30 * second"
  by (simp add: intervalLocked_value watch_coord_def MarkPolled_def NewPollCoordinator_def DefaultPollInterval_def
      DefaultPollSeconds_def UpstreamRefreshInterval_def go_consts)

lemma watch_polled: "fmlookup (pc_lastPoll watch_coord) rid = (if rid = ''sarawak'' then Some (40 * second) else None)"
  by (simp add: watch_coord_def MarkPolled_def NewPollCoordinator_def)

lemma watch_session:
  "fmlookup (st_sessions watch_store) ''k'' = Some \<lparr>ss_Region = ''sarawak'', ss_PollSeconds = 10, ss_LastSeen = 100 * second\<rparr>"
  by (simp add: watch_store_def AcquireLive_def SetRegion_sessions [OF watch_regions(2)] SetRegion_sessions [OF watch_regions(1)]
      NewSessionStore_def stateLocked_def defaultState_def DefaultPollSeconds_def sessionExpired_def time_IsZero_def time_Sub_def
      Let_def go_consts)

lemma watch_due: "''sarawak'' \<in> due_regions watch_env watch_coord (110 * second) watch_store"
proof -
  have "viewer (pk_Clock watch_env) watch_store ''k'' \<lparr>ss_Region = ''sarawak'', ss_PollSeconds = 10, ss_LastSeen = 100 * second\<rparr>"
    by (simp add: viewer_def watch_session watch_live live_count_def watch_env_def sessionExpired_def time_IsZero_def time_Sub_def go_consts)
  moreover have "stale watch_env watch_coord (110 * second) s ''sarawak''" for s
    using watch_interval [of watch_env "''sarawak''" s]
    by (auto simp: stale_def isStaleLocked_def watch_polled time_Sub_def go_consts split: prod.splits)
  ultimately show ?thesis unfolding due_regions_def by force
qed

text \<open>C19: over a reachable store, the scheduler picks a region exactly when some watched region is due:
  the picked region is watched and due, and no other such region comes before it in the order of
  priority, never polled first, longest since its poll, smaller id. The order in which the live map
  is visited plays no part.\<close>

theorem nextDueRegion_best:
  assumes "session_reach s" and "range_order (pk_Order pk) (st_live s)"
  shows "if due_regions pk c now s = {} then fst (nextDueRegion pk now c s) = []
     else fst (nextDueRegion pk now c s) \<in> due_regions pk c now s \<and>
       (\<forall>r\<in>due_regions pk c now s. \<not> preferDueRegion (cand_of pk c now (settled pk s) r)
         (cand_of pk c now (settled pk s) (fst (nextDueRegion pk now c s))))"
  using nextDueRegion_min [OF reach_inv [OF assms(1)] assms(2), of now c]
  by (simp add: prefer_key not_less split: if_splits)

theorem nextDueRegion_best_witness:
  "fst (nextDueRegion watch_env (110 * second) watch_coord watch_store) \<in> due_regions watch_env watch_coord (110 * second) watch_store"
  using nextDueRegion_best [OF watch_reach watch_order, of watch_coord "110 * second"] watch_due
  by (auto split: if_splits)

lemma chosen_was_stale:
  "fst (fst (due_loop pk c now rids best s)) \<in> {[], fst best} \<or>
   (\<exists>s'. fst (isStaleLocked pk c (fst (fst (due_loop pk c now rids best s))) now s'))"
proof (induction rids arbitrary: best s)
  case (Cons rid rids)
  obtain st s1 where st: "isStaleLocked pk c rid now s = (st, s1)" by fastforce
  obtain pri s2 where pri: "effectivePollPriorityLocked pk c rid now s1 = (pri, s2)" by fastforce
  have "\<exists>s'. fst (isStaleLocked pk c rid now s')" if st using st that by (metis fst_conv)
  then show ?case
    using Cons.IH [of best s1] Cons.IH [of best s2]
      Cons.IH [of "(rid, (case fmlookup (pc_lastPoll c) rid of Some t \<Rightarrow> t | None \<Rightarrow> time_zero),
        fmlookup (pc_lastPoll c) rid \<noteq> None, pri)" s2]
    by (cases st) (auto simp: st pri Let_def)
qed simp

lemma nextDueRegion_stale:
  "fst (nextDueRegion pk now c s) = [] \<or> (\<exists>s'. fst (isStaleLocked pk c (fst (nextDueRegion pk now c s)) now s'))"
proof -
  obtain rids s' where r: "LiveRegionIDs (pk_Persist pk) (pk_Clock pk) (pk_Order pk) s = (rids, s')" by fastforce
  show ?thesis
    using chosen_was_stale [of pk c now rids "([], time_zero, False, 0)" s'] by (simp add: nextDueRegion_def r)
qed

definition rested :: "PollCoordinator \<Rightarrow> time \<Rightarrow> string \<Rightarrow> bool" where
  "rested c now rid \<longleftrightarrow> (case fmlookup (pc_lastPoll c) rid of None \<Rightarrow> True | Some t \<Rightarrow> 30 * second \<le> now - t)"

lemma stale_rested: "fst (isStaleLocked pk c rid now s) \<Longrightarrow> rested c now rid"
  using isStale_since [of pk c rid now s] by (auto simp: rested_def split: option.splits)

lemma region_switch_plan:
  "case fst (FeedsForRegionSwitch pk now regionID c s) of
     Inl _ \<Rightarrow> True
   | Inr (feeds, ids) \<Rightarrow>
       (ids = [] \<and> feeds = []) \<or>
       (\<exists>rid. ids = [rid] \<and> FeedsForRegion rid = Inr feeds \<and>
          (case fmlookup (pc_lastPoll c) rid of None \<Rightarrow> True | Some t \<Rightarrow> 30 * second \<le> now - t) \<and>
          (regionID = [] \<or> rid = regionID))"
proof (cases "regionID = []")
  case True
  obtain rid s' where n: "nextDueRegion pk now c s = (rid, s')" by fastforce
  then have "rid = [] \<or> rested c now rid"
    using nextDueRegion_stale [of pk now c s] stale_rested by auto
  then show ?thesis
    by (auto simp: True FeedsForRegionSwitch_def FeedsForScheduledPoll_def n rested_def split: sum.splits)
next
  case False
  obtain st s' where n: "isStaleLocked pk c regionID now s = (st, s')" by fastforce
  have "rested c now regionID" if st using stale_rested [of pk c regionID now s] n that by simp
  with False show ?thesis
    by (auto simp: FeedsForRegionSwitch_def n rested_def split: sum.splits)
qed

text \<open>Whatever the sessions ask for, the coordinator plans at most one region per call, with that
  region's feeds, and only a region that was never marked polled or was last marked at least
  thirty seconds ago; this holds for scheduled polls and for region switches.\<close>

lemma upstream_rate_limit:
  "case fst (FeedsForRegionSwitch pk now regionID c s) of
     Inl _ \<Rightarrow> True
   | Inr (feeds, ids) \<Rightarrow>
       (ids = [] \<and> feeds = []) \<or>
       (\<exists>rid. ids = [rid] \<and> FeedsForRegion rid = Inr feeds \<and>
          (case fmlookup (pc_lastPoll c) rid of None \<Rightarrow> True | Some t \<Rightarrow> 30 * second \<le> now - t) \<and>
          (regionID = [] \<or> rid = regionID))"
  by (rule region_switch_plan)

section \<open>Starvation\<close>

text \<open>C32: a watched region other than Klang Valley and Penang that was never polled is passed over
  as long as some other watched region has waited for twice its interval: only regions polled
  before are promoted, so the protection against starvation does not cover it.\<close>

theorem never_polled_passed_over:
  assumes "session_reach s" and "range_order (pk_Order pk) (st_live s)"
    and "fmlookup (pc_lastPoll c) r = None" and "regionPollPriority r = pollPriorityOther"
    and "r' \<in> due_regions pk c now s" and "fmlookup (pc_lastPoll c) r' = Some t"
    and "time_Sub now t \<ge> wrap64 (2 * fst (intervalLocked pk c r' (settled pk s)))"
  shows "fst (nextDueRegion pk now c s) \<noteq> r"
proof
  assume eq: "fst (nextDueRegion pk now c s) = r"
  have "fst (effectivePollPriorityLocked pk c r' now (settled pk s)) < pollPriorityOther"
    using assms(6,7) by (auto simp: effectivePollPriorityLocked_def Let_def priority_defs split: prod.splits)
  moreover have "fst (effectivePollPriorityLocked pk c r now (settled pk s)) = pollPriorityOther"
    using assms(3,4) by (simp add: effectivePollPriorityLocked_def Let_def)
  ultimately have "due_key (cand_of pk c now (settled pk s) r') < due_key (cand_of pk c now (settled pk s) r)"
    by (simp add: due_key_def cand_of_def less_prod_def)
  moreover have "due_regions pk c now s \<noteq> {}" using assms(5) by blast
  ultimately show False
    using nextDueRegion_min [OF reach_inv [OF assms(1)] assms(2), of now c] assms(5) eq by (auto simp: not_less [symmetric])
qed

theorem never_polled_passed_over_witness:
  "fst (nextDueRegion watch_env (110 * second) watch_coord watch_store) \<noteq> ''johor''"
  by (rule never_polled_passed_over [OF watch_reach watch_order _ _ watch_due, of _ "40 * second"])
    (simp_all add: watch_polled watch_interval regionPollPriority_def DefaultRegionID_def time_Sub_def go_consts)

section \<open>Write health\<close>

definition DefaultWriteHealthThreshold :: int where "DefaultWriteHealthThreshold = 3"

record WriteHealth =
  wh_threshold :: int
  wh_consecutiveFailures :: int
  wh_lastErr :: "goerror option"

definition NewWriteHealth :: "int \<Rightarrow> WriteHealth" where
  "NewWriteHealth threshold =
     \<lparr>wh_threshold = (if threshold \<le> 0 then DefaultWriteHealthThreshold else threshold),
      wh_consecutiveFailures = 0, wh_lastErr = None\<rparr>"

definition RecordSuccess :: "WriteHealth \<Rightarrow> WriteHealth" where
  "RecordSuccess h = h\<lparr>wh_consecutiveFailures := 0, wh_lastErr := None\<rparr>"

definition RecordFailure :: "goerror \<Rightarrow> WriteHealth \<Rightarrow> WriteHealth" where
  "RecordFailure err h = h\<lparr>wh_consecutiveFailures := wh_consecutiveFailures h + 1, wh_lastErr := Some err\<rparr>"

definition Healthy :: "WriteHealth \<Rightarrow> bool" where
  "Healthy h \<longleftrightarrow> wh_consecutiveFailures h < wh_threshold h"

definition WriteHealth_Status :: "WriteHealth \<Rightarrow> int \<times> goerror option" where
  "WriteHealth_Status h = (wh_consecutiveFailures h, wh_lastErr h)"

text \<open>A history of writes: \<open>None\<close> is a success, \<open>Some e\<close> a failure with error \<open>e\<close>.\<close>

definition record_writes :: "goerror option list \<Rightarrow> WriteHealth \<Rightarrow> WriteHealth" where
  "record_writes ws h = fold (\<lambda>w. case w of None \<Rightarrow> RecordSuccess | Some e \<Rightarrow> RecordFailure e) ws h"

definition trailing_failures :: "goerror option list \<Rightarrow> nat" where
  "trailing_failures ws = length (takeWhile (\<lambda>w. w \<noteq> None) (rev ws))"

lemma record_writes_state:
  "wh_consecutiveFailures (record_writes ws (NewWriteHealth n)) = int (trailing_failures ws) \<and>
   wh_lastErr (record_writes ws (NewWriteHealth n)) = (if ws = [] then None else last ws) \<and>
   wh_threshold (record_writes ws (NewWriteHealth n)) = (if n \<le> 0 then 3 else n)"
proof (induction ws rule: rev_induct)
  case (snoc w ws)
  then show ?case
    by (cases w) (auto simp: record_writes_def trailing_failures_def RecordSuccess_def RecordFailure_def)
qed (simp add: record_writes_def NewWriteHealth_def trailing_failures_def DefaultWriteHealthThreshold_def)

text \<open>After any history of writes the tracker is healthy exactly when the failures since the last
  success are fewer than the threshold, three by default; its status is their number and the
  error of the last write.\<close>

lemma write_health_exact:
  "Healthy (record_writes ws (NewWriteHealth n)) = (int (trailing_failures ws) < (if n \<le> 0 then 3 else n)) \<and>
   WriteHealth_Status (record_writes ws (NewWriteHealth n)) =
     (int (trailing_failures ws), if ws = [] then None else last ws)"
  using record_writes_state [of ws n] by (simp add: Healthy_def WriteHealth_Status_def)

end
