(* ===== verification/Demo_Notify.thy ===== *)
theory Demo_Notify
  imports Go_Base
begin

text \<open>
  The poll notifications of \<open>internal/demo/pipeline.go\<close>: \<open>NotifyPoll\<close> and \<open>SubscribePolls\<close>.

  Subscribers are channels with room for one signal. \<open>NotifyPoll\<close> copies the list of subscribers
  under the lock and then sends without it, while the goroutine that \<open>SubscribePolls\<close> starts removes
  its channel from the list under the lock and closes the channel after releasing it. The steps
  below are the pieces of these functions between which another goroutine can run: what is done
  under the lock is one step, each send is one step, and so is the close. Which goroutine moves
  next is not determined, so the system is a step relation over the shared state.
\<close>

section \<open>Channels\<close>

record chan =
  ch_Len :: nat
  ch_Closed :: bool

datatype send_result = Sent chan | Dropped | Panic

definition make_chan :: chan where
  "make_chan = \<lparr>ch_Len = 0, ch_Closed = False\<rparr>"

text \<open>\<open>select { case ch <- struct{}{}: default: }\<close> on a channel of capacity one: a send to a closed
  channel panics, also in a \<open>select\<close>.\<close>

definition try_send :: "chan \<Rightarrow> send_result" where
  "try_send c = (if ch_Closed c then Panic else if ch_Len c < 1 then Sent (c\<lparr>ch_Len := ch_Len c + 1\<rparr>) else Dropped)"

definition update_chan :: "nat \<Rightarrow> (chan \<Rightarrow> chan) \<Rightarrow> (nat, chan) fmap \<Rightarrow> (nat, chan) fmap" where
  "update_chan ch f m = (case fmlookup m ch of None \<Rightarrow> m | Some c \<Rightarrow> fmupd ch (f c) m)"

lemma update_chan_lookup [simp]:
  "fmlookup (update_chan ch f m) x = (if x = ch then map_option f (fmlookup m x) else fmlookup m x)"
  by (simp add: update_chan_def split: option.splits)

lemma update_chan_dom [simp]: "fmdom' (update_chan ch f m) = fmdom' m"
  by (auto simp: fmlookup_dom'_iff split: if_splits)

section \<open>State\<close>

text \<open>\<open>ns_pollSubs\<close> is the list of subscribers; \<open>ns_chans\<close> the channels made so far, by number;
  \<open>ns_notify\<close> what each running \<open>NotifyPoll\<close> has still to send to; \<open>ns_removed\<close> the channels
  whose goroutine is between the unlock and the close; \<open>ns_panic\<close> that a send has panicked.\<close>

record notify_state =
  ns_pollSubs :: "nat list"
  ns_chans :: "(nat, chan) fmap"
  ns_notify :: "(nat, nat list) fmap"
  ns_removed :: "nat set"
  ns_panic :: bool

definition notify_init :: notify_state where
  "notify_init = \<lparr>ns_pollSubs = [], ns_chans = fmempty, ns_notify = fmempty, ns_removed = {}, ns_panic = False\<rparr>"

section \<open>Operations\<close>

definition SubscribePolls :: "nat \<Rightarrow> notify_state \<Rightarrow> notify_state" where
  "SubscribePolls ch s = s\<lparr>ns_chans := fmupd ch make_chan (ns_chans s), ns_pollSubs := ns_pollSubs s @ [ch]\<rparr>"

text \<open>The goroutine of a subscription, when its context is done: \<open>remove1\<close> is the loop that cuts out
  the first entry equal to \<open>ch\<close>.\<close>

definition unsubscribe :: "nat \<Rightarrow> notify_state \<Rightarrow> notify_state" where
  "unsubscribe ch s = s\<lparr>ns_pollSubs := remove1 ch (ns_pollSubs s), ns_removed := insert ch (ns_removed s)\<rparr>"

definition close_chan :: "nat \<Rightarrow> notify_state \<Rightarrow> notify_state" where
  "close_chan ch s = s\<lparr>ns_chans := update_chan ch (\<lambda>c. c\<lparr>ch_Closed := True\<rparr>) (ns_chans s),
     ns_removed := ns_removed s - {ch}\<rparr>"

text \<open>The call \<open>i\<close> of \<open>NotifyPoll\<close>: the copy under the lock, one send, and the return.\<close>

definition NotifyPoll_begin :: "nat \<Rightarrow> notify_state \<Rightarrow> notify_state" where
  "NotifyPoll_begin i s = s\<lparr>ns_notify := fmupd i (ns_pollSubs s) (ns_notify s)\<rparr>"

definition NotifyPoll_send :: "nat \<Rightarrow> nat \<Rightarrow> nat list \<Rightarrow> notify_state \<Rightarrow> notify_state" where
  "NotifyPoll_send i ch chs s =
     (let s' = s\<lparr>ns_notify := fmupd i chs (ns_notify s)\<rparr> in
      case fmlookup (ns_chans s) ch of
        None \<Rightarrow> s'
      | Some c \<Rightarrow>
          (case try_send c of
             Sent c' \<Rightarrow> s'\<lparr>ns_chans := fmupd ch c' (ns_chans s)\<rparr>
           | Dropped \<Rightarrow> s'
           | Panic \<Rightarrow> s'\<lparr>ns_panic := True\<rparr>))"

definition NotifyPoll_end :: "nat \<Rightarrow> notify_state \<Rightarrow> notify_state" where
  "NotifyPoll_end i s = s\<lparr>ns_notify := fmdrop i (ns_notify s)\<rparr>"

text \<open>A subscriber takes the signal from its channel.\<close>

definition receive :: "nat \<Rightarrow> notify_state \<Rightarrow> notify_state" where
  "receive ch s = s\<lparr>ns_chans := update_chan ch (\<lambda>c. c\<lparr>ch_Len := ch_Len c - 1\<rparr>) (ns_chans s)\<rparr>"

text \<open>A whole call of \<open>NotifyPoll\<close> that nothing interrupts.\<close>

fun send_all :: "nat \<Rightarrow> nat list \<Rightarrow> notify_state \<Rightarrow> notify_state" where
  "send_all i [] s = s"
| "send_all i (ch # chs) s = send_all i chs (NotifyPoll_send i ch chs s)"

definition NotifyPoll :: "nat \<Rightarrow> notify_state \<Rightarrow> notify_state" where
  "NotifyPoll i s = NotifyPoll_end i (send_all i (ns_pollSubs s) (NotifyPoll_begin i s))"

section \<open>Steps\<close>

inductive notify_step :: "notify_state \<Rightarrow> notify_state \<Rightarrow> bool" where
  subscribe: "fmlookup (ns_chans s) ch = None \<Longrightarrow> notify_step s (SubscribePolls ch s)"
| unsubscribe: "ch \<in> set (ns_pollSubs s) \<Longrightarrow> notify_step s (unsubscribe ch s)"
| close: "ch \<in> ns_removed s \<Longrightarrow> notify_step s (close_chan ch s)"
| begin_notify: "fmlookup (ns_notify s) i = None \<Longrightarrow> notify_step s (NotifyPoll_begin i s)"
| send: "fmlookup (ns_notify s) i = Some (ch # chs) \<Longrightarrow> notify_step s (NotifyPoll_send i ch chs s)"
| end_notify: "fmlookup (ns_notify s) i = Some [] \<Longrightarrow> notify_step s (NotifyPoll_end i s)"
| receive: "notify_step s (receive ch s)"

inductive notify_reach :: "notify_state \<Rightarrow> bool" where
  init: "notify_reach notify_init"
| step: "notify_reach s \<Longrightarrow> \<not> ns_panic s \<Longrightarrow> notify_step s s' \<Longrightarrow> notify_reach s'"

inductive_cases notify_stepE: "notify_step s s'"

lemmas notify_defs = SubscribePolls_def unsubscribe_def close_chan_def NotifyPoll_begin_def NotifyPoll_send_def
  NotifyPoll_end_def receive_def make_chan_def try_send_def

section \<open>Subscribers are open\<close>

text \<open>Every subscriber is listed once, has an open channel with at most one signal, and is not being
  removed; a channel that is being removed is still open; a running \<open>NotifyPoll\<close> only has channels
  that were made.\<close>

definition notify_inv :: "notify_state \<Rightarrow> bool" where
  "notify_inv s \<longleftrightarrow> distinct (ns_pollSubs s) \<and> set (ns_pollSubs s) \<inter> ns_removed s = {} \<and>
     set (ns_pollSubs s) \<union> ns_removed s \<subseteq> fmdom' (ns_chans s) \<and>
     (\<forall>ch c. fmlookup (ns_chans s) ch = Some c \<longrightarrow>
        ch_Len c \<le> 1 \<and> (ch_Closed c \<longleftrightarrow> ch \<notin> set (ns_pollSubs s) \<union> ns_removed s)) \<and>
     (\<forall>i chs. fmlookup (ns_notify s) i = Some chs \<longrightarrow> set chs \<subseteq> fmdom' (ns_chans s))"

lemma notify_inv_init: "notify_inv notify_init"
  by (simp add: notify_inv_def notify_init_def)

lemma notify_inv_unsubscribe:
  assumes "notify_inv s" and "ch \<in> set (ns_pollSubs s)"
  shows "notify_inv (unsubscribe ch s)"
proof -
  have "set (remove1 ch (ns_pollSubs s)) = set (ns_pollSubs s) - {ch}"
    using assms(1) by (simp add: notify_inv_def)
  with assms show ?thesis unfolding notify_inv_def unsubscribe_def by auto
qed

lemma notify_inv_send:
  assumes "notify_inv s" and "fmlookup (ns_notify s) i = Some (ch # chs)"
  shows "notify_inv (NotifyPoll_send i ch chs s)"
proof -
  have "set chs \<subseteq> fmdom' (ns_chans s)" using assms by (force simp: notify_inv_def)
  with assms show ?thesis
    by (auto simp: notify_inv_def NotifyPoll_send_def try_send_def Let_def split: option.splits if_splits) blast+
qed

lemma notify_inv_subscribe:
  assumes "notify_inv s" and "fmlookup (ns_chans s) ch = None"
  shows "notify_inv (SubscribePolls ch s)"
proof -
  have "ch \<notin> fmdom' (ns_chans s)" using assms(2) by (simp add: fmdom'_notI)
  then have "ch \<notin> set (ns_pollSubs s)" "ch \<notin> ns_removed s" using assms(1) by (auto simp: notify_inv_def)
  with assms show ?thesis
    unfolding notify_inv_def SubscribePolls_def make_chan_def by auto blast
qed

lemma notify_inv_close:
  assumes "notify_inv s" and "ch \<in> ns_removed s"
  shows "notify_inv (close_chan ch s)"
proof -
  have subs: "ch \<notin> set (ns_pollSubs s)" using assms by (auto simp: notify_inv_def)
  have "ch_Len c \<le> 1 \<and> (ch_Closed c \<longleftrightarrow> x \<notin> set (ns_pollSubs s) \<union> (ns_removed s - {ch}))"
    if l: "fmlookup (ns_chans (close_chan ch s)) x = Some c" for x c
  proof -
    obtain c0 where c0: "fmlookup (ns_chans s) x = Some c0" "c = (if x = ch then c0\<lparr>ch_Closed := True\<rparr> else c0)"
      using l by (auto simp: close_chan_def split: if_splits)
    then have "ch_Len c0 \<le> 1" "ch_Closed c0 \<longleftrightarrow> x \<notin> set (ns_pollSubs s) \<union> ns_removed s"
      using assms(1) by (auto simp: notify_inv_def)
    with c0(2) subs show ?thesis by auto
  qed
  with assms(1) show ?thesis by (auto simp: notify_inv_def close_chan_def)
qed

lemma notify_inv_step: "notify_step s s' \<Longrightarrow> notify_inv s \<Longrightarrow> notify_inv s'"
proof (erule notify_stepE)
  fix i assume "notify_inv s" "s' = NotifyPoll_begin i s"
  then show "notify_inv s'" by (auto simp: notify_inv_def NotifyPoll_begin_def)
next
  fix i assume "notify_inv s" "s' = NotifyPoll_end i s"
  then show "notify_inv s'" by (auto simp: notify_inv_def NotifyPoll_end_def)
next
  fix ch assume "notify_inv s" "s' = receive ch s"
  then show "notify_inv s'"
    by (auto simp: notify_inv_def receive_def split: if_splits)
qed (auto intro: notify_inv_subscribe notify_inv_unsubscribe notify_inv_close notify_inv_send)

lemma notify_reach_inv: "notify_reach s \<Longrightarrow> notify_inv s"
  by (induction rule: notify_reach.induct) (auto intro: notify_inv_init notify_inv_step)

text \<open>In every reachable state each subscriber is listed once and has an open channel with at most
  one signal, and a channel is closed exactly when it is neither listed nor waiting to be closed.\<close>

lemma subscribers_open:
  assumes "notify_reach s"
  shows "distinct (ns_pollSubs s) \<and> (\<forall>ch \<in> set (ns_pollSubs s). \<exists>c. fmlookup (ns_chans s) ch = Some c \<and> \<not> ch_Closed c \<and> ch_Len c \<le> 1) \<and>
    (\<forall>ch c. fmlookup (ns_chans s) ch = Some c \<longrightarrow> (ch_Closed c \<longleftrightarrow> ch \<notin> set (ns_pollSubs s) \<union> ns_removed s))"
  using notify_reach_inv [OF assms] by (force simp: notify_inv_def fmlookup_dom'_iff)

section \<open>A call that nothing interrupts\<close>

lemma NotifyPoll_send_frame [simp]:
  "ns_pollSubs (NotifyPoll_send i ch chs s) = ns_pollSubs s" "ns_removed (NotifyPoll_send i ch chs s) = ns_removed s"
  by (auto simp: NotifyPoll_send_def Let_def split: option.splits send_result.splits)

lemma send_all_frame [simp]: "ns_pollSubs (send_all i chs s) = ns_pollSubs s" "ns_removed (send_all i chs s) = ns_removed s"
  by (induction chs arbitrary: s) auto

lemma send_all_signals:
  "\<forall>ch \<in> set chs. \<exists>c. fmlookup (ns_chans s) ch = Some c \<and> \<not> ch_Closed c \<Longrightarrow> \<forall>ch c. fmlookup (ns_chans s) ch = Some c \<longrightarrow> ch_Len c \<le> 1 \<Longrightarrow>
   ns_panic (send_all i chs s) = ns_panic s \<and>
   fmlookup (ns_chans (send_all i chs s)) ch =
     map_option (\<lambda>c. if ch \<in> set chs then c\<lparr>ch_Len := 1\<rparr> else c) (fmlookup (ns_chans s) ch)"
proof (induction chs arbitrary: s)
  case (Cons a chs)
  obtain c where c: "fmlookup (ns_chans s) a = Some c" "\<not> ch_Closed c" "ch_Len c \<le> 1" using Cons.prems by auto
  define s' where "s' = NotifyPoll_send i a chs s"
  have s': "ns_panic s' = ns_panic s" "fmlookup (ns_chans s') x = (if x = a then Some (c\<lparr>ch_Len := 1\<rparr>) else fmlookup (ns_chans s) x)" for x
    using c by (auto simp: s'_def NotifyPoll_send_def try_send_def Let_def)
  have "ns_panic (send_all i chs s') = ns_panic s' \<and> fmlookup (ns_chans (send_all i chs s')) ch =
      map_option (\<lambda>c. if ch \<in> set chs then c\<lparr>ch_Len := 1\<rparr> else c) (fmlookup (ns_chans s') ch)"
    using Cons.prems c by (intro Cons.IH) (auto simp: s')
  then show ?case using c by (auto simp: s' s'_def [symmetric])
qed (simp add: option.map_ident)

text \<open>A call of \<open>NotifyPoll\<close> that no unsubscription overtakes does not panic and leaves a signal
  pending for every subscriber, whether or not the last one was taken; all other channels are as
  they were.\<close>

lemma NotifyPoll_signals:
  assumes "notify_reach s" and "\<not> ns_panic s"
  shows "\<not> ns_panic (NotifyPoll i s) \<and> ns_pollSubs (NotifyPoll i s) = ns_pollSubs s \<and>
    (\<forall>ch. fmlookup (ns_chans (NotifyPoll i s)) ch =
       map_option (\<lambda>c. if ch \<in> set (ns_pollSubs s) then c\<lparr>ch_Len := 1\<rparr> else c) (fmlookup (ns_chans s) ch))"
proof -
  let ?b = "NotifyPoll_begin i s"
  have b: "ns_chans ?b = ns_chans s" "ns_panic ?b = ns_panic s" "ns_pollSubs ?b = ns_pollSubs s" by (simp_all add: NotifyPoll_begin_def)
  have inv: "notify_inv s" by (rule notify_reach_inv [OF assms(1)])
  then have "\<forall>ch \<in> set (ns_pollSubs s). \<exists>c. fmlookup (ns_chans ?b) ch = Some c \<and> \<not> ch_Closed c"
    by (force simp: notify_inv_def b fmlookup_dom'_iff)
  moreover have "\<forall>ch c. fmlookup (ns_chans ?b) ch = Some c \<longrightarrow> ch_Len c \<le> 1" using inv by (simp add: notify_inv_def b)
  ultimately have "ns_panic (send_all i (ns_pollSubs s) ?b) = ns_panic ?b \<and>
      fmlookup (ns_chans (send_all i (ns_pollSubs s) ?b)) ch =
      map_option (\<lambda>c. if ch \<in> set (ns_pollSubs s) then c\<lparr>ch_Len := 1\<rparr> else c) (fmlookup (ns_chans ?b) ch)" for ch
    by (rule send_all_signals)
  then show ?thesis using assms(2) by (simp add: NotifyPoll_def NotifyPoll_end_def b)
qed

section \<open>An unsubscription that overtakes a call\<close>

text \<open>A subscriber leaves after \<open>NotifyPoll\<close> has copied the list and before it sends.\<close>

definition one_subscriber :: notify_state where
  "one_subscriber = SubscribePolls 7 notify_init"

definition overtaken :: notify_state where
  "overtaken = close_chan 7 (unsubscribe 7 (NotifyPoll_begin 0 one_subscriber))"

lemma one_subscriber_reach: "notify_reach one_subscriber"
  unfolding one_subscriber_def
  by (rule notify_reach.step [OF notify_reach.init _ notify_step.subscribe]) (simp_all add: notify_init_def)

lemma overtaken_reach: "notify_reach overtaken"
proof -
  have "notify_reach (NotifyPoll_begin 0 one_subscriber)"
    using one_subscriber_reach
    by (rule notify_reach.step [OF _ _ notify_step.begin_notify]) (simp_all add: one_subscriber_def notify_init_def SubscribePolls_def)
  then have "notify_reach (unsubscribe 7 (NotifyPoll_begin 0 one_subscriber))"
    by (rule notify_reach.step [OF _ _ notify_step.unsubscribe])
      (simp_all add: one_subscriber_def notify_init_def SubscribePolls_def NotifyPoll_begin_def)
  then show ?thesis unfolding overtaken_def
    by (rule notify_reach.step [OF _ _ notify_step.close])
      (simp_all add: one_subscriber_def notify_init_def SubscribePolls_def NotifyPoll_begin_def unsubscribe_def)
qed

lemma overtaken_state:
  "\<not> ns_panic overtaken" "ns_pollSubs overtaken = []" "fmlookup (ns_notify overtaken) 0 = Some [7]"
  "ns_panic (NotifyPoll_send 0 7 [] overtaken)"
  by (simp_all add: overtaken_def one_subscriber_def notify_defs notify_init_def Let_def)

lemma panic_step:
  assumes "notify_inv s" "\<not> ns_panic s" "notify_step s s'" "ns_panic s'"
  shows "\<exists>i ch chs c. fmlookup (ns_notify s) i = Some (ch # chs) \<and> ch \<notin> set (ns_pollSubs s) \<and>
    fmlookup (ns_chans s) ch = Some c \<and> ch_Closed c"
  using assms(3)
proof (cases rule: notify_step.cases)
  case (send i ch chs)
  then obtain c where "fmlookup (ns_chans s) ch = Some c" "ch_Closed c"
    using assms(2,4) by (auto simp: NotifyPoll_send_def try_send_def Let_def split: option.splits if_splits)
  with send assms(1) show ?thesis by (fastforce simp: notify_inv_def)
qed (use assms(2,4) in \<open>simp_all add: notify_defs\<close>)

text \<open>C8: a send panics only when the channel was closed since the list was copied, and such a run
  exists: a subscriber that leaves between the copy and the send makes the process panic with a
  send on a closed channel.\<close>

theorem notify_panic_reachable:
  "(\<exists>s s'. notify_reach s \<and> \<not> ns_panic s \<and> notify_step s s' \<and> ns_panic s') \<and>
   (\<forall>s s'. notify_reach s \<longrightarrow> \<not> ns_panic s \<longrightarrow> notify_step s s' \<longrightarrow> ns_panic s' \<longrightarrow>
     (\<exists>i ch chs c. fmlookup (ns_notify s) i = Some (ch # chs) \<and> ch \<notin> set (ns_pollSubs s) \<and>
        fmlookup (ns_chans s) ch = Some c \<and> ch_Closed c))"
  using notify_step.send [OF overtaken_state(3)] overtaken_reach overtaken_state panic_step notify_reach_inv by blast

theorem notify_panic_reachable_witness:
  "\<exists>i ch chs c. fmlookup (ns_notify overtaken) i = Some (ch # chs) \<and> ch \<notin> set (ns_pollSubs overtaken) \<and>
     fmlookup (ns_chans overtaken) ch = Some c \<and> ch_Closed c"
  using notify_panic_reachable notify_step.send [OF overtaken_state(3)] overtaken_reach overtaken_state(1,4) by blast

lemma subscribers_open_example:
  "ns_pollSubs one_subscriber = [7] \<and> (\<exists>c. fmlookup (ns_chans one_subscriber) 7 = Some c \<and> \<not> ch_Closed c)"
  using subscribers_open [OF one_subscriber_reach] by (simp add: one_subscriber_def SubscribePolls_def notify_init_def)

lemma NotifyPoll_signals_example:
  "fmlookup (ns_chans (NotifyPoll 0 one_subscriber)) 7 = Some \<lparr>ch_Len = 1, ch_Closed = False\<rparr>"
  using NotifyPoll_signals [OF one_subscriber_reach, of 0]
  by (simp add: one_subscriber_def SubscribePolls_def notify_init_def make_chan_def)

end
