(* ===== verification/Demo_Pipeline.thy ===== *)
theory Demo_Pipeline
  imports Prefix_DB Gtfs_Poller
begin

text \<open>
  \<open>internal/demo/pipeline.go\<close>: one writer per agency, the latest position of every vehicle in
  memory, and the views the live map reads. (Its subscriber notifications are in the theory
  \<open>Demo_Notify\<close>.)

  The pipeline is a record; the store of each agency is threaded through the operations that call
  it. Where the code ranges over a map the order is an argument.
\<close>

section \<open>State\<close>

definition flushInterval :: duration where "flushInterval = 5 * second"
definition ingestCap :: nat where "ingestCap = 10"
definition LiveMapFreshWindow :: duration where [go_consts]: "LiveMapFreshWindow = 5 * minute"
definition LiveMapVisibleWindow :: duration where [go_consts]: "LiveMapVisibleWindow = 30 * minute"

record IngestRecord =
  ir_Agency :: string
  ir_BucketID :: string
  ir_BucketLabel :: string
  ir_VehicleID :: string
  ir_Lat :: float64
  ir_Lng :: float64
  ir_At :: time

record 's DemoPipeline =
  dp_agencies :: "(string, 's PrefixDB) fmap"
  dp_cfg :: StoreConfig
  dp_eventCount :: int
  dp_lastPoll :: time
  dp_vehicleSeen :: "(string, VehiclePosition) fmap"
  dp_ingestBuf :: "IngestRecord list"
  dp_lastPolled :: "string list"

definition set_agency :: "string \<Rightarrow> 's PrefixDB \<Rightarrow> 's DemoPipeline \<Rightarrow> 's DemoPipeline" where
  "set_agency aid aw p = p\<lparr>dp_agencies := fmupd aid aw (dp_agencies p)\<rparr>"

text \<open>The idiom that keeps the later of two positions with the same key; on equal timestamps the
  one already kept stays.\<close>

definition keep_latest :: "string \<Rightarrow> VehiclePosition \<Rightarrow> (string, VehiclePosition) fmap \<Rightarrow> (string, VehiclePosition) fmap" where
  "keep_latest key pos m =
     (case fmlookup m key of
        None \<Rightarrow> fmupd key pos m
      | Some prev \<Rightarrow> (if vp_Timestamp pos > vp_Timestamp prev then fmupd key pos m else m))"

definition vehicle_key :: "VehiclePosition \<Rightarrow> string" where
  "vehicle_key pos = vp_Agency pos @ '':'' @ vp_VehicleID pos"

section \<open>Opening and hydrating\<close>

definition openAgency ::
  "'s open_env \<Rightarrow> StoreConfig \<Rightarrow> string \<Rightarrow> osenv \<Rightarrow> 's PrefixDB result \<times> handle_event list \<times> osenv" where
  "openAgency oe cfg agencyID env =
     (case OpenPrefixDB oe
        \<lparr>oc_Store = cfg, oc_PrefixID = agencyID, oc_FlushEvery = flushInterval,
         oc_Retention = (sc_Backend cfg \<noteq> BackendMemory), oc_RunMaint = (sc_Backend cfg \<noteq> BackendMemory)\<rparr> env of
        (Inl e, tr, env') \<Rightarrow> (Inl (Wrapf (''open agency '' @ agencyID) e), tr, env')
      | (Inr aw, tr, env') \<Rightarrow> (Inr aw, tr, env'))"

text \<open>The loop over an iterator that keeps the latest position per vehicle id of the key; values
  that do not parse are skipped.\<close>

definition scan_entry :: "string \<times> json \<Rightarrow> (string, VehiclePosition) fmap \<Rightarrow> (string, VehiclePosition) fmap" where
  "scan_entry kv m =
     (case ParseVehiclePosition (snd kv) of
        Inl _ \<Rightarrow> m
      | Inr pos \<Rightarrow> keep_latest (VehicleIDFromKey (fst kv)) pos m)"

definition bootstrapLatest :: "('s, 'c) isle \<Rightarrow> 's PrefixDB \<Rightarrow> (string, VehiclePosition) fmap result" where
  "bootstrapLatest ops aw =
     (case isle_BootstrapView ops (pd_State aw) of
        Inl e \<Rightarrow> Inl e
      | Inr snapshot \<Rightarrow>
          (case snapshot (AgencyPrefix (pd_ID aw)) (AgencyUpperBound (pd_ID aw)) of
             Inl e \<Rightarrow> Inl e
           | Inr (es, Some e) \<Rightarrow> Inl e
           | Inr (es, None) \<Rightarrow> Inr (fold scan_entry es fmempty)))"

definition merge_positions :: "VehiclePosition list \<Rightarrow> (string, VehiclePosition) fmap \<Rightarrow> (string, VehiclePosition) fmap" where
  "merge_positions ps m = fold (\<lambda>pos. keep_latest (vehicle_key pos) pos) ps m"

text \<open>\<open>inner aid\<close> is the order in which the latest positions of agency \<open>aid\<close> are ranged over.\<close>

fun hydrateFromSnapshot ::
  "('s, 'c) isle \<Rightarrow> (string \<Rightarrow> string list) \<Rightarrow> string list \<Rightarrow> 's DemoPipeline \<Rightarrow> goerror option \<times> 's DemoPipeline" where
  "hydrateFromSnapshot ops inner [] p = (None, p)"
| "hydrateFromSnapshot ops inner (aid # aids) p =
     (case fmlookup (dp_agencies p) aid of
        None \<Rightarrow> hydrateFromSnapshot ops inner aids p
      | Some aw \<Rightarrow>
          (case bootstrapLatest ops aw of
             Inl e \<Rightarrow> (Some (Wrapf (''hydrate '' @ aid) e), p)
           | Inr latest \<Rightarrow>
               hydrateFromSnapshot ops inner aids
                 (p\<lparr>dp_vehicleSeen := merge_positions (range_values (inner aid) latest) (dp_vehicleSeen p)\<rparr>)))"

fun close_agencies :: "('s, 'c) isle \<Rightarrow> string list \<Rightarrow> goerror option \<Rightarrow> 's DemoPipeline action" where
  "close_agencies ops [] first p = (first, p)"
| "close_agencies ops (aid # aids) first p =
     (case fmlookup (dp_agencies p) aid of
        None \<Rightarrow> close_agencies ops aids first p
      | Some aw \<Rightarrow>
          (case PrefixDB_Close ops aw of
             (e, aw') \<Rightarrow> close_agencies ops aids (first_error first e) (set_agency aid aw' p)))"

definition DemoPipeline_Close :: "('s, 'c) isle \<Rightarrow> string list \<Rightarrow> 's DemoPipeline action" where
  "DemoPipeline_Close ops aids p = close_agencies ops aids None p"

fun open_agencies ::
  "'s open_env \<Rightarrow> StoreConfig \<Rightarrow> Feed list \<Rightarrow> 's DemoPipeline \<Rightarrow> osenv \<Rightarrow> goerror option \<times> 's DemoPipeline \<times> osenv" where
  "open_agencies oe cfg [] p env = (None, p, env)"
| "open_agencies oe cfg (feed # feeds) p env =
     (case openAgency oe cfg (fd_Agency feed) env of
        (Inl e, _, env') \<Rightarrow> (Some e, p, env')
      | (Inr aw, _, env') \<Rightarrow> open_agencies oe cfg feeds (set_agency (fd_Agency feed) aw p) env')"

definition empty_pipeline :: "StoreConfig \<Rightarrow> 's DemoPipeline" where
  "empty_pipeline cfg = \<lparr>dp_agencies = fmempty, dp_cfg = cfg, dp_eventCount = 0, dp_lastPoll = time_zero,
     dp_vehicleSeen = fmempty, dp_ingestBuf = [], dp_lastPolled = []\<rparr>"

definition NewPipeline ::
  "('s, 'c) isle \<Rightarrow> 's open_env \<Rightarrow> StoreConfig \<Rightarrow> Feed list \<Rightarrow> (string \<Rightarrow> string list) \<Rightarrow> string list \<Rightarrow> osenv \<Rightarrow>
   goerror option \<times> 's DemoPipeline \<times> osenv" where
  "NewPipeline ops oe cfg feeds inner order env =
     (case open_agencies oe cfg feeds (empty_pipeline cfg) env of
        (Some e, p, env') \<Rightarrow> (Some e, snd (DemoPipeline_Close ops order p), env')
      | (None, p, env') \<Rightarrow>
          (case hydrateFromSnapshot ops inner order p of
             (Some e, p') \<Rightarrow> (Some e, snd (DemoPipeline_Close ops order p'), env')
           | (None, p') \<Rightarrow> (None, p', env')))"

section \<open>Writing\<close>

definition ingest_record :: "VehiclePosition \<Rightarrow> IngestRecord" where
  "ingest_record pos =
     (let (bucketID, bucketLabel) =
        (case RegionForAgency (vp_Agency pos) of None \<Rightarrow> ([], ''Unknown'') | Some r \<Rightarrow> (rg_ID r, rg_Label r))
      in \<lparr>ir_Agency = vp_Agency pos, ir_BucketID = bucketID, ir_BucketLabel = bucketLabel,
          ir_VehicleID = vp_VehicleID pos, ir_Lat = vp_Lat pos, ir_Lng = vp_Lng pos, ir_At = vp_Timestamp pos\<rparr>)"

definition recordIngest :: "VehiclePosition \<Rightarrow> 's DemoPipeline \<Rightarrow> 's DemoPipeline" where
  "recordIngest pos p =
     (let buf = ingest_record pos # dp_ingestBuf p
      in p\<lparr>dp_ingestBuf := (if length buf > ingestCap then take ingestCap buf else buf)\<rparr>)"

text \<open>What a successful put does to the state in memory, under the lock.\<close>

definition note_position :: "VehiclePosition \<Rightarrow> 's DemoPipeline \<Rightarrow> 's DemoPipeline" where
  "note_position pos p = recordIngest pos
     (p\<lparr>dp_eventCount := dp_eventCount p + 1,
        dp_vehicleSeen := keep_latest (vehicle_key pos) pos (dp_vehicleSeen p)\<rparr>)"

fun Write :: "('s, 'c) isle \<Rightarrow> VehiclePosition list \<Rightarrow> 's DemoPipeline \<Rightarrow> (nat \<times> goerror option) \<times> 's DemoPipeline" where
  "Write ops [] p = ((0, None), p)"
| "Write ops (pos # ps) p =
     (case fmlookup (dp_agencies p) (vp_Agency pos) of
        None \<Rightarrow> ((0, Some (Errorf (''unknown agency '' @ fmt_q (vp_Agency pos)))), p)
      | Some aw \<Rightarrow>
          (case VehiclePosition_ValueBytes pos of
             Inl e \<Rightarrow> ((0, Some e), p)
           | Inr val \<Rightarrow>
               (case isle_Put ops (VehiclePosition_KeyBytes pos) val (pd_State aw) of
                  (Some e, s') \<Rightarrow> ((0, Some e), set_agency (vp_Agency pos) (aw\<lparr>pd_State := s'\<rparr>) p)
                | (None, s') \<Rightarrow>
                    map_prod (map_prod Suc id) id
                      (Write ops ps (note_position pos (set_agency (vp_Agency pos) (aw\<lparr>pd_State := s'\<rparr>) p))))))"

fun DemoPipeline_FlushAll :: "('s, 'c) isle \<Rightarrow> string list \<Rightarrow> 's DemoPipeline action" where
  "DemoPipeline_FlushAll ops [] p = (None, p)"
| "DemoPipeline_FlushAll ops (aid # aids) p =
     (case fmlookup (dp_agencies p) aid of
        None \<Rightarrow> DemoPipeline_FlushAll ops aids p
      | Some aw \<Rightarrow>
          (case isle_Flush ops (pd_State aw) of
             (Some e, s1) \<Rightarrow> (Some e, set_agency aid (aw\<lparr>pd_State := s1\<rparr>) p)
           | (None, s1) \<Rightarrow>
               (case RefreshReader ops (pd_Reader aw) s1 of
                  (Some e, s2) \<Rightarrow> (Some e, set_agency aid (aw\<lparr>pd_State := s2\<rparr>) p)
                | (None, s2) \<Rightarrow> DemoPipeline_FlushAll ops aids (set_agency aid (aw\<lparr>pd_State := s2\<rparr>) p))))"

section \<open>Reading\<close>

definition LatestPositions :: "string list \<Rightarrow> 's DemoPipeline \<Rightarrow> VehiclePosition list" where
  "LatestPositions order p = range_values order (dp_vehicleSeen p)"

definition LatestPositionsFor :: "string set \<Rightarrow> string list \<Rightarrow> 's DemoPipeline \<Rightarrow> VehiclePosition list" where
  "LatestPositionsFor agencies order p = filter (\<lambda>pos. vp_Agency pos \<in> agencies) (range_values order (dp_vehicleSeen p))"

definition LivePositionsFor :: "string set \<Rightarrow> time \<Rightarrow> string list \<Rightarrow> 's DemoPipeline \<Rightarrow> VehiclePosition list" where
  "LivePositionsFor agencies now order p =
     filter (\<lambda>pos. vp_Agency pos \<in> agencies \<and> time_Sub now (vp_Timestamp pos) \<le> LiveMapVisibleWindow)
       (range_values order (dp_vehicleSeen p))"

definition DemoPipeline_Stats :: "'s DemoPipeline \<Rightarrow> nat \<times> time \<times> int" where
  "DemoPipeline_Stats p = (fcard (fmdom (dp_vehicleSeen p)), dp_lastPoll p, dp_eventCount p)"

fun count_live :: "string set \<Rightarrow> time \<Rightarrow> VehiclePosition list \<Rightarrow> nat \<Rightarrow> nat" where
  "count_live agencies now [] n = n"
| "count_live agencies now (pos # ps) n =
     (if vp_Agency pos \<notin> agencies then count_live agencies now ps n
      else if time_Sub now (vp_Timestamp pos) \<le> LiveMapVisibleWindow then count_live agencies now ps (n + 1)
      else count_live agencies now ps n)"

definition StatsFor :: "string set \<Rightarrow> time \<Rightarrow> string list \<Rightarrow> 's DemoPipeline \<Rightarrow> nat \<times> time \<times> int" where
  "StatsFor agencies now order p =
     (count_live agencies now (range_values order (dp_vehicleSeen p)) 0, dp_lastPoll p, dp_eventCount p)"

definition SetLastPoll :: "time \<Rightarrow> 's DemoPipeline \<Rightarrow> 's DemoPipeline" where
  "SetLastPoll t p = p\<lparr>dp_lastPoll := t\<rparr>"

definition SetLastPolledAgencies :: "string list \<Rightarrow> 's DemoPipeline \<Rightarrow> 's DemoPipeline" where
  "SetLastPolledAgencies agencies p = p\<lparr>dp_lastPolled := agencies\<rparr>"

definition LastPolledAgencies :: "'s DemoPipeline \<Rightarrow> string list" where
  "LastPolledAgencies p = dp_lastPolled p"

definition RecentIngestGrouped :: "'s DemoPipeline \<Rightarrow> (string, IngestRecord list) fmap" where
  "RecentIngestGrouped p = fold (\<lambda>rec m. fmupd (ir_BucketLabel rec)
     ((case fmlookup m (ir_BucketLabel rec) of None \<Rightarrow> [] | Some rs \<Rightarrow> rs) @ [rec]) m) (dp_ingestBuf p) fmempty"

definition RecentIngestForRegion :: "string \<Rightarrow> 's DemoPipeline \<Rightarrow> IngestRecord list" where
  "RecentIngestForRegion regionID p = filter (\<lambda>rec. ir_BucketID rec = regionID) (dp_ingestBuf p)"

definition scanLatest :: "('s, 'c) isle \<Rightarrow> string list \<Rightarrow> 's PrefixDB \<Rightarrow> VehiclePosition list result \<times> 's PrefixDB" where
  "scanLatest ops order aw =
     (case RefreshReader ops (pd_Reader aw) (pd_State aw) of
        (Some e, s') \<Rightarrow> (Inl e, aw\<lparr>pd_State := s'\<rparr>)
      | (None, s') \<Rightarrow>
          (case isle_NewIterator ops s' (AgencyPrefix (pd_ID aw)) (AgencyUpperBound (pd_ID aw)) of
             Inl e \<Rightarrow> (Inl e, aw\<lparr>pd_State := s'\<rparr>)
           | Inr (es, Some e) \<Rightarrow> (Inl e, aw\<lparr>pd_State := s'\<rparr>)
           | Inr (es, None) \<Rightarrow> (Inr (range_values order (fold scan_entry es fmempty)), aw\<lparr>pd_State := s'\<rparr>)))"

fun scan_agencies ::
  "('s, 'c) isle \<Rightarrow> (string \<Rightarrow> string list) \<Rightarrow> string list \<Rightarrow> (string, VehiclePosition) fmap \<Rightarrow> 's DemoPipeline \<Rightarrow>
   (string, VehiclePosition) fmap result \<times> 's DemoPipeline" where
  "scan_agencies ops inner [] latest p = (Inr latest, p)"
| "scan_agencies ops inner (aid # aids) latest p =
     (case fmlookup (dp_agencies p) aid of
        None \<Rightarrow> scan_agencies ops inner aids latest p
      | Some aw \<Rightarrow>
          (case scanLatest ops (inner aid) aw of
             (Inl e, aw') \<Rightarrow> (Inl (Wrapf (''scan '' @ aid) e), set_agency aid aw' p)
           | (Inr positions, aw') \<Rightarrow>
               scan_agencies ops inner aids (merge_positions positions latest) (set_agency aid aw' p)))"

text \<open>The values of \<open>latest\<close>, in the order the map is ranged over.\<close>

definition ScanLatest ::
  "('s, 'c) isle \<Rightarrow> (string \<Rightarrow> string list) \<Rightarrow> string list \<Rightarrow> ((string, VehiclePosition) fmap \<Rightarrow> string list) \<Rightarrow> 's DemoPipeline \<Rightarrow>
   VehiclePosition list result \<times> 's DemoPipeline" where
  "ScanLatest ops inner order values_order p =
     map_prod (map_sum id (\<lambda>latest. range_values (values_order latest) latest)) id (scan_agencies ops inner order fmempty p)"

section \<open>Keeping the latest\<close>

text \<open>The latest of a list of positions: the first with the greatest timestamp.\<close>

fun latest_of :: "VehiclePosition option \<Rightarrow> VehiclePosition list \<Rightarrow> VehiclePosition option" where
  "latest_of best [] = best"
| "latest_of None (p # ps) = latest_of (Some p) ps"
| "latest_of (Some b) (p # ps) = latest_of (Some (if vp_Timestamp p > vp_Timestamp b then p else b)) ps"

lemma keep_latest_lookup:
  "fmlookup (keep_latest key pos m) k = (if k = key then latest_of (fmlookup m k) [pos] else fmlookup m k)"
  by (cases "fmlookup m key") (auto simp: keep_latest_def)

lemma latest_of_append: "latest_of b (xs @ ys) = latest_of (latest_of b xs) ys"
  by (induction b xs rule: latest_of.induct) auto

lemma latest_of_Cons: "latest_of b (x # xs) = latest_of (latest_of b [x]) xs"
  using latest_of_append [of b "[x]" xs] by simp

lemma merge_lookup:
  "fmlookup (merge_positions ps m) k = latest_of (fmlookup m k) (filter (\<lambda>pos. vehicle_key pos = k) ps)"
proof (induction ps arbitrary: m)
  case (Cons pos ps)
  have "merge_positions (pos # ps) m = merge_positions ps (keep_latest (vehicle_key pos) pos m)"
    by (simp add: merge_positions_def)
  then show ?case
    by (simp add: Cons.IH keep_latest_lookup latest_of_Cons [of _ pos "filter _ ps"])
qed (simp add: merge_positions_def)

lemma latest_of_max:
  "case latest_of b ps of
     None \<Rightarrow> b = None \<and> ps = []
   | Some x \<Rightarrow> x \<in> set_option b \<union> set ps \<and> (\<forall>y \<in> set_option b \<union> set ps. vp_Timestamp y \<le> vp_Timestamp x)"
proof (induction b ps rule: latest_of.induct)
  case (1 best)
  then show ?case by (cases best) auto
next
  case (2 p ps)
  then show ?case by (auto split: option.splits)
next
  case (3 b p ps)
  then show ?case by (auto split: option.splits if_splits)
qed

end
