(* ===== verification/Demo_Write.thy ===== *)
theory Demo_Write
  imports Demo_Pipeline
begin

text \<open>
  What the demo pipeline guarantees: a write is exactly a prefix of its batch, over a live store it
  stops only at a position that can never be written, the views of the live map show the window
  they promise, and a restarted pipeline recovers the live map from the flushed store.
\<close>

section \<open>A write is a prefix of its batch\<close>

lemma note_position_simps [simp]:
  "dp_agencies (note_position pos p) = dp_agencies p"
  "dp_eventCount (note_position pos p) = dp_eventCount p + 1"
  "dp_vehicleSeen (note_position pos p) = keep_latest (vehicle_key pos) pos (dp_vehicleSeen p)"
  "dp_ingestBuf (note_position pos p) = take ingestCap (ingest_record pos # dp_ingestBuf p)"
  "dp_lastPoll (note_position pos p) = dp_lastPoll p"
  "dp_lastPolled (note_position pos p) = dp_lastPolled p"
  by (simp_all add: note_position_def recordIngest_def Let_def)

lemma set_agency_simps [simp]:
  "fmlookup (dp_agencies (set_agency aid aw p)) k = (if k = aid then Some aw else fmlookup (dp_agencies p) k)"
  "dp_eventCount (set_agency aid aw p) = dp_eventCount p"
  "dp_vehicleSeen (set_agency aid aw p) = dp_vehicleSeen p"
  "dp_ingestBuf (set_agency aid aw p) = dp_ingestBuf p"
  "dp_lastPoll (set_agency aid aw p) = dp_lastPoll p"
  "dp_lastPolled (set_agency aid aw p) = dp_lastPolled p"
  by (simp_all add: set_agency_def)

lemma merge_positions_Cons [simp]:
  "merge_positions (pos # ps) m = merge_positions ps (keep_latest (vehicle_key pos) pos m)"
  "merge_positions [] m = m"
  by (simp_all add: merge_positions_def)

lemma map_Suc_result:
  "map_prod (map_prod Suc id) id x = ((n, e), p) \<longleftrightarrow> (\<exists>m. n = Suc m \<and> x = ((m, e), p))"
  by (cases x) auto

lemma Write_state:
  assumes "Write ops ps p = ((n, err), p')"
  shows "n \<le> length ps \<and> (err = None \<longleftrightarrow> n = length ps) \<and>
    dp_eventCount p' = dp_eventCount p + int n \<and>
    dp_vehicleSeen p' = merge_positions (take n ps) (dp_vehicleSeen p) \<and>
    take ingestCap (dp_ingestBuf p') = take ingestCap (rev (map ingest_record (take n ps)) @ dp_ingestBuf p)"
  using assms
proof (induction ops ps p arbitrary: n rule: Write.induct)
  case (2 ops pos ps p)
  show ?case
  proof (cases "n = 0")
    case True
    then show ?thesis
      using 2(2) by (auto simp: map_Suc_result split: option.splits sum.splits prod.splits)
  next
    case False
    then obtain aw val s' where ok: "fmlookup (dp_agencies p) (vp_Agency pos) = Some aw"
        "VehiclePosition_ValueBytes pos = Inr val"
        "isle_Put ops (VehiclePosition_KeyBytes pos) val (pd_State aw) = (None, s')"
      using 2(2) by (auto split: option.splits sum.splits prod.splits)
    obtain m where m: "n = Suc m"
      "Write ops ps (note_position pos (set_agency (vp_Agency pos) (aw\<lparr>pd_State := s'\<rparr>) p)) = ((m, err), p')"
      using 2(2) False ok by (auto simp: map_Suc_result)
    have "take ingestCap (dp_ingestBuf p') =
        take ingestCap (rev (map ingest_record (take m ps)) @ take ingestCap (ingest_record pos # dp_ingestBuf p))"
      using 2(1) [OF ok(1) ok(2) ok(3) [symmetric] refl m(2)] by simp
    also have "\<dots> = take ingestCap (rev (map ingest_record (take m ps)) @ ingest_record pos # dp_ingestBuf p)"
      by (simp add: take_append min_def)
    finally show ?thesis
      using 2(1) [OF ok(1) ok(2) ok(3) [symmetric] refl m(2)] m(1) by simp
  qed
qed simp

lemma Write_buf:
  assumes "Write ops ps p = ((n, err), p')" and "length (dp_ingestBuf p) \<le> ingestCap"
  shows "dp_ingestBuf p' = take ingestCap (rev (map ingest_record (take n ps)) @ dp_ingestBuf p)"
proof -
  have "length (dp_ingestBuf p') \<le> ingestCap"
    using assms
    by (induction ops ps p arbitrary: n rule: Write.induct)
      (auto simp: map_Suc_result split: option.splits sum.splits prod.splits)
  then show ?thesis using Write_state [OF assms(1)] by simp
qed

text \<open>Whatever the store answers, a write handles exactly an initial part of its batch: the count
  it returns is the length of that part, which is the whole batch exactly when there is no error;
  the event counter grows by it, the position kept for each vehicle is the latest among the one
  kept before and those handled (the earlier one on equal timestamps), and the ring buffer holds
  the ten newest records, newest first.\<close>

lemma Write_prefix:
  assumes "Write ops ps p = ((n, err), p')" and "length (dp_ingestBuf p) \<le> ingestCap"
  shows "n \<le> length ps \<and> (err = None \<longleftrightarrow> n = length ps) \<and> dp_eventCount p' = dp_eventCount p + int n \<and>
    (\<forall>key. fmlookup (dp_vehicleSeen p') key =
       latest_of (fmlookup (dp_vehicleSeen p) key) (filter (\<lambda>pos. vehicle_key pos = key) (take n ps))) \<and>
    dp_ingestBuf p' = take ingestCap (rev (map ingest_record (take n ps)) @ dp_ingestBuf p)"
  using Write_state [OF assms(1)] Write_buf [OF assms] by (simp add: merge_lookup)

section \<open>Writing over a live store\<close>

definition writable :: "VehiclePosition \<Rightarrow> bool" where
  "writable pos \<longleftrightarrow> list_all float_finite [vp_Lat pos, vp_Lng pos, vp_Bearing pos, vp_Speed pos] \<and>
     time_json_ok (vp_Timestamp pos)"

lemma ValueBytes_writable: "(\<exists>v. VehiclePosition_ValueBytes pos = Inr v) \<longleftrightarrow> writable pos"
  using vehicle_value_cases [of pos] by (cases "VehiclePosition_ValueBytes pos") (auto simp: writable_def)

definition agencies_ok :: "('s \<Rightarrow> bool) \<Rightarrow> 's DemoPipeline \<Rightarrow> bool" where
  "agencies_ok live p \<longleftrightarrow> fmpred (\<lambda>aid aw. pd_ID aw = aid \<and> pd_Reader aw \<and> live (pd_State aw)) (dp_agencies p)"

definition agency_contents :: "('s \<Rightarrow> kv) \<Rightarrow> 's DemoPipeline \<Rightarrow> string \<Rightarrow> kv option" where
  "agency_contents f p aid = map_option (\<lambda>aw. f (pd_State aw)) (fmlookup (dp_agencies p) aid)"

definition put_position :: "string \<Rightarrow> VehiclePosition \<Rightarrow> kv \<Rightarrow> kv" where
  "put_position aid pos m = (if vp_Agency pos = aid
     then fmupd (VehiclePosition_Key pos) (projr (VehiclePosition_ValueBytes pos)) m else m)"

definition can_write :: "string set \<Rightarrow> VehiclePosition \<Rightarrow> bool" where
  "can_write agencies pos \<longleftrightarrow> vp_Agency pos \<in> agencies \<and> writable pos"

lemma agencies_okD:
  "agencies_ok live p \<Longrightarrow> fmlookup (dp_agencies p) aid = Some aw \<Longrightarrow> pd_ID aw = aid \<and> pd_Reader aw \<and> live (pd_State aw)"
  by (auto simp: agencies_ok_def fmpred_iff)

lemma agencies_ok_set:
  "agencies_ok live p \<Longrightarrow> pd_ID aw = aid \<Longrightarrow> pd_Reader aw \<Longrightarrow> live (pd_State aw) \<Longrightarrow> agencies_ok live (set_agency aid aw p)"
  by (auto simp: agencies_ok_def fmpred_iff split: if_splits)

lemma agencies_ok_cong: "dp_agencies p = dp_agencies p' \<Longrightarrow> agencies_ok live p = agencies_ok live p'"
  by (simp add: agencies_ok_def)

lemma dom_set_agency: "fmlookup (dp_agencies p) aid \<noteq> None \<Longrightarrow> fmdom' (dp_agencies (set_agency aid aw p)) = fmdom' (dp_agencies p)"
  by (auto simp: set_agency_def fmlookup_dom'_iff)

context live_store
begin

lemma Write_live:
  "agencies_ok live p \<Longrightarrow> ok = can_write (fmdom' (dp_agencies p)) \<Longrightarrow>
   \<exists>err p'. Write ops ps p = ((length (takeWhile ok ps), err), p') \<and> agencies_ok live p' \<and>
     (\<forall>aid. agency_contents current p' aid =
        map_option (fold (put_position aid) (takeWhile ok ps)) (agency_contents current p aid))"
proof (induction ps arbitrary: p)
  case (Cons pos ps)
  show ?case
  proof (cases "ok pos")
    case False
    then show ?thesis
      using Cons.prems ValueBytes_writable [of pos]
      by (auto simp: can_write_def fmlookup_dom'_iff option.map_ident split: option.splits sum.splits)
  next
    case True
    then obtain aw val where aw: "fmlookup (dp_agencies p) (vp_Agency pos) = Some aw" "VehiclePosition_ValueBytes pos = Inr val"
      using Cons.prems(2) ValueBytes_writable [of pos] by (auto simp: can_write_def fmlookup_dom'_iff)
    obtain s' where s': "isle_Put ops (VehiclePosition_Key pos) val (pd_State aw) = (None, s')" "live s'"
      using live_put agencies_okD [OF Cons.prems(1) aw(1)] by blast
    define q where "q = note_position pos (set_agency (vp_Agency pos) (aw\<lparr>pd_State := s'\<rparr>) p)"
    have q: "agencies_ok live q" "fmdom' (dp_agencies q) = fmdom' (dp_agencies p)"
      using agencies_ok_set [OF Cons.prems(1), of "aw\<lparr>pd_State := s'\<rparr>" "vp_Agency pos"] agencies_okD [OF Cons.prems(1) aw(1)] s'(2)
        aw(1) dom_set_agency [of p "vp_Agency pos" "aw\<lparr>pd_State := s'\<rparr>"] agencies_ok_cong [of q "set_agency (vp_Agency pos) (aw\<lparr>pd_State := s'\<rparr>) p"]
      by (simp_all add: q_def)
    have "agency_contents current q aid = map_option (put_position aid pos) (agency_contents current p aid)" for aid
      using aw put_ok [OF s'(1)] by (auto simp: q_def agency_contents_def put_position_def option.map_comp comp_def option.map_ident)
    with Cons.IH [OF q(1)] q(2) Cons.prems(2) True aw s' show ?thesis
      by (auto simp: q_def map_Suc_result VehiclePosition_KeyBytes_def option.map_comp comp_def)
  qed
qed (simp add: option.map_id)

lemma Flush_agency:
  assumes "live s"
  shows "\<exists>s1 s2. isle_Flush ops s = (None, s1) \<and> RefreshReader ops True s1 = (None, s2) \<and> live s2 \<and>
    current s2 = current s \<and> committed s2 = current s"
proof -
  obtain s1 where s1: "isle_Flush ops s = (None, s1)" "live s1" using live_flush [OF assms] by blast
  obtain s2 where s2: "isle_Refresh ops s1 = (None, s2)" "live s2" using live_refresh [OF s1(2)] by blast
  show ?thesis using s1 s2 flush_ok [OF s1(1)] refresh_ok [OF s2(1)] by (simp add: RefreshReader_def)
qed

lemma FlushAll_live:
  "agencies_ok live p \<Longrightarrow> distinct aids \<Longrightarrow>
   \<exists>p'. DemoPipeline_FlushAll ops aids p = (None, p') \<and> agencies_ok live p' \<and> dp_vehicleSeen p' = dp_vehicleSeen p \<and>
     (\<forall>aid. agency_contents current p' aid = agency_contents current p aid \<and>
       agency_contents committed p' aid = agency_contents (if aid \<in> set aids then current else committed) p aid)"
proof (induction aids arbitrary: p)
  case (Cons aid aids)
  show ?case
  proof (cases "fmlookup (dp_agencies p) aid")
    case None
    then show ?thesis using Cons by (fastforce simp: agency_contents_def)
  next
    case (Some aw)
    note ok = agencies_okD [OF Cons.prems(1) Some]
    obtain s1 s2 where s: "isle_Flush ops (pd_State aw) = (None, s1)" "RefreshReader ops True s1 = (None, s2)" "live s2"
        "current s2 = current (pd_State aw)" "committed s2 = current (pd_State aw)"
      using Flush_agency ok by blast
    have "agencies_ok live (set_agency aid (aw\<lparr>pd_State := s2\<rparr>) p)"
      using ok s(3) by (intro agencies_ok_set [OF Cons.prems(1)]) auto
    from Cons.IH [OF this] Cons.prems(2) Some s ok show ?thesis
      by (fastforce simp: agency_contents_def)
  qed
qed simp

lemma bootstrapLatest_live:
  assumes "live (pd_State aw)"
  shows "bootstrapLatest ops aw =
    Inr (fold scan_entry (kv_range (AgencyPrefix (pd_ID aw)) (AgencyUpperBound (pd_ID aw)) (committed (pd_State aw))) fmempty)"
proof -
  obtain it where it: "isle_BootstrapView ops (pd_State aw) = Inr it" "\<forall>lo hi. \<exists>es. it lo hi = Inr (es, None)"
    using live_bootstrap [OF assms] by blast
  obtain es where es: "it (AgencyPrefix (pd_ID aw)) (AgencyUpperBound (pd_ID aw)) = Inr (es, None)"
    using it(2) by blast
  show ?thesis using it(1) es bootstrap [OF it(1) es] by (simp add: bootstrapLatest_def)
qed

end

section \<open>What a map of latest positions shows\<close>

text \<open>A position whose key determines it: neither id holds a colon and the timestamp fits into 64
  bits of nanoseconds.\<close>

definition clean :: "VehiclePosition \<Rightarrow> bool" where
  "clean pos \<longleftrightarrow> CHR '':'' \<notin> set (vp_Agency pos) \<and> CHR '':'' \<notin> set (vp_VehicleID pos) \<and> int64 (vp_Timestamp pos)"

text \<open>\<open>m\<close> has, for every vehicle seen in \<open>S\<close> and no other, a latest position of \<open>S\<close>.\<close>

definition shows_latest :: "(string, VehiclePosition) fmap \<Rightarrow> VehiclePosition set \<Rightarrow> bool" where
  "shows_latest m S \<longleftrightarrow> (\<forall>x q. fmlookup m x = Some q \<longrightarrow> q \<in> S \<and> vehicle_key q = x) \<and>
     (\<forall>pos \<in> S. \<exists>q. fmlookup m (vehicle_key pos) = Some q \<and> vp_Timestamp pos \<le> vp_Timestamp q)"

lemma shows_latest_empty: "shows_latest fmempty {}"
  by (simp add: shows_latest_def)

lemma latest_of_ge:
  assumes "y \<in> set_option b \<union> set ps"
  shows "\<exists>q. latest_of b ps = Some q \<and> vp_Timestamp y \<le> vp_Timestamp q"
  using assms latest_of_max [of b ps] by (cases "latest_of b ps") auto

lemma latest_of_in: "latest_of b ps = Some q \<Longrightarrow> q \<in> set_option b \<union> set ps"
  using latest_of_max [of b ps] by simp

lemma shows_latest_merge:
  assumes m: "shows_latest m S" and ps: "set ps \<subseteq> T"
    and T: "\<And>pos. pos \<in> T \<Longrightarrow> \<exists>q \<in> set ps. vehicle_key q = vehicle_key pos \<and> vp_Timestamp pos \<le> vp_Timestamp q"
  shows "shows_latest (merge_positions ps m) (S \<union> T)"
  unfolding shows_latest_def
proof (intro conjI allI impI ballI)
  fix x q assume "fmlookup (merge_positions ps m) x = Some q"
  then have "q \<in> set_option (fmlookup m x) \<union> set (filter (\<lambda>pos. vehicle_key pos = x) ps)"
    unfolding merge_lookup by (rule latest_of_in)
  then show "q \<in> S \<union> T" "vehicle_key q = x" using m ps by (auto simp: shows_latest_def)
next
  fix pos assume "pos \<in> S \<union> T"
  let ?x = "vehicle_key pos"
  obtain y where y: "y \<in> set_option (fmlookup m ?x) \<union> set (filter (\<lambda>pos. vehicle_key pos = ?x) ps)" "vp_Timestamp pos \<le> vp_Timestamp y"
  proof (cases "pos \<in> S")
    case True
    then obtain q where "fmlookup m ?x = Some q" "vp_Timestamp pos \<le> vp_Timestamp q"
      using m by (auto simp: shows_latest_def)
    then show ?thesis using that [of q] by simp
  next
    case False
    with \<open>pos \<in> S \<union> T\<close> T [of pos] that show ?thesis by auto
  qed
  from latest_of_ge [OF y(1)] y(2) show "\<exists>q. fmlookup (merge_positions ps m) ?x = Some q \<and> vp_Timestamp pos \<le> vp_Timestamp q"
    unfolding merge_lookup by force
qed

lemma clean_key:
  assumes "clean p" "clean q"
  shows "VehiclePosition_Key p = VehiclePosition_Key q \<longleftrightarrow> vehicle_key p = vehicle_key q \<and> vp_Timestamp p = vp_Timestamp q"
proof -
  have "fmt_int (vp_Timestamp p) = fmt_int (vp_Timestamp q) \<longleftrightarrow> vp_Timestamp p = vp_Timestamp q"
    using assms parse_fmt_int unfolding clean_def by (metis prod.inject)
  with assms show ?thesis
    by (simp add: clean_def VehiclePosition_Key_def vehicle_key_def colon_split time_UnixNano_def)
qed

lemma shows_latest_le:
  assumes "shows_latest m S" "shows_latest m' S'" "VehiclePosition_Key ` S \<subseteq> VehiclePosition_Key ` S'" "\<forall>pos \<in> S \<union> S'. clean pos"
    and "fmlookup m x = Some a"
  shows "\<exists>b. fmlookup m' x = Some b \<and> vp_Timestamp a \<le> vp_Timestamp b"
proof -
  have a: "a \<in> S" "vehicle_key a = x" using assms(1,5) by (auto simp: shows_latest_def)
  then obtain c where "c \<in> S'" "VehiclePosition_Key a = VehiclePosition_Key c" using assms(3) by blast
  then have "vehicle_key c = x" "vp_Timestamp c = vp_Timestamp a" "c \<in> S'"
    using clean_key [of a c] a assms(4) by auto
  then show ?thesis using assms(2) by (force simp: shows_latest_def)
qed

lemma shows_latest_unique:
  assumes "shows_latest m S" "shows_latest m' S'" "VehiclePosition_Key ` S = VehiclePosition_Key ` S'" "\<forall>pos \<in> S \<union> S'. clean pos"
  shows "map_option vp_Timestamp (fmlookup m x) = map_option vp_Timestamp (fmlookup m' x)"
  using shows_latest_le [OF assms(1,2) _ assms(4), of x] shows_latest_le [OF assms(2,1), of x] assms(3,4)
  by (cases "fmlookup m x"; cases "fmlookup m' x") (auto simp: Un_commute)

section \<open>Reading the latest positions back from a store\<close>

definition stored_ok :: "string \<Rightarrow> kv \<Rightarrow> bool" where
  "stored_ok aid c \<longleftrightarrow> fmpred (\<lambda>k j. \<exists>pos. ParseVehiclePosition j = Inr pos \<and> k = VehiclePosition_Key pos \<and>
     vp_Agency pos = aid \<and> clean pos) c"

definition positions_of :: "kv \<Rightarrow> VehiclePosition set" where
  "positions_of c = {pos. \<exists>k j. fmlookup c k = Some j \<and> ParseVehiclePosition j = Inr pos}"

lemma stored_okD:
  "stored_ok aid c \<Longrightarrow> fmlookup c k = Some j \<Longrightarrow>
   \<exists>pos. ParseVehiclePosition j = Inr pos \<and> k = VehiclePosition_Key pos \<and> vp_Agency pos = aid \<and> clean pos"
  by (auto simp: stored_ok_def fmpred_iff)

lemma positions_of_clean: "stored_ok aid c \<Longrightarrow> pos \<in> positions_of c \<Longrightarrow> vp_Agency pos = aid \<and> clean pos"
  by (fastforce simp: positions_of_def dest: stored_okD)

lemma positions_of_keys: "stored_ok aid c \<Longrightarrow> VehiclePosition_Key ` positions_of c = fmdom' c"
  by (fastforce simp: positions_of_def fmlookup_dom'_iff image_iff dest: stored_okD)

lemma VehicleIDFromKey_clean: "clean pos \<Longrightarrow> VehicleIDFromKey (VehiclePosition_Key pos) = vp_VehicleID pos"
  by (simp add: clean_def VehicleIDFromKey_def VehiclePosition_Key_def splitN_key)

lemma scan_entries_lookup:
  assumes "\<forall>(k, j) \<in> set es. \<exists>pos. ParseVehiclePosition j = Inr pos \<and> VehicleIDFromKey k = vp_VehicleID pos"
  shows "fmlookup (fold scan_entry es m) vid =
    latest_of (fmlookup m vid) (filter (\<lambda>pos. vp_VehicleID pos = vid) (map (\<lambda>e. projr (ParseVehiclePosition (snd e))) es))"
  using assms
proof (induction es arbitrary: m)
  case (Cons e es)
  then obtain pos where "ParseVehiclePosition (snd e) = Inr pos" "VehicleIDFromKey (fst e) = vp_VehicleID pos" by fastforce
  with Cons show ?case
    by (simp add: scan_entry_def keep_latest_lookup latest_of_Cons [of _ pos "filter _ _"])
qed simp

lemma scan_stored:
  assumes c: "stored_ok aid c" and ord: "range_order ks (fold scan_entry (kv_range (AgencyPrefix aid) (AgencyUpperBound aid) c) fmempty)"
    (is "range_order ks ?latest")
  shows "set (range_values ks ?latest) \<subseteq> positions_of c"
    and "pos \<in> positions_of c \<Longrightarrow>
      \<exists>q \<in> set (range_values ks ?latest). vehicle_key q = vehicle_key pos \<and> vp_Timestamp pos \<le> vp_Timestamp q"
proof -
  let ?es = "kv_range (AgencyPrefix aid) (AgencyUpperBound aid) c"
  let ?ps = "map (\<lambda>e. projr (ParseVehiclePosition (snd e))) ?es"
  have all: "(k, j) \<in> set ?es \<longleftrightarrow> fmlookup c k = Some j" for k j
  proof -
    have "prefix (AgencyPrefix aid) k" if "fmlookup c k = Some j"
      using stored_okD [OF c that] by (auto simp: AgencyPrefix_def VehiclePosition_Key_def)
    then show ?thesis by (auto simp: in_kv_range agency_scan.in_range)
  qed
  have ps: "set ?ps = positions_of c"
    using all stored_okD [OF c] by (force simp: positions_of_def image_iff)
  have "\<forall>(k, j) \<in> set ?es. \<exists>pos. ParseVehiclePosition j = Inr pos \<and> VehicleIDFromKey k = vp_VehicleID pos"
    using all stored_okD [OF c] VehicleIDFromKey_clean by fastforce
  note lookup = scan_entries_lookup [OF this, of fmempty]
  show "set (range_values ks ?latest) \<subseteq> positions_of c"
    using latest_of_in ps by (fastforce simp: in_range_values lookup)
  assume pos: "pos \<in> positions_of c"
  then obtain q where q: "fmlookup ?latest (vp_VehicleID pos) = Some q" "vp_Timestamp pos \<le> vp_Timestamp q"
    using latest_of_ge [of pos None "filter (\<lambda>p. vp_VehicleID p = vp_VehicleID pos) ?ps"] ps by (auto simp: lookup)
  have "q \<in> positions_of c" "vp_VehicleID q = vp_VehicleID pos"
    using latest_of_in [OF q(1) [unfolded lookup]] ps by auto
  then have "vehicle_key q = vehicle_key pos"
    using pos positions_of_clean [OF c] by (simp add: vehicle_key_def)
  moreover have "q \<in> set (range_values ks ?latest)"
    using q(1) ord by (auto simp: in_range_values range_order_member)
  ultimately show "\<exists>q \<in> set (range_values ks ?latest). vehicle_key q = vehicle_key pos \<and> vp_Timestamp pos \<le> vp_Timestamp q"
    using q(2) by blast
qed

section \<open>Memory and store agree\<close>

definition stored_positions :: "('s \<Rightarrow> kv) \<Rightarrow> 's DemoPipeline \<Rightarrow> string set \<Rightarrow> VehiclePosition set" where
  "stored_positions f p aids = {pos. \<exists>aid \<in> aids. \<exists>c. agency_contents f p aid = Some c \<and> pos \<in> positions_of c}"

text \<open>The positions \<open>S\<close> are all clean; the map in memory shows the latest of them, and the contents of
  each agency hold exactly their keys, with values that parse back to positions with those keys.\<close>

definition mirrors :: "('s \<Rightarrow> kv) \<Rightarrow> 's DemoPipeline \<Rightarrow> VehiclePosition set \<Rightarrow> bool" where
  "mirrors f p S \<longleftrightarrow> shows_latest (dp_vehicleSeen p) S \<and> (\<forall>pos \<in> S. clean pos \<and> vp_Agency pos \<in> fmdom' (dp_agencies p)) \<and>
     (\<forall>aid c. agency_contents f p aid = Some c \<longrightarrow>
        stored_ok aid c \<and> fmdom' c = VehiclePosition_Key ` {pos \<in> S. vp_Agency pos = aid})"

lemma agency_contents_dom: "aid \<in> fmdom' (dp_agencies p) \<longleftrightarrow> (\<exists>c. agency_contents f p aid = Some c)"
  by (auto simp: agency_contents_def fmlookup_dom'_iff)

lemma stored_ok_put:
  assumes "stored_ok aid c" "clean pos" "writable pos"
  shows "stored_ok aid (put_position aid pos c)"
    and "fmdom' (put_position aid pos c) = fmdom' c \<union> VehiclePosition_Key ` {q \<in> {pos}. vp_Agency q = aid}"
proof -
  obtain v where v: "VehiclePosition_ValueBytes pos = Inr v" "ParseVehiclePosition v = Inr pos"
    using assms(3) ValueBytes_writable ValueBytes_parse by blast
  show "stored_ok aid (put_position aid pos c)"
    unfolding stored_ok_def fmpred_iff using assms v stored_okD [OF assms(1)]
    by (auto simp: put_position_def split: if_splits)
  show "fmdom' (put_position aid pos c) = fmdom' c \<union> VehiclePosition_Key ` {q \<in> {pos}. vp_Agency q = aid}"
    by (auto simp: put_position_def)
qed

lemma stored_ok_puts:
  "stored_ok aid c \<Longrightarrow> \<forall>pos \<in> set ps. clean pos \<and> writable pos \<Longrightarrow>
   stored_ok aid (fold (put_position aid) ps c) \<and>
   fmdom' (fold (put_position aid) ps c) = fmdom' c \<union> VehiclePosition_Key ` {pos \<in> set ps. vp_Agency pos = aid}"
proof (induction ps arbitrary: c)
  case (Cons pos ps)
  then have "clean pos" "writable pos" by auto
  note put = stored_ok_put [OF Cons.prems(1) this]
  from Cons.IH [OF put(1)] Cons.prems(2) show ?case by (auto simp: put(2))
qed simp

lemma mirrors_keys:
  assumes "mirrors f p S" and "range_order aids (dp_agencies p)"
  shows "VehiclePosition_Key ` stored_positions f p (set aids) = VehiclePosition_Key ` S"
    and "\<forall>pos \<in> stored_positions f p (set aids). clean pos"
proof -
  have c: "VehiclePosition_Key ` positions_of c = VehiclePosition_Key ` {pos \<in> S. vp_Agency pos = aid}" "stored_ok aid c"
    if "agency_contents f p aid = Some c" for aid c
    using assms(1) that positions_of_keys [of aid c] by (auto simp: mirrors_def)
  have "VehiclePosition_Key ` stored_positions f p (set aids) =
      (\<Union>aid \<in> set aids. \<Union>c \<in> set_option (agency_contents f p aid). VehiclePosition_Key ` positions_of c)"
    by (auto simp: stored_positions_def)
  also have "\<dots> = (\<Union>aid \<in> set aids. VehiclePosition_Key ` {pos \<in> S. vp_Agency pos = aid})"
    using c(1) assms(2) agency_contents_dom [of _ p f] by (auto simp: range_order_def)
  also have "\<dots> = VehiclePosition_Key ` S"
    using assms by (auto simp: mirrors_def range_order_def)
  finally show "VehiclePosition_Key ` stored_positions f p (set aids) = VehiclePosition_Key ` S" .
  show "\<forall>pos \<in> stored_positions f p (set aids). clean pos"
    using c(2) positions_of_clean by (fastforce simp: stored_positions_def)
qed

context live_store
begin

lemma mirrors_write:
  assumes "agencies_ok live p" "mirrors current p S" "\<forall>pos \<in> set ps. clean pos" "Write ops ps p = ((n, err), p')"
  shows "agencies_ok live p' \<and> mirrors current p' (S \<union> set (take n ps)) \<and> fmdom' (dp_agencies p') = fmdom' (dp_agencies p)"
proof -
  let ?ok = "can_write (fmdom' (dp_agencies p))"
  have n: "n = length (takeWhile ?ok ps)" and ok': "agencies_ok live p'"
    and cont: "agency_contents current p' aid = map_option (fold (put_position aid) (takeWhile ?ok ps)) (agency_contents current p aid)" for aid
    using Write_live [OF assms(1) refl, of ps] assms(4) by auto
  have ws: "take n ps = takeWhile ?ok ps" by (simp add: n takeWhile_eq_take [symmetric])
  have good: "\<forall>pos \<in> set (take n ps). clean pos \<and> writable pos \<and> vp_Agency pos \<in> fmdom' (dp_agencies p)"
    using assms(3) by (auto simp: ws can_write_def dest: set_takeWhileD)
  have dom: "fmdom' (dp_agencies p') = fmdom' (dp_agencies p)"
    using cont agency_contents_dom [of _ p' current] agency_contents_dom [of _ p current] by (auto simp: set_eq_iff)
  have "shows_latest (dp_vehicleSeen p') (S \<union> set (take n ps))"
    using Write_state [OF assms(4)] assms(2) by (auto simp: mirrors_def intro!: shows_latest_merge)
  moreover have "stored_ok aid c \<and> fmdom' c = VehiclePosition_Key ` {pos \<in> S \<union> set (take n ps). vp_Agency pos = aid}"
    if c: "agency_contents current p' aid = Some c" for aid c
  proof -
    obtain c0 where c0: "agency_contents current p aid = Some c0" "c = fold (put_position aid) (take n ps) c0"
      using c cont [of aid] by (auto simp: ws)
    then have "stored_ok aid c0" "fmdom' c0 = VehiclePosition_Key ` {pos \<in> S. vp_Agency pos = aid}"
      using assms(2) by (auto simp: mirrors_def)
    with stored_ok_puts [OF this(1), of "take n ps"] good c0(2) show ?thesis by auto
  qed
  ultimately show ?thesis using assms(2) good ok' dom by (auto simp: mirrors_def)
qed

lemma hydrate_live:
  "agencies_ok live p \<Longrightarrow> (\<And>aid c. agency_contents committed p aid = Some c \<Longrightarrow> stored_ok aid c) \<Longrightarrow>
   (\<And>aid aw latest. fmlookup (dp_agencies p) aid = Some aw \<Longrightarrow> bootstrapLatest ops aw = Inr latest \<Longrightarrow> range_order (inner aid) latest) \<Longrightarrow>
   shows_latest (dp_vehicleSeen p) S \<Longrightarrow>
   \<exists>p'. hydrateFromSnapshot ops inner aids p = (None, p') \<and> dp_agencies p' = dp_agencies p \<and>
     shows_latest (dp_vehicleSeen p') (S \<union> stored_positions committed p (set aids))"
proof (induction aids arbitrary: p S)
  case (Cons aid aids)
  show ?case
  proof (cases "fmlookup (dp_agencies p) aid")
    case None
    then have "stored_positions committed p (set (aid # aids)) = stored_positions committed p (set aids)"
      by (simp add: stored_positions_def agency_contents_def)
    with Cons None show ?thesis by simp
  next
    case (Some aw)
    define c where "c = committed (pd_State aw)"
    have ok: "live (pd_State aw)" "pd_ID aw = aid" using agencies_okD [OF Cons.prems(1) Some] by auto
    have c: "stored_ok aid c" using Cons.prems(2) [of aid c] Some by (simp add: agency_contents_def c_def)
    let ?latest = "fold scan_entry (kv_range (AgencyPrefix aid) (AgencyUpperBound aid) c) fmempty"
    have b: "bootstrapLatest ops aw = Inr ?latest" using bootstrapLatest_live [OF ok(1)] ok(2) by (simp add: c_def)
    note scan = scan_stored [OF c Cons.prems(3) [OF Some b]]
    define q where "q = p\<lparr>dp_vehicleSeen := merge_positions (range_values (inner aid) ?latest) (dp_vehicleSeen p)\<rparr>"
    have q: "dp_agencies q = dp_agencies p" "agencies_ok live q" "stored_positions committed q = stored_positions committed p"
        "agency_contents committed q = agency_contents committed p"
      using Cons.prems(1) agencies_ok_cong [of q p live]
      by (auto simp: q_def stored_positions_def agency_contents_def fun_eq_iff)
    have "shows_latest (dp_vehicleSeen q) (S \<union> positions_of c)"
      using shows_latest_merge [OF Cons.prems(4) scan] by (simp add: q_def)
    from Cons.IH [OF q(2) _ _ this] Cons.prems(2,3)
    obtain p' where p': "hydrateFromSnapshot ops inner aids q = (None, p')" "dp_agencies p' = dp_agencies p"
        "shows_latest (dp_vehicleSeen p') (S \<union> positions_of c \<union> stored_positions committed p (set aids))"
      by (auto simp: q)
    moreover have "stored_positions committed p (set (aid # aids)) = positions_of c \<union> stored_positions committed p (set aids)"
      using Some by (auto simp: stored_positions_def agency_contents_def c_def)
    ultimately show ?thesis using Some b by (simp add: q_def Un_assoc)
  qed
qed (simp add: stored_positions_def)

end

text \<open>C3: over a store that serves every call, a restarted pipeline shows the same map. When the
  positions written hold no colon in their ids and have 64-bit timestamps, then after a write
  (complete or cut short) and a flush of every agency, reading the committed contents back gives
  exactly the vehicles that are in memory, each with the timestamp it has there. (The position
  itself may differ: for two readings of a vehicle with the same timestamp memory keeps the first
  and the store the second.)\<close>

theorem restart_recovers:
  assumes store: "live_store ops feed rest lag current committed view live"
    and p: "agencies_ok live p" "mirrors current p S" and ps: "\<forall>pos \<in> set ps. clean pos"
    and w: "Write ops ps p = ((n, err), p1)"
    and ord: "range_order order (dp_agencies p)"
    and fl: "DemoPipeline_FlushAll ops order p1 = (e, p2)"
    and inner: "\<And>aid aw latest. fmlookup (dp_agencies p2) aid = Some aw \<Longrightarrow> bootstrapLatest ops aw = Inr latest \<Longrightarrow>
      range_order (inner aid) latest"
  shows "e = None \<and> (\<exists>p3. hydrateFromSnapshot ops inner order (p2\<lparr>dp_vehicleSeen := fmempty\<rparr>) = (None, p3) \<and>
    (\<forall>x. map_option vp_Timestamp (fmlookup (dp_vehicleSeen p3) x) = map_option vp_Timestamp (fmlookup (dp_vehicleSeen p1) x)))"
proof -
  define S1 where "S1 = S \<union> set (take n ps)"
  have p1: "agencies_ok live p1" "mirrors current p1 S1" "fmdom' (dp_agencies p1) = fmdom' (dp_agencies p)"
    using live_store.mirrors_write [OF store p ps w] by (simp_all add: S1_def)
  have ord1: "range_order order (dp_agencies p1)" using ord p1(3) by (simp add: range_order_def)
  then have "distinct order" by (simp add: range_order_def)
  then have f: "e = None" "agencies_ok live p2" "agency_contents committed p2 aid = agency_contents current p1 aid" for aid
    using live_store.FlushAll_live [OF store p1(1), of order] fl ord1 agency_contents_dom [of aid p1 committed] agency_contents_dom [of aid p1 current]
    by (auto simp: range_order_def split: if_splits)
  let ?q = "p2\<lparr>dp_vehicleSeen := fmempty\<rparr>"
  have q: "agencies_ok live ?q" "agency_contents committed ?q = agency_contents current p1"
    using f agencies_ok_cong [of ?q p2 live] by (auto simp: agency_contents_def)
  have st: "stored_ok aid c" if "agency_contents committed ?q aid = Some c" for aid c
    using that p1(2) by (simp add: q(2) mirrors_def)
  obtain p3 where p3: "hydrateFromSnapshot ops inner order ?q = (None, p3)"
      "shows_latest (dp_vehicleSeen p3) ({} \<union> stored_positions committed ?q (set order))"
    using live_store.hydrate_live [OF store q(1) st, of inner "{}" order] inner shows_latest_empty by auto
  have sp: "stored_positions committed ?q (set order) = stored_positions current p1 (set order)"
    by (simp add: stored_positions_def q(2))
  have "map_option vp_Timestamp (fmlookup (dp_vehicleSeen p3) x) = map_option vp_Timestamp (fmlookup (dp_vehicleSeen p1) x)" for x
    using shows_latest_unique [OF p3(2), of "dp_vehicleSeen p1" S1 x] mirrors_keys [OF p1(2) ord1] p1(2)
    by (auto simp: sp mirrors_def)
  with p3(1) f(1) show ?thesis by blast
qed

section \<open>A sample pipeline\<close>

definition sample_config :: StoreConfig where
  "sample_config = \<lparr>sc_Backend = BackendMemory, sc_PrefixRoot = [], sc_CacheRoot = [], sc_MinEndpoint = [],
     sc_MinBucket = [], sc_TigrisBucket = [], sc_ChangeFeedRetainFor = 0\<rparr>"

definition sample_agency :: "mem PrefixDB" where
  "sample_agency = \<lparr>pd_ID = ''mybas-ipoh'', pd_Prefix = [], pd_CacheDir = [], pd_State = mem_empty, pd_DB = True,
     pd_Writer = True, pd_Reader = True, pd_Maintenance = False, pd_closeBucket = False, pd_maintCancel = False\<rparr>"

definition sample_demo :: "mem DemoPipeline" where
  "sample_demo = set_agency ''mybas-ipoh'' sample_agency (empty_pipeline sample_config)"

text \<open>Three positions the feed parser accepts; the second has a speed that is not a number.\<close>

definition sample_batch :: "VehiclePosition list" where
  "sample_batch = [sample_position, sample_position\<lparr>vp_Speed := NaN\<rparr>,
     sample_position\<lparr>vp_Timestamp := 1700000030 * 1000000000\<rparr>]"

lemma sample_demo_ok: "agencies_ok mem_live sample_demo" "mirrors mem_current sample_demo {}"
  "fmdom' (dp_agencies sample_demo) = {''mybas-ipoh''}" "dp_ingestBuf sample_demo = []"
  "\<forall>pos \<in> set sample_batch. clean pos"
  by (auto simp: agencies_ok_def mirrors_def agency_contents_def sample_demo_def empty_pipeline_def set_agency_def
      sample_agency_def mem_live_def mem_empty_def mem_current_def feed_map_def stored_ok_def shows_latest_empty
      sample_batch_def clean_def sample_position_def)

lemma sample_can_write: "takeWhile (can_write {''mybas-ipoh''}) sample_batch = [sample_position]"
  by (simp add: sample_batch_def can_write_def writable_def sample_position_def VehiclePosition_zero_def time_json_ok_def)

text \<open>C4: over a store that serves every call, a write stops exactly at the first position whose
  agency has no writer or which JSON cannot hold (a coordinate, bearing or speed that is not finite,
  or a year past 9999), and the contents of each agency gain exactly the positions before it. A
  position the feed parser accepts can be such a position, and then the rest of the batch is lost.\<close>

theorem Write_live_exact:
  assumes "live_store ops feed rest lag current committed view live" and "agencies_ok live p"
    and "ok = can_write (fmdom' (dp_agencies p))"
  shows "\<exists>err p'. Write ops ps p = ((length (takeWhile ok ps), err), p') \<and> (err = None \<longleftrightarrow> list_all ok ps) \<and>
    (\<forall>aid. agency_contents current p' aid =
       map_option (fold (put_position aid) (takeWhile ok ps)) (agency_contents current p aid))"
proof -
  obtain err p' where w: "Write ops ps p = ((length (takeWhile ok ps), err), p')"
      "\<forall>aid. agency_contents current p' aid = map_option (fold (put_position aid) (takeWhile ok ps)) (agency_contents current p aid)"
    using live_store.Write_live [OF assms] by blast
  have "length (takeWhile ok ps) = length ps \<longleftrightarrow> list_all ok ps"
    by (induction ps) auto
  with w Write_state [OF w(1)] show ?thesis by auto
qed

theorem Write_live_exact_witness:
  "list_all (accepted (mybas_feed ''mybas-ipoh'' ''Perak'' ''northern'')) sample_batch \<and>
   (\<exists>err p'. Write (mem_isle 1) sample_batch sample_demo = ((1, err), p') \<and> err \<noteq> None)"
  using Write_live_exact [OF mem_live_store.live_store_axioms [of 1] sample_demo_ok(1) refl, of sample_batch]
  by (auto simp: sample_demo_ok(3) sample_can_write)
    (auto simp: sample_batch_def can_write_def writable_def accepted_def mybas_feed_def sample_position_def
      ValidMalaysiaBounds_def minLat_def maxLat_def minLng_def maxLng_def)

lemma Write_prefix_example:
  "\<exists>p'. fst (Write (mem_isle 1) [sample_position] sample_demo) = (1, None) \<and> snd (Write (mem_isle 1) [sample_position] sample_demo) = p' \<and>
     dp_eventCount p' = 1 \<and> dp_ingestBuf p' = [ingest_record sample_position]"
proof -
  obtain n err p' where w: "Write (mem_isle 1) [sample_position] sample_demo = ((n, err), p')" by (metis surj_pair)
  have "n = 1"
    using w sample_can_write live_store.Write_live [OF mem_live_store.live_store_axioms [of 1] sample_demo_ok(1) refl, of "[sample_position]"]
    by (simp add: sample_demo_ok(3) sample_batch_def split: if_splits)
  then show ?thesis
    using Write_prefix [OF w] w by (simp add: sample_demo_ok(4) ingestCap_def sample_demo_def set_agency_def empty_pipeline_def)
qed

lemma sample_restart:
  "\<exists>err p1 p2. Write (mem_isle 1) sample_batch sample_demo = ((1, err), p1) \<and>
     DemoPipeline_FlushAll (mem_isle 1) [''mybas-ipoh''] p1 = (None, p2) \<and>
     fmlookup (dp_vehicleSeen p1) ''mybas-ipoh:PLX 1234'' = Some sample_position \<and>
     (\<forall>aid aw latest. fmlookup (dp_agencies p2) aid = Some aw \<longrightarrow> bootstrapLatest (mem_isle 1) aw = Inr latest \<longrightarrow>
        range_order [''PLX 1234''] latest)"
proof -
  let ?k = "VehiclePosition_Key sample_position" and ?v = "projr (VehiclePosition_ValueBytes sample_position)"
  obtain err p1 where w: "Write (mem_isle 1) sample_batch sample_demo = ((1, err), p1)" "agencies_ok mem_live p1"
      "\<forall>aid. agency_contents mem_current p1 aid = map_option (put_position aid sample_position) (agency_contents mem_current sample_demo aid)"
    using mem_live_store.Write_live [OF sample_demo_ok(1) refl, of 1 sample_batch] by (auto simp: sample_demo_ok(3) sample_can_write)
  obtain p2 where f: "DemoPipeline_FlushAll (mem_isle 1) [''mybas-ipoh''] p1 = (None, p2)" "agencies_ok mem_live p2"
      "\<forall>aid. agency_contents mem_committed p2 aid = agency_contents (if aid = ''mybas-ipoh'' then mem_current else mem_committed) p1 aid"
    using mem_live_store.FlushAll_live [OF w(2), of "[''mybas-ipoh'']" 1] by auto
  have dom: "aid = ''mybas-ipoh''" if "aid \<in> fmdom' (dp_agencies p2)" for aid
  proof -
    have "aid \<in> fmdom' (dp_agencies p1)"
      using that f(3) agency_contents_dom [of aid p2 mem_committed] agency_contents_dom [of aid p1] by metis
    then have "aid \<in> fmdom' (dp_agencies sample_demo)"
      using w(3) agency_contents_dom [of aid p1 mem_current] agency_contents_dom [of aid sample_demo mem_current] by auto
    then show ?thesis by (simp add: sample_demo_ok(3))
  qed
  have "agency_contents mem_committed p2 ''mybas-ipoh'' = Some (fmupd ?k ?v fmempty)"
    using f(3) w(3) by (simp add: put_position_def)
      (simp add: agency_contents_def sample_demo_def sample_agency_def mem_current_def mem_empty_def feed_map_def sample_position_def)
  then have c: "mem_committed (pd_State aw) = fmupd ?k ?v fmempty \<and> pd_ID aw = ''mybas-ipoh'' \<and> mem_live (pd_State aw)"
    if "fmlookup (dp_agencies p2) aid = Some aw" for aid aw
    using that dom [OF fmdom'I [OF that]] agencies_okD [OF f(2) that] by (auto simp: agency_contents_def)
  have pos: "clean sample_position" "writable sample_position"
    using sample_demo_ok(5) sample_can_write by (auto simp: sample_batch_def can_write_def split: if_splits)
  have v: "ParseVehiclePosition ?v = Inr sample_position"
    using pos(2) ValueBytes_writable [of sample_position] ValueBytes_parse [of sample_position] by auto
  have "prefix (AgencyPrefix ''mybas-ipoh'') ?k"
    by (simp add: AgencyPrefix_def VehiclePosition_Key_def sample_position_def)
  then have "AgencyPrefix ''mybas-ipoh'' \<le> ?k \<and> ?k < AgencyUpperBound ''mybas-ipoh''"
    by (simp only: agency_scan.in_range)
  then have "kv_keys (AgencyPrefix ''mybas-ipoh'') (AgencyUpperBound ''mybas-ipoh'') (fmupd ?k ?v fmempty) = [?k]"
    by (intro sorted_distinct_set_unique) (auto simp: sorted_kv_keys distinct_kv_keys)
  then have "bootstrapLatest (mem_isle 1) aw = Inr (fmupd ''PLX 1234'' sample_position fmempty)"
    if "fmlookup (dp_agencies p2) aid = Some aw" for aid aw
    using c [OF that] mem_live_store.bootstrapLatest_live [of aw 1] v VehicleIDFromKey_clean [OF pos(1)]
    by (simp add: kv_range_def scan_entry_def keep_latest_def) (simp add: sample_position_def)
  moreover have "fmlookup (dp_vehicleSeen p1) ''mybas-ipoh:PLX 1234'' = Some sample_position"
  proof -
    have "dp_vehicleSeen p1 = keep_latest (vehicle_key sample_position) sample_position fmempty"
      using Write_state [OF w(1)] by (simp add: sample_batch_def sample_demo_def empty_pipeline_def)
    moreover have "vehicle_key sample_position = ''mybas-ipoh:PLX 1234''" by (simp add: vehicle_key_def sample_position_def)
    ultimately show ?thesis by (simp add: keep_latest_def)
  qed
  ultimately show ?thesis using w(1) f(1) by (auto simp: range_order_def)
qed

theorem restart_recovers_witness:
  "\<exists>err p1 p2 p3. Write (mem_isle 1) sample_batch sample_demo = ((1, err), p1) \<and>
     DemoPipeline_FlushAll (mem_isle 1) [''mybas-ipoh''] p1 = (None, p2) \<and>
     hydrateFromSnapshot (mem_isle 1) (\<lambda>aid. [''PLX 1234'']) [''mybas-ipoh''] (p2\<lparr>dp_vehicleSeen := fmempty\<rparr>) = (None, p3) \<and>
     map_option vp_Timestamp (fmlookup (dp_vehicleSeen p3) ''mybas-ipoh:PLX 1234'') = Some (1700000000 * 1000000000)"
proof -
  obtain err p1 p2 where w: "Write (mem_isle 1) sample_batch sample_demo = ((1, err), p1)"
      "DemoPipeline_FlushAll (mem_isle 1) [''mybas-ipoh''] p1 = (None, p2)"
      "fmlookup (dp_vehicleSeen p1) ''mybas-ipoh:PLX 1234'' = Some sample_position"
      "\<forall>aid aw latest. fmlookup (dp_agencies p2) aid = Some aw \<longrightarrow> bootstrapLatest (mem_isle 1) aw = Inr latest \<longrightarrow>
        range_order [''PLX 1234''] latest"
    using sample_restart by blast
  have "range_order [''mybas-ipoh''] (dp_agencies sample_demo)" by (simp add: range_order_def sample_demo_ok(3))
  from restart_recovers [OF mem_live_store.live_store_axioms sample_demo_ok(1,2,5) w(1) this w(2), of "\<lambda>aid. [''PLX 1234'']"] w(4)
  obtain p3 where "hydrateFromSnapshot (mem_isle 1) (\<lambda>aid. [''PLX 1234'']) [''mybas-ipoh''] (p2\<lparr>dp_vehicleSeen := fmempty\<rparr>) = (None, p3)"
      "\<forall>x. map_option vp_Timestamp (fmlookup (dp_vehicleSeen p3) x) = map_option vp_Timestamp (fmlookup (dp_vehicleSeen p1) x)"
    by blast
  moreover have "vp_Timestamp sample_position = 1700000000 * 1000000000" by (simp add: sample_position_def)
  ultimately show ?thesis using w(1-3) by (metis option.map(2))
qed

section \<open>What the live map shows\<close>

lemma mset_range_values:
  "mset (range_values ks m) = image_mset (\<lambda>k. the (fmlookup m k)) (filter_mset (\<lambda>k. fmlookup m k \<noteq> None) (mset ks))"
  by (induction ks) (auto split: option.splits)

lemma count_live_filter:
  "count_live agencies now ps n =
     n + length (filter (\<lambda>pos. vp_Agency pos \<in> agencies \<and> time_Sub now (vp_Timestamp pos) \<le> LiveMapVisibleWindow) ps)"
  by (induction agencies now ps n rule: count_live.induct) auto

text \<open>The positions on the live map are, for the chosen agencies, exactly the kept positions at
  most thirty minutes old (those from the future included), and the vehicle count of the statistics
  is their number, whichever order the map is ranged over.\<close>

lemma live_map_window:
  assumes "range_order order (dp_vehicleSeen p)" and "range_order order' (dp_vehicleSeen p)"
  shows "set (LivePositionsFor agencies now order p) =
      {pos \<in> fmran' (dp_vehicleSeen p). vp_Agency pos \<in> agencies \<and> now - vp_Timestamp pos \<le> 30 * 60 * 1000000000} \<and>
    fst (StatsFor agencies now order' p) = length (LivePositionsFor agencies now order p) \<and>
    set (LivePositionsFor agencies now order p) \<subseteq> set (LatestPositionsFor agencies order p)"
proof -
  have w: "time_Sub now t \<le> LiveMapVisibleWindow \<longleftrightarrow> now - t \<le> 30 * 60 * 1000000000" for t
    using time_Sub_le [of LiveMapVisibleWindow now t] by (simp add: LiveMapVisibleWindow_def minute_def)
  have "mset order = mset order'"
    using assms using set_eq_iff_mset_eq_distinct [of order order'] by (simp add: range_order_def)
  then have "mset (range_values order (dp_vehicleSeen p)) = mset (range_values order' (dp_vehicleSeen p))"
    by (simp add: mset_range_values)
  then have "length (filter P (range_values order (dp_vehicleSeen p))) = length (filter P (range_values order' (dp_vehicleSeen p)))" for P
    by (metis mset_filter size_mset)
  then show ?thesis
    by (auto simp: LivePositionsFor_def LatestPositionsFor_def StatsFor_def count_live_filter w range_order_values [OF assms(1)])
qed

lemma live_map_window_example:
  "fst (StatsFor {''mybas-ipoh''} (1700001800 * 1000000000) [''mybas-ipoh:PLX 1234''] (note_position sample_position sample_demo)) = 1"
proof -
  let ?p = "note_position sample_position sample_demo" and ?o = "[''mybas-ipoh:PLX 1234'']"
  have seen: "dp_vehicleSeen ?p = fmupd ''mybas-ipoh:PLX 1234'' sample_position fmempty"
    by (simp add: sample_demo_def empty_pipeline_def keep_latest_def) (simp add: vehicle_key_def sample_position_def)
  then have "range_order ?o (dp_vehicleSeen ?p)" by (simp add: range_order_def)
  from live_map_window [OF this this, of "{''mybas-ipoh''}" "1700001800 * 1000000000"] show ?thesis
    unfolding LivePositionsFor_def seen by (simp add: sample_position_def time_Sub_def go_consts)
qed

end
