(* ===== verification/Demo_App.thy ===== *)
theory Demo_App
  imports Demo_Poll Demo_Write Demo_Notify
begin

text \<open>
  \<open>cmd/demo/main.go\<close>: the poll loop that ties the demo together (planning, fetching, writing,
  flushing, marking, notifying) and the health probe. Start-up and shutdown are in \<open>Demo_Start\<close>; flag
  parsing, signals and the HTTP listener are not modelled.

  The state of the process is the record \<open>demo_app\<close>; what a round of the loop gets from outside
  (the upstream answers, the clock, the context, the order of the agencies) is \<open>tick_env\<close>.
  Log messages are left out.
\<close>

section \<open>State\<close>

record 's demo_app =
  da_Pipe :: "'s DemoPipeline"
  da_Coord :: PollCoordinator
  da_Sessions :: SessionStore
  da_Health :: WriteHealth
  da_Notify :: notify_state
  da_Stopped :: bool               \<comment> \<open>\<open>stop()\<close> was called\<close>
  da_PollNow :: "string option"    \<comment> \<open>the contents of \<open>pollNow\<close>, a channel with room for one region\<close>

record tick_env =
  te_Decode :: pb_decoder
  te_PollCtx :: "nat \<Rightarrow> goerror option"
  te_Attempts :: "nat \<Rightarrow> nat \<Rightarrow> Attempt"
  te_CtxErr :: "goerror option"    \<comment> \<open>\<open>ctx.Err()\<close> after the feeds were fetched\<close>
  te_Order :: "string list"        \<comment> \<open>the order in which the agencies are flushed\<close>
  te_PlanNow :: time               \<comment> \<open>the clock when the round is planned\<close>
  te_Now :: time                   \<comment> \<open>the clock when the round is done\<close>
  te_Poll :: poll_env

text \<open>The callback given to the web server: a send that drops the region when the channel is full.\<close>

definition onRegionChange :: "string \<Rightarrow> 's demo_app \<Rightarrow> 's demo_app" where
  "onRegionChange regionID app = (case da_PollNow app of None \<Rightarrow> app\<lparr>da_PollNow := Some regionID\<rparr> | Some _ \<Rightarrow> app)"

section \<open>One round\<close>

definition stopIfWriterDead :: "goerror \<Rightarrow> 's demo_app \<Rightarrow> 's demo_app" where
  "stopIfWriterDead err app =
     (if \<not> errors_Is err WriterFailed \<and> \<not> errors_Is err WriterClosed then app else app\<lparr>da_Stopped := True\<rparr>)"

definition collect_positions :: "PollResult list \<Rightarrow> VehiclePosition list" where
  "collect_positions results = concat (map (\<lambda>res. if pr_Err res \<noteq> None then [] else pr_Positions res) results)"

text \<open>What \<open>runPoll\<close> does when a round is complete.\<close>

definition finish_poll :: "tick_env \<Rightarrow> VehiclePosition list \<Rightarrow> string list \<Rightarrow> 's demo_app \<Rightarrow> 's demo_app" where
  "finish_poll te all regionIDs app =
     (let app1 = app\<lparr>da_Pipe := SetLastPoll (te_Now te) (da_Pipe app), da_Coord := MarkPolled regionIDs (te_Now te) (da_Coord app)\<rparr>
      in if all \<noteq> [] then app1\<lparr>da_Notify := NotifyPoll 0 (da_Notify app1)\<rparr> else app1)"

definition write_failed :: "goerror \<Rightarrow> 's demo_app \<Rightarrow> 's demo_app" where
  "write_failed err app = stopIfWriterDead err (app\<lparr>da_Health := RecordFailure err (da_Health app)\<rparr>)"

definition runPoll :: "('s, 'c) isle \<Rightarrow> Poller \<Rightarrow> tick_env \<Rightarrow> Feed list \<Rightarrow> string list \<Rightarrow> 's demo_app \<Rightarrow> 's demo_app" where
  "runPoll ops poller te feeds regionIDs app =
     (if feeds = [] then app
      else
        (let app1 = app\<lparr>da_Pipe := SetLastPolledAgencies (AgencyIDs feeds) (da_Pipe app)\<rparr>;
             all = collect_positions (PollSequential (te_Decode te) poller (te_PollCtx te) (te_Attempts te) feeds)
         in if te_CtxErr te \<noteq> None then app1
            else if all = [] then finish_poll te all regionIDs app1
            else (case Write ops all (da_Pipe app1) of
              ((puts, Some err), p) \<Rightarrow> write_failed err (app1\<lparr>da_Pipe := p\<rparr>)
            | ((puts, None), p) \<Rightarrow>
                (case DemoPipeline_FlushAll ops (te_Order te) p of
                   (Some err, p') \<Rightarrow> write_failed err (app1\<lparr>da_Pipe := p'\<rparr>)
                 | (None, p') \<Rightarrow>
                     finish_poll te all regionIDs (app1\<lparr>da_Pipe := p', da_Health := RecordSuccess (da_Health app1)\<rparr>)))))"

definition scheduled :: "('s, 'c) isle \<Rightarrow> Poller \<Rightarrow> tick_env \<Rightarrow> 's demo_app \<Rightarrow> 's demo_app" where
  "scheduled ops poller te app =
     (case FeedsForScheduledPoll (te_Poll te) (te_PlanNow te) (da_Coord app) (da_Sessions app) of
        (Inl e, s) \<Rightarrow> app\<lparr>da_Sessions := s\<rparr>
      | (Inr (feeds, regions), s) \<Rightarrow> runPoll ops poller te feeds regions (app\<lparr>da_Sessions := s\<rparr>))"

definition forRegion :: "('s, 'c) isle \<Rightarrow> Poller \<Rightarrow> tick_env \<Rightarrow> string \<Rightarrow> 's demo_app \<Rightarrow> 's demo_app" where
  "forRegion ops poller te regionID app =
     (case FeedsForRegionSwitch (te_Poll te) (te_PlanNow te) regionID (da_Coord app) (da_Sessions app) of
        (Inl e, s) \<Rightarrow> app\<lparr>da_Sessions := s\<rparr>
      | (Inr (feeds, regions), s) \<Rightarrow>
          (if feeds = [] then app\<lparr>da_Sessions := s\<rparr>
           else runPoll ops poller te feeds regions (app\<lparr>da_Sessions := s\<rparr>)))"

section \<open>The loop\<close>

text \<open>What the \<open>select\<close> takes next.\<close>

datatype poll_event = CtxDone | PollNow string | TickerC

fun poll_events :: "('s, 'c) isle \<Rightarrow> Poller \<Rightarrow> (poll_event \<times> tick_env) list \<Rightarrow> 's demo_app \<Rightarrow> 's demo_app" where
  "poll_events ops poller [] app = app"
| "poll_events ops poller ((ev, te) # evs) app =
     (case ev of
        CtxDone \<Rightarrow> app
      | PollNow regionID \<Rightarrow> poll_events ops poller evs (forRegion ops poller te regionID app)
      | TickerC \<Rightarrow> poll_events ops poller evs (scheduled ops poller te app))"

definition pollLoop :: "('s, 'c) isle \<Rightarrow> Poller \<Rightarrow> tick_env \<Rightarrow> (poll_event \<times> tick_env) list \<Rightarrow> 's demo_app \<Rightarrow> 's demo_app" where
  "pollLoop ops poller te0 evs app = poll_events ops poller evs (scheduled ops poller te0 app)"

section \<open>The health probe\<close>

text \<open>The status code and the body; \<open>encoding/json\<close> orders the members of a map by name.\<close>

definition healthzHandler :: "WriteHealth \<Rightarrow> nat \<times> json" where
  "healthzHandler health =
     (case WriteHealth_Status health of
        (failures, lastErr) \<Rightarrow>
          (let (status, code) = (if \<not> Healthy health then (''unhealthy'', 503) else (''ok'', 200))
           in (code, JObject ([(''consecutive_failures'', JNum (of_int failures))] @
                (case lastErr of None \<Rightarrow> [] | Some e \<Rightarrow> [(''last_error'', JString (error_text e))]) @
                [(''status'', JString status)]))))"

section \<open>What a round does\<close>

text \<open>The positions a round fetches, and the error of storing them, if any.\<close>

definition fetched :: "Poller \<Rightarrow> tick_env \<Rightarrow> Feed list \<Rightarrow> VehiclePosition list" where
  "fetched poller te feeds = collect_positions (PollSequential (te_Decode te) poller (te_PollCtx te) (te_Attempts te) feeds)"

definition store_error :: "('s, 'c) isle \<Rightarrow> string list \<Rightarrow> VehiclePosition list \<Rightarrow> 's DemoPipeline \<Rightarrow> goerror option" where
  "store_error ops order all p =
     (if all = [] then None
      else case Write ops all p of
        ((n, Some e), p') \<Rightarrow> Some e
      | ((n, None), p') \<Rightarrow> fst (DemoPipeline_FlushAll ops order p'))"

definition round_error :: "('s, 'c) isle \<Rightarrow> Poller \<Rightarrow> tick_env \<Rightarrow> Feed list \<Rightarrow> 's demo_app \<Rightarrow> goerror option" where
  "round_error ops poller te feeds app =
     store_error ops (te_Order te) (fetched poller te feeds) (SetLastPolledAgencies (AgencyIDs feeds) (da_Pipe app))"

definition dead_writer :: "goerror \<Rightarrow> bool" where
  "dead_writer e \<longleftrightarrow> errors_Is e WriterFailed \<or> errors_Is e WriterClosed"

lemma runPoll_parts:
  assumes "feeds \<noteq> []" and "te_CtxErr te = None"
  shows "da_Coord (runPoll ops poller te feeds regions app) =
      (if round_error ops poller te feeds app = None then MarkPolled regions (te_Now te) (da_Coord app) else da_Coord app)"
    and "da_Health (runPoll ops poller te feeds regions app) =
      (if fetched poller te feeds = [] then da_Health app
       else case round_error ops poller te feeds app of None \<Rightarrow> RecordSuccess (da_Health app) | Some e \<Rightarrow> RecordFailure e (da_Health app))"
    and "da_Notify (runPoll ops poller te feeds regions app) =
      (if fetched poller te feeds \<noteq> [] \<and> round_error ops poller te feeds app = None then NotifyPoll 0 (da_Notify app) else da_Notify app)"
    and "da_Stopped (runPoll ops poller te feeds regions app) =
      (da_Stopped app \<or> (case round_error ops poller te feeds app of None \<Rightarrow> False | Some e \<Rightarrow> dead_writer e))"
    and "da_Sessions (runPoll ops poller te feeds regions app) = da_Sessions app"
  using assms
  by (auto simp: runPoll_def round_error_def fetched_def store_error_def finish_poll_def write_failed_def stopIfWriterDead_def
      dead_writer_def Let_def split: option.splits prod.splits)

lemma runPoll_idle:
  assumes "feeds = [] \<or> te_CtxErr te \<noteq> None"
  shows "da_Coord (runPoll ops poller te feeds regions app) = da_Coord app"
    "da_Health (runPoll ops poller te feeds regions app) = da_Health app"
    "da_Notify (runPoll ops poller te feeds regions app) = da_Notify app"
    "da_Stopped (runPoll ops poller te feeds regions app) = da_Stopped app"
    "da_Sessions (runPoll ops poller te feeds regions app) = da_Sessions app"
  using assms by (auto simp: runPoll_def Let_def)

lemma Write_lastPoll: "Write ops ps p = (r, p') \<Longrightarrow> dp_lastPoll p' = dp_lastPoll p"
  by (induction ops ps p arbitrary: r rule: Write.induct)
    (auto simp: map_prod_def split: option.splits sum.splits prod.splits)

lemma FlushAll_lastPoll: "dp_lastPoll (snd (DemoPipeline_FlushAll ops aids p)) = dp_lastPoll p"
  by (induction ops aids p rule: DemoPipeline_FlushAll.induct) (auto split: option.splits prod.splits)

text \<open>C21: a round that fetched something and could store and flush it marks its regions as polled,
  moves the time of the last poll, clears the failures and signals the subscribers; a round that
  fetched nothing only marks its regions and moves the time; a round whose write or flush fails
  counts one more failure, marks and signals nothing, leaves the time of the last poll alone, and
  stops the process exactly when the writer is dead for good.\<close>

theorem runPoll_outcome:
  assumes "feeds \<noteq> []" and "te_CtxErr te = None"
  shows "case round_error ops poller te feeds app of
      None \<Rightarrow>
        da_Coord (runPoll ops poller te feeds regions app) = MarkPolled regions (te_Now te) (da_Coord app) \<and>
        dp_lastPoll (da_Pipe (runPoll ops poller te feeds regions app)) = te_Now te \<and>
        da_Stopped (runPoll ops poller te feeds regions app) = da_Stopped app \<and>
        (if fetched poller te feeds = []
         then da_Health (runPoll ops poller te feeds regions app) = da_Health app \<and>
           da_Notify (runPoll ops poller te feeds regions app) = da_Notify app
         else da_Health (runPoll ops poller te feeds regions app) = RecordSuccess (da_Health app) \<and>
           da_Notify (runPoll ops poller te feeds regions app) = NotifyPoll 0 (da_Notify app))
    | Some e \<Rightarrow>
        da_Coord (runPoll ops poller te feeds regions app) = da_Coord app \<and>
        dp_lastPoll (da_Pipe (runPoll ops poller te feeds regions app)) = dp_lastPoll (da_Pipe app) \<and>
        da_Health (runPoll ops poller te feeds regions app) = RecordFailure e (da_Health app) \<and>
        da_Notify (runPoll ops poller te feeds regions app) = da_Notify app \<and>
        da_Stopped (runPoll ops poller te feeds regions app) = (da_Stopped app \<or> dead_writer e)"
proof (cases "round_error ops poller te feeds app")
  case None
  then have "dp_lastPoll (da_Pipe (runPoll ops poller te feeds regions app)) = te_Now te"
    using assms by (auto simp: runPoll_def round_error_def fetched_def store_error_def finish_poll_def SetLastPoll_def Let_def
        split: option.splits prod.splits)
  with None show ?thesis by (simp add: runPoll_parts [OF assms])
next
  case (Some e)
  then have ne: "fetched poller te feeds \<noteq> []" by (auto simp: round_error_def store_error_def split: if_splits)
  have "dp_lastPoll (da_Pipe (runPoll ops poller te feeds regions app)) = dp_lastPoll (da_Pipe app)"
    using assms Some ne FlushAll_lastPoll [of ops "te_Order te"]
    by (auto simp: runPoll_def round_error_def fetched_def store_error_def write_failed_def stopIfWriterDead_def SetLastPolledAgencies_def
        Let_def dest!: Write_lastPoll split: option.splits prod.splits) (metis snd_conv)+
  with Some ne show ?thesis by (simp add: runPoll_parts [OF assms])
qed

section \<open>A writer that always fails\<close>

text \<open>A store that refuses every put, as one does whose prefix another process has taken over.\<close>

definition refuses_puts :: "('s, 'c) isle \<Rightarrow> bool" where
  "refuses_puts ops \<longleftrightarrow> (\<forall>k v s. fst (isle_Put ops k v s) \<noteq> None)"

definition poll_rounds :: "('s, 'c) isle \<Rightarrow> Poller \<Rightarrow> (tick_env \<times> Feed list \<times> string list) list \<Rightarrow> 's demo_app \<Rightarrow> 's demo_app" where
  "poll_rounds ops poller rounds app = fold (\<lambda>(te, feeds, regions). runPoll ops poller te feeds regions) rounds app"

lemma refused_write:
  assumes "refuses_puts ops" and "ps \<noteq> []"
  shows "\<exists>e p'. Write ops ps p = ((0, Some e), p')"
proof -
  obtain pos ps' where ps: "ps = pos # ps'" using assms(2) by (cases ps) auto
  have put: "\<exists>e s'. isle_Put ops k v s = (Some e, s')" for k v s
  proof -
    have "fst (isle_Put ops k v s) \<noteq> None" using assms(1) unfolding refuses_puts_def by blast
    then show ?thesis by (cases "isle_Put ops k v s") auto
  qed
  show ?thesis
  proof (cases "fmlookup (dp_agencies p) (vp_Agency pos)")
    case (Some aw)
    show ?thesis
    proof (cases "VehiclePosition_ValueBytes pos")
      case (Inr val)
      obtain e s' where "isle_Put ops (VehiclePosition_KeyBytes pos) val (pd_State aw) = (Some e, s')" using put by blast
      then show ?thesis by (simp add: ps Some Inr)
    qed (simp add: ps Some)
  qed (simp add: ps)
qed

lemma refused_round:
  assumes "refuses_puts ops" "fetched poller te feeds \<noteq> []"
  shows "\<exists>e. round_error ops poller te feeds app = Some e"
  using refused_write [OF assms, of "SetLastPolledAgencies (AgencyIDs feeds) (da_Pipe app)"]
  by (auto simp: round_error_def store_error_def assms(2))

lemma refused_rounds:
  assumes "refuses_puts ops"
    and "\<forall>(te, feeds, regions) \<in> set rounds. feeds \<noteq> [] \<and> te_CtxErr te = None \<and> fetched poller te feeds \<noteq> []"
  shows "da_Coord (poll_rounds ops poller rounds app) = da_Coord app \<and>
    wh_threshold (da_Health (poll_rounds ops poller rounds app)) = wh_threshold (da_Health app) \<and>
    wh_consecutiveFailures (da_Health (poll_rounds ops poller rounds app)) = wh_consecutiveFailures (da_Health app) + int (length rounds)"
  using assms(2)
proof (induction rounds arbitrary: app)
  case (Cons r rounds)
  obtain te feeds regions where r: "r = (te, feeds, regions)" by (cases r) auto
  have ok: "feeds \<noteq> []" "te_CtxErr te = None" "fetched poller te feeds \<noteq> []" using Cons.prems by (auto simp: r)
  obtain e where e: "round_error ops poller te feeds app = Some e" using refused_round [OF assms(1) ok(3)] by blast
  have "poll_rounds ops poller (r # rounds) app = poll_rounds ops poller rounds (runPoll ops poller te feeds regions app)"
    by (simp add: poll_rounds_def r)
  with Cons.IH [of "runPoll ops poller te feeds regions app"] Cons.prems e ok show ?case
    by (simp add: runPoll_parts [OF ok(1,2)] RecordFailure_def)
qed (simp add: poll_rounds_def)

text \<open>C22: when the store refuses every put, the health probe answers 503 once as many rounds with
  positions as the threshold (three by default) have been tried, and 200 before, so the process is
  restarted.\<close>

theorem fenced_writer_unhealthy:
  assumes "refuses_puts ops" and "da_Health app = NewWriteHealth n"
    and "\<forall>(te, feeds, regions) \<in> set rounds. feeds \<noteq> [] \<and> te_CtxErr te = None \<and> fetched poller te feeds \<noteq> []"
  shows "fst (healthzHandler (da_Health (poll_rounds ops poller rounds app))) =
    (if (if n \<le> 0 then 3 else n) \<le> int (length rounds) then 503 else 200)"
  using refused_rounds [OF assms(1,3), of app] assms(2)
  by (auto simp: healthzHandler_def WriteHealth_Status_def Healthy_def NewWriteHealth_def DefaultWriteHealthThreshold_def Let_def)

text \<open>C23: a region whose writes fail is not marked as polled, so it is fetched again whenever it is
  asked for: after any number of rounds over a store that refuses every put, a region not polled
  before is planned at every instant, however soon after the last fetch.\<close>

theorem failed_rounds_refetch:
  assumes "refuses_puts ops" and "fmlookup (pc_lastPoll (da_Coord app)) rid = None" and "FeedsForRegion rid = Inr feeds" and "rid \<noteq> []"
    and "\<forall>(te, feeds, regions) \<in> set rounds. feeds \<noteq> [] \<and> te_CtxErr te = None \<and> fetched poller te feeds \<noteq> []"
  shows "fst (FeedsForRegionSwitch pk now rid (da_Coord (poll_rounds ops poller rounds app)) s) = Inr (feeds, [rid])"
  using refused_rounds [OF assms(1,5), of app] assms(2-4) by (simp add: FeedsForRegionSwitch_def isStaleLocked_def)

section \<open>Completed polls of a region are spaced\<close>

text \<open>The plan of an event, and the completed polls of a run: the region with the instants at which
  it was planned and marked.\<close>

definition event_plan :: "poll_event \<Rightarrow> tick_env \<Rightarrow> 's demo_app \<Rightarrow> (Feed list \<times> string list) result \<times> SessionStore" where
  "event_plan ev te app = (case ev of
     PollNow rid \<Rightarrow> FeedsForRegionSwitch (te_Poll te) (te_PlanNow te) rid (da_Coord app) (da_Sessions app)
   | _ \<Rightarrow> FeedsForScheduledPoll (te_Poll te) (te_PlanNow te) (da_Coord app) (da_Sessions app))"

definition event_step :: "('s, 'c) isle \<Rightarrow> Poller \<Rightarrow> poll_event \<Rightarrow> tick_env \<Rightarrow> 's demo_app \<Rightarrow> 's demo_app" where
  "event_step ops poller ev te app = (case event_plan ev te app of
     (Inl e, s) \<Rightarrow> app\<lparr>da_Sessions := s\<rparr>
   | (Inr (feeds, regions), s) \<Rightarrow> runPoll ops poller te feeds regions (app\<lparr>da_Sessions := s\<rparr>))"

definition completed_by :: "('s, 'c) isle \<Rightarrow> Poller \<Rightarrow> poll_event \<Rightarrow> tick_env \<Rightarrow> 's demo_app \<Rightarrow> string list" where
  "completed_by ops poller ev te app = (case fst (event_plan ev te app) of
     Inl _ \<Rightarrow> []
   | Inr (feeds, regions) \<Rightarrow>
       (if feeds \<noteq> [] \<and> te_CtxErr te = None \<and> round_error ops poller te feeds app = None then regions else []))"

fun completed :: "('s, 'c) isle \<Rightarrow> Poller \<Rightarrow> (poll_event \<times> tick_env) list \<Rightarrow> 's demo_app \<Rightarrow> (string \<times> time \<times> time) list" where
  "completed ops poller [] app = []"
| "completed ops poller ((ev, te) # evs) app =
     (if ev = CtxDone then []
      else map (\<lambda>rid. (rid, te_PlanNow te, te_Now te)) (completed_by ops poller ev te app) @
        completed ops poller evs (event_step ops poller ev te app))"

lemma poll_events_step:
  "ev \<noteq> CtxDone \<Longrightarrow> poll_events ops poller ((ev, te) # evs) app = poll_events ops poller evs (event_step ops poller ev te app)"
  by (cases ev) (auto simp: event_step_def event_plan_def scheduled_def forRegion_def runPoll_def split: prod.splits sum.splits)

lemma event_plan_rested:
  "case fst (event_plan ev te app) of
     Inl _ \<Rightarrow> True
   | Inr (feeds, ids) \<Rightarrow> (ids = [] \<and> feeds = []) \<or> (\<exists>rid. ids = [rid] \<and> rested (da_Coord app) (te_PlanNow te) rid)"
proof -
  have "\<exists>r. event_plan ev te app = FeedsForRegionSwitch (te_Poll te) (te_PlanNow te) r (da_Coord app) (da_Sessions app)"
    by (cases ev) (auto simp: event_plan_def FeedsForRegionSwitch_def intro: exI [of _ "[]"])
  then obtain r where r: "event_plan ev te app = FeedsForRegionSwitch (te_Poll te) (te_PlanNow te) r (da_Coord app) (da_Sessions app)"
    by blast
  have "case fst (FeedsForRegionSwitch (te_Poll te) (te_PlanNow te) r (da_Coord app) (da_Sessions app)) of Inl _ \<Rightarrow> True
    | Inr (feeds, ids) \<Rightarrow> (ids = [] \<and> feeds = []) \<or> (\<exists>rid. ids = [rid] \<and> FeedsForRegion rid = Inr feeds \<and>
       (case fmlookup (pc_lastPoll (da_Coord app)) rid of None \<Rightarrow> True | Some t \<Rightarrow> 30 * second \<le> te_PlanNow te - t) \<and> (r = [] \<or> rid = r))"
    by (rule region_switch_plan)
  then show ?thesis unfolding r rested_def by (auto split: sum.splits)
qed

lemma round_error_sessions [simp]: "round_error ops poller te feeds (app\<lparr>da_Sessions := s\<rparr>) = round_error ops poller te feeds app"
  by (simp add: round_error_def)

lemma event_step_coord:
  "da_Coord (event_step ops poller ev te app) = MarkPolled (completed_by ops poller ev te app) (te_Now te) (da_Coord app)"
proof -
  have m: "MarkPolled [] t c = c" for t c by (simp add: MarkPolled_def)
  have "da_Coord (runPoll ops poller te feeds regions app') =
      MarkPolled (if feeds \<noteq> [] \<and> te_CtxErr te = None \<and> round_error ops poller te feeds app' = None then regions else []) (te_Now te) (da_Coord app')"
    for feeds regions and app' :: "'a demo_app"
  proof (cases "feeds = [] \<or> te_CtxErr te \<noteq> None")
    case True
    then show ?thesis using runPoll_idle(1) [OF True] m by auto
  next
    case False
    then show ?thesis using runPoll_parts(1) [of feeds te ops poller regions app'] m by auto
  qed
  then show ?thesis by (simp add: event_step_def completed_by_def m split: prod.splits sum.splits)
qed

lemma completed_by_cases:
  "completed_by ops poller ev te app = [] \<or>
   (\<exists>rid. completed_by ops poller ev te app = [rid] \<and> rested (da_Coord app) (te_PlanNow te) rid)"
  using event_plan_rested [where ev = ev and te = te and app = app] by (auto simp: completed_by_def split: sum.splits)

lemma MarkPolled_lookup:
  "fmlookup (pc_lastPoll (MarkPolled rids t c)) rid = (if rid \<in> set rids then Some t else fmlookup (pc_lastPoll c) rid)"
proof -
  have "fmlookup (fold (\<lambda>rid. fmupd rid t) rids m) rid = (if rid \<in> set rids then Some t else fmlookup m rid)" for m
    by (induction rids arbitrary: m) auto
  then show ?thesis by (simp add: MarkPolled_def)
qed

text \<open>The clock readings of a run, in order.\<close>

abbreviation clock_readings :: "(poll_event \<times> tick_env) list \<Rightarrow> time list" where
  "clock_readings evs \<equiv> concat (map (\<lambda>(ev, te). [te_PlanNow te, te_Now te]) evs)"

lemma completed_after_mark:
  "fmlookup (pc_lastPoll (da_Coord app)) rid = Some t \<Longrightarrow> sorted (t # clock_readings evs) \<Longrightarrow>
   (rid, plan, mark) \<in> set (completed ops poller evs app) \<Longrightarrow> t + 30 * second \<le> plan"
proof (induction evs arbitrary: app t)
  case (Cons x evs)
  obtain ev te where x: "x = (ev, te)" by fastforce
  let ?app = "event_step ops poller ev te app" and ?by = "completed_by ops poller ev te app"
  have clock: "t \<le> te_Now te" "sorted (te_Now te # clock_readings evs)" "sorted (t # clock_readings evs)"
    using Cons.prems(2) by (auto simp: x)
  have ne: "ev \<noteq> CtxDone" using Cons.prems(3) by (auto simp: x)
  show ?case
  proof (cases "rid \<in> set ?by \<and> plan = te_PlanNow te")
    case True
    then have "rested (da_Coord app) (te_PlanNow te) rid" using completed_by_cases [of ops poller ev te app] by auto
    then show ?thesis using True Cons.prems(1) by (simp add: rested_def)
  next
    case False
    then have rest: "(rid, plan, mark) \<in> set (completed ops poller evs ?app)" using Cons.prems(3) ne by (auto simp: x)
    show ?thesis
    proof (cases "rid \<in> set ?by")
      case True
      then have "fmlookup (pc_lastPoll (da_Coord ?app)) rid = Some (te_Now te)" by (simp add: event_step_coord MarkPolled_lookup)
      from Cons.IH [OF this clock(2) rest] clock(1) show ?thesis by simp
    next
      case False
      then have "fmlookup (pc_lastPoll (da_Coord ?app)) rid = Some t" using Cons.prems(1) by (simp add: event_step_coord MarkPolled_lookup)
      from Cons.IH [OF this clock(3) rest] show ?thesis .
    qed
  qed
qed simp

text \<open>C11: as long as the clock does not run backwards, whatever sessions ask for, a region whose poll
  was completed is not fetched again before thirty seconds have passed since: any two completed
  polls of one region in a run of the loop are at least that far apart.\<close>

theorem completed_polls_spaced:
  assumes "sorted (clock_readings evs)"
  shows "sorted_wrt (\<lambda>(rid, plan, mark) (rid', plan', mark'). rid = rid' \<longrightarrow> mark + 30 * second \<le> plan') (completed ops poller evs app)"
  using assms
proof (induction evs arbitrary: app)
  case (Cons x evs)
  obtain ev te where x: "x = (ev, te)" by fastforce
  let ?app = "event_step ops poller ev te app" and ?by = "completed_by ops poller ev te app"
  have clock: "sorted (clock_readings evs)" "sorted (te_Now te # clock_readings evs)" using Cons.prems by (auto simp: x)
  show ?case
  proof (cases "ev = CtxDone \<or> ?by = []")
    case True
    with Cons.IH [OF clock(1)] show ?thesis by (auto simp: x)
  next
    case False
    then obtain rid where rid: "?by = [rid]" using completed_by_cases [of ops poller ev te app] by blast
    then have "fmlookup (pc_lastPoll (da_Coord ?app)) rid = Some (te_Now te)" by (simp add: event_step_coord MarkPolled_lookup)
    from completed_after_mark [OF this clock(2)] Cons.IH [OF clock(1)] False show ?thesis by (auto simp: x rid)
  qed
qed simp

section \<open>A sample round\<close>

definition sample_entity :: Entity where
  "sample_entity = \<lparr>en_Id = ''PLX 1234'', en_Vehicle = Some \<lparr>pv_Trip = None, pv_Descriptor = None,
     pv_Position = Some \<lparr>pb_Latitude = Fin 4, pb_Longitude = Fin 101, pb_Bearing = Fin 0, pb_Speed = Fin 0\<rparr>,
     pv_Timestamp = Some 1700000000\<rparr>\<rparr>"

definition sample_attempt :: Attempt where
  "sample_attempt = \<lparr>at_CtxErr = None, at_NewRequest = None,
     at_Response = Inr \<lparr>hr_Status = 200, hr_RetryAfter = [], hr_Body = Inr []\<rparr>, at_WaitErr = None, at_Clock = (\<lambda>i. 0)\<rparr>"

definition sample_tick :: "time \<Rightarrow> tick_env" where
  "sample_tick t = \<lparr>te_Decode = (\<lambda>body. Inr [sample_entity]), te_PollCtx = (\<lambda>i. None), te_Attempts = (\<lambda>i j. sample_attempt),
     te_CtxErr = None, te_Order = [], te_PlanNow = t, te_Now = t + second,
     te_Poll = \<lparr>pk_Persist = disk_ok, pk_Clock = t, pk_Order = []\<rparr>\<rparr>"

definition ipoh_feed :: Feed where
  "ipoh_feed = \<lparr>fd_Agency = ''mybas-ipoh'', fd_URL = [], fd_Category = [], fd_Type = [], fd_Region = ''northern'', fd_Group = [], fd_BucketID = []\<rparr>"

definition fenced_isle :: "(mem, nat) isle" where
  "fenced_isle = (mem_isle 1)\<lparr>isle_Put := \<lambda>k v s. (Some (Errorf ''fenced''), s)\<rparr>"

definition sample_app :: "mem demo_app" where
  "sample_app = \<lparr>da_Pipe = empty_pipeline sample_config, da_Coord = NewPollCoordinator 0, da_Sessions = NewSessionStore None,
     da_Health = NewWriteHealth 0, da_Notify = notify_init, da_Stopped = False,
     da_PollNow = None\<rparr>"

lemma fenced_refuses: "refuses_puts fenced_isle"
  by (simp add: refuses_puts_def fenced_isle_def)

lemma sample_fetched: "fetched DefaultPoller (sample_tick t) [ipoh_feed] \<noteq> []"
  by (simp add: fetched_def collect_positions_def PollSequential_def sample_tick_def pollFeed_def maxPollAttempts_def numeral_eq_Suc
      sample_attempt_def parseFeedMessage_def sample_entity_def ValidMalaysiaBounds_def entity_vehicle_id_def
      minLat_def maxLat_def minLng_def maxLng_def)

theorem runPoll_outcome_witness:
  "da_Coord (runPoll fenced_isle DefaultPoller (sample_tick 0) [ipoh_feed] [''northern''] sample_app) = NewPollCoordinator 0 \<and>
   wh_consecutiveFailures (da_Health (runPoll fenced_isle DefaultPoller (sample_tick 0) [ipoh_feed] [''northern''] sample_app)) = 1"
proof -
  obtain e where "round_error fenced_isle DefaultPoller (sample_tick 0) [ipoh_feed] sample_app = Some e"
    using refused_round [OF fenced_refuses sample_fetched] by blast
  moreover have "te_CtxErr (sample_tick 0) = None" by (simp add: sample_tick_def)
  ultimately show ?thesis
    using runPoll_outcome [where feeds = "[ipoh_feed]" and te = "sample_tick 0" and ops = fenced_isle and poller = DefaultPoller
        and app = sample_app and regions = "[''northern'']"]
    by (simp add: sample_app_def NewWriteHealth_def RecordFailure_def)
qed

abbreviation sample_rounds :: "nat \<Rightarrow> (tick_env \<times> Feed list \<times> string list) list" where
  "sample_rounds n \<equiv> map (\<lambda>i. (sample_tick (int i * 10 * second), [ipoh_feed], [''northern''])) [0..<n]"

lemma sample_rounds_ok:
  "\<forall>(te, feeds, regions) \<in> set (sample_rounds n). feeds \<noteq> [] \<and> te_CtxErr te = None \<and> fetched DefaultPoller te feeds \<noteq> []"
proof -
  have "te_CtxErr (sample_tick t) = None" for t by (simp add: sample_tick_def)
  then show ?thesis by (simp add: sample_fetched)
qed

theorem fenced_writer_unhealthy_witness:
  "fst (healthzHandler (da_Health (poll_rounds fenced_isle DefaultPoller (sample_rounds 2) sample_app))) = 200 \<and>
   fst (healthzHandler (da_Health (poll_rounds fenced_isle DefaultPoller (sample_rounds 3) sample_app))) = 503"
  using fenced_writer_unhealthy [OF fenced_refuses _ sample_rounds_ok, of sample_app 0 2]
    fenced_writer_unhealthy [OF fenced_refuses _ sample_rounds_ok, of sample_app 0 3]
  by (simp add: sample_app_def)

theorem failed_rounds_refetch_witness:
  "\<exists>feeds. fst (FeedsForRegionSwitch (te_Poll (sample_tick (11 * second))) (11 * second) ''northern''
     (da_Coord (poll_rounds fenced_isle DefaultPoller (sample_rounds 2) sample_app)) (da_Sessions sample_app)) = Inr (feeds, [''northern''])"
proof -
  have "case FeedsForRegion ''northern'' of Inl e \<Rightarrow> False | Inr feeds \<Rightarrow> True" by code_simp
  then obtain feeds where "FeedsForRegion ''northern'' = Inr feeds" by (cases "FeedsForRegion ''northern''") auto
  then show ?thesis
    using failed_rounds_refetch [OF fenced_refuses _ _ _ sample_rounds_ok, of sample_app "''northern''" feeds]
    by (auto simp: sample_app_def NewPollCoordinator_def)
qed

text \<open>An upstream that answers with no vehicles.\<close>

abbreviation quiet_tick :: "time \<Rightarrow> tick_env" where
  "quiet_tick t \<equiv> (sample_tick t)\<lparr>te_Decode := \<lambda>body. Inr []\<rparr>"

abbreviation quiet_run :: "(poll_event \<times> tick_env) list" where
  "quiet_run \<equiv> [(PollNow ''northern'', quiet_tick 0), (PollNow ''northern'', quiet_tick (10 * second)), (PollNow ''northern'', quiet_tick (40 * second))]"

theorem completed_polls_spaced_witness:
  "completed (mem_isle 1) DefaultPoller quiet_run sample_app =
     [(''northern'', 0, second), (''northern'', 40 * second, 41 * second)] \<and>
   sorted_wrt (\<lambda>(rid, plan, mark) (rid', plan', mark'). rid = rid' \<longrightarrow> mark + 30 * second \<le> plan')
     (completed (mem_isle 1) DefaultPoller quiet_run sample_app)"
proof (rule conjI)
  show "completed (mem_isle 1) DefaultPoller quiet_run sample_app = [(''northern'', 0, second), (''northern'', 40 * second, 41 * second)]"
    by code_simp
qed (rule completed_polls_spaced, simp add: sample_tick_def go_consts)

end
