(* ===== verification/Demo_Start.thy ===== *)
theory Demo_Start
  imports Demo_App
begin

text \<open>
  The start and the end of the demo, \<open>run\<close> of \<open>cmd/demo/main.go\<close>: the backend is checked, the pipeline and
  the session store are opened, the poll loop runs until the context is done, and the pipeline is
  closed. Flag parsing, logging and the listener are left out; the poll loop is taken to have ended
  when the pipeline is closed. The agencies of the pipeline are visited in the order \<open>ds_Order\<close>, which
  stands for the order in which Go visits a map.
\<close>

section \<open>Starting\<close>

record 's start_env =
  ds_Open :: "'s open_env"
  ds_ParseDuration :: "string \<Rightarrow> duration result"
  ds_Env :: osenv
  ds_Inner :: "string \<Rightarrow> string list"    \<comment> \<open>the order of an agency's positions\<close>
  ds_Order :: "string list"              \<comment> \<open>the order of the agencies\<close>
  ds_File :: file_read                   \<comment> \<open>the session file\<close>
  ds_Disk :: "json option"
  ds_Now :: time

definition new_app :: "duration \<Rightarrow> int \<Rightarrow> 's DemoPipeline \<Rightarrow> SessionStore \<Rightarrow> 's demo_app" where
  "new_app pollInterval threshold pipe sessions =
     \<lparr>da_Pipe = pipe, da_Coord = NewPollCoordinator pollInterval, da_Sessions = sessions, da_Health = NewWriteHealth threshold,
      da_Notify = notify_init, da_Stopped = False, da_PollNow = None\<rparr>"

text \<open>\<open>Inl\<close> is an exit with code 1, with the pipeline as it was left, if one was opened.\<close>

definition demo_start ::
  "('s, 'c) isle \<Rightarrow> 's start_env \<Rightarrow> Backend \<Rightarrow> duration \<Rightarrow> int \<Rightarrow> 's DemoPipeline option + 's demo_app" where
  "demo_start ops se b pollInterval threshold =
     (if b \<noteq> BackendMemory \<and> b \<noteq> BackendMinIO then Inl None
      else case NewPipeline ops (ds_Open se) (StoreConfigFromEnv (ds_ParseDuration se) (ds_Env se) b ''demo-kl'') AllFeeds
             (ds_Inner se) (ds_Order se) (ds_Env se) of
        (Some e, p, _) \<Rightarrow> Inl (Some p)
      | (None, p, _) \<Rightarrow>
          (case OpenSessionStore (ds_File se) (ds_Disk se) DefaultSessionStorePath (ds_Now se) of
             Inl e \<Rightarrow> Inl (Some (snd (DemoPipeline_Close ops (ds_Order se) p)))
           | Inr sessions \<Rightarrow> Inr (new_app pollInterval threshold p sessions)))"

text \<open>The exit code and the pipeline after the run.\<close>

definition demo_run ::
  "('s, 'c) isle \<Rightarrow> 's start_env \<Rightarrow> Backend \<Rightarrow> duration \<Rightarrow> int \<Rightarrow> tick_env \<Rightarrow> (poll_event \<times> tick_env) list \<Rightarrow> nat \<times> 's DemoPipeline option" where
  "demo_run ops se b pollInterval threshold te0 evs =
     (case demo_start ops se b pollInterval threshold of
        Inl p \<Rightarrow> (1, p)
      | Inr app \<Rightarrow> (0, Some (snd (DemoPipeline_Close ops (ds_Order se) (da_Pipe (pollLoop ops DefaultPoller te0 evs app))))))"

section \<open>A started process\<close>

lemma open_agencies_dom:
  "open_agencies oe cfg feeds p env = (None, p', env') \<Longrightarrow> fmdom' (dp_agencies p') = fmdom' (dp_agencies p) \<union> set (AgencyIDs feeds)"
proof (induction feeds arbitrary: p env)
  case (Cons feed feeds)
  obtain aw env1 where "open_agencies oe cfg feeds (set_agency (fd_Agency feed) aw p) env1 = (None, p', env')"
    using Cons.prems by (auto split: sum.splits prod.splits)
  from Cons.IH [OF this] show ?case by (auto simp: AgencyIDs_def set_agency_def)
qed (simp add: AgencyIDs_def)

lemma hydrate_agencies: "hydrateFromSnapshot ops inner aids p = (e, p') \<Longrightarrow> dp_agencies p' = dp_agencies p"
  by (induction aids arbitrary: p) (fastforce split: option.splits sum.splits)+

text \<open>A demo that starts has a supported backend, an open prefix for exactly the agencies of the
  catalogue, sessions that are well formed whatever was in their file, a scheduler that has polled
  nothing and waits a positive interval, no subscriber, and it is healthy; until a poll asks for it no
  region is pending.\<close>

lemma demo_start_wellformed:
  assumes "demo_start ops se b pollInterval threshold = Inr app"
  shows "b \<in> {BackendMemory, BackendMinIO} \<and> fmdom' (dp_agencies (da_Pipe app)) = set (AgencyIDs AllFeeds) \<and>
    session_inv (da_Sessions app) \<and> pc_lastPoll (da_Coord app) = fmempty \<and> 0 < pc_interval (da_Coord app) \<and>
    notify_inv (da_Notify app) \<and> fst (healthzHandler (da_Health app)) = 200 \<and> \<not> da_Stopped app \<and> da_PollNow app = None"
proof -
  obtain p env' s where p: "NewPipeline ops (ds_Open se) (StoreConfigFromEnv (ds_ParseDuration se) (ds_Env se) b ''demo-kl'') AllFeeds
        (ds_Inner se) (ds_Order se) (ds_Env se) = (None, p, env')"
      and s: "OpenSessionStore (ds_File se) (ds_Disk se) DefaultSessionStorePath (ds_Now se) = Inr s"
      and app: "app = new_app pollInterval threshold p s" "b \<in> {BackendMemory, BackendMinIO}"
    using assms by (auto simp: demo_start_def split: if_splits prod.splits option.splits sum.splits)
  have "fmdom' (dp_agencies p) = set (AgencyIDs AllFeeds)"
  proof -
    obtain p0 env0 where o0: "open_agencies (ds_Open se) (StoreConfigFromEnv (ds_ParseDuration se) (ds_Env se) b ''demo-kl'') AllFeeds
          (empty_pipeline (StoreConfigFromEnv (ds_ParseDuration se) (ds_Env se) b ''demo-kl'')) (ds_Env se) = (None, p0, env0)"
        and h: "hydrateFromSnapshot ops (ds_Inner se) (ds_Order se) p0 = (None, p)"
      using p unfolding NewPipeline_def by (simp split: prod.splits option.splits)
    from open_agencies_dom [OF o0] hydrate_agencies [OF h] show ?thesis by (simp add: empty_pipeline_def)
  qed
  moreover have "session_inv s" using reach_inv [OF session_reach.reach_open [OF s]] .
  moreover have "fst (healthzHandler (NewWriteHealth threshold)) = 200"
    by (simp add: healthzHandler_def WriteHealth_Status_def NewWriteHealth_def Healthy_def DefaultWriteHealthThreshold_def)
  ultimately show ?thesis
    using app by (simp add: new_app_def NewPollCoordinator_def DefaultPollInterval_def DefaultPollSeconds_def notify_inv_init go_consts)
qed

definition sample_start :: "mem start_env" where
  "sample_start = \<lparr>ds_Open = mem_open, ds_ParseDuration = (\<lambda>s. Inl (Errorf s)), ds_Env = (\<lambda>k. []), ds_Inner = (\<lambda>aid. []),
     ds_Order = AgencyIDs AllFeeds, ds_File = Inl (Extern NotExist ''no file''), ds_Disk = None, ds_Now = time_zero\<rparr>"

lemma mem_agencies_open:
  "sc_Backend cfg = BackendMemory \<Longrightarrow> \<exists>p'. open_agencies mem_open cfg feeds p env = (None, p', env)"
  by (induction feeds arbitrary: p)
    (simp_all add: openAgency_def OpenPrefixDB_def openIsleDB_def mem_open_def Let_def)

lemma mem_hydrates: "\<exists>p'. hydrateFromSnapshot (mem_isle n) inner aids p = (None, p')"
  by (induction aids arbitrary: p) (simp_all add: bootstrapLatest_def mem_isle_def split: option.splits)

text \<open>Over a store in memory and without a session file the demo does start.\<close>

lemma sample_starts: "\<exists>app. demo_start (mem_isle 1) sample_start BackendMemory second 3 = Inr app"
proof -
  let ?cfg = "StoreConfigFromEnv (\<lambda>s. Inl (Errorf s)) (\<lambda>k. []) BackendMemory ''demo-kl''"
  obtain p where p: "open_agencies mem_open ?cfg AllFeeds (empty_pipeline ?cfg) (\<lambda>k. []) = (None, p, \<lambda>k. [])"
  proof -
    have "sc_Backend ?cfg = BackendMemory" by (simp add: StoreConfigFromEnv_def)
    from mem_agencies_open [OF this] that show thesis by blast
  qed
  obtain p' where h: "hydrateFromSnapshot (mem_isle 1) (\<lambda>aid. []) (AgencyIDs AllFeeds) p = (None, p')"
    using mem_hydrates by blast
  have "NewPipeline (mem_isle 1) mem_open ?cfg AllFeeds (\<lambda>aid. []) (AgencyIDs AllFeeds) (\<lambda>k. []) = (None, p', \<lambda>k. [])"
    unfolding NewPipeline_def by (simp only: p h prod.case option.case)
  moreover have "OpenSessionStore (Inl (Extern NotExist ''no file'')) None path now =
      Inr \<lparr>st_sessions = fmempty, st_live = fmempty, st_path = path, st_Disk = None\<rparr>" for path now
    by (simp add: OpenSessionStore_def SessionStore_load_def)
  ultimately show ?thesis
    by (simp add: demo_start_def sample_start_def)
qed

section \<open>A finished process\<close>

lemma close_agencies_lookup:
  "distinct aids \<Longrightarrow> fmlookup (dp_agencies (snd (close_agencies ops aids first p))) aid =
     (if aid \<in> set aids then map_option (\<lambda>aw. snd (PrefixDB_Close ops aw)) (fmlookup (dp_agencies p) aid)
      else fmlookup (dp_agencies p) aid)"
  by (induction aids arbitrary: first p) (auto simp: set_agency_def split: option.splits prod.splits)

text \<open>A run that started exits with 0, and every prefix it has open when the poll loop ends is closed,
  the later ones too when an earlier one fails to close.\<close>

lemma demo_run_closes:
  assumes "demo_start ops se b pollInterval threshold = Inr app" "distinct (ds_Order se)"
    "aid \<in> set (ds_Order se)" "fmlookup (dp_agencies (da_Pipe (pollLoop ops DefaultPoller te0 evs app))) aid = Some aw"
  shows "\<exists>p. demo_run ops se b pollInterval threshold te0 evs = (0, Some p) \<and>
    fmlookup (dp_agencies p) aid = Some (snd (PrefixDB_Close ops aw))"
  using assms by (simp add: demo_run_def DemoPipeline_Close_def close_agencies_lookup)

end
