(* ===== verification/Proto_Wire.thy ===== *)
theory Proto_Wire
  imports Go_Text Go_Time "HOL-Library.Word"
begin

text \<open>
  What the archived metrics programs use of \<open>easyproto\<close>: a message under construction is the list of
  the fields appended to it, \<open>Marshal\<close> gives its bytes, and \<open>FieldContext.NextField\<close> takes one field off
  a byte slice, whose accessors answer when it has the wanted type. The package is outside the
  repository, so its operations are a record; the locale \<open>wire_format\<close> states what the programs rely
  on, and it is interpreted on the wire format of protocol buffers. The type \<open>'d\<close> stands for \<open>float64\<close>.
\<close>

section \<open>The operations\<close>

datatype 'd pfield =
    PInt64 nat int
  | PInt32 nat int
  | PDouble nat 'd
  | PBool nat bool
  | PString nat string
  | PMessage nat "'d pfield list"

fun pfield_num :: "'d pfield \<Rightarrow> nat" where
  "pfield_num (PInt64 n i) = n"
| "pfield_num (PInt32 n i) = n"
| "pfield_num (PDouble n d) = n"
| "pfield_num (PBool n b) = n"
| "pfield_num (PString n s) = n"
| "pfield_num (PMessage n fs) = n"

record ('f, 'd) easyproto =
  ep_Marshal :: "'d pfield list \<Rightarrow> string"
  ep_Next :: "string \<Rightarrow> ('f \<times> string) result"
  ep_FieldNum :: "'f \<Rightarrow> nat"
  ep_Int64 :: "'f \<Rightarrow> int option"
  ep_Int32 :: "'f \<Rightarrow> int option"
  ep_Double :: "'f \<Rightarrow> 'd option"
  ep_Bool :: "'f \<Rightarrow> bool option"
  ep_String :: "'f \<Rightarrow> string option"
  ep_MessageData :: "'f \<Rightarrow> string option"

section \<open>What the programs rely on\<close>

definition int32 :: "int \<Rightarrow> bool" where
  "int32 i \<longleftrightarrow> - (2 ^ 31) \<le> i \<and> i < 2 ^ 31"

fun pfield_ok :: "'d pfield \<Rightarrow> bool" where
  "pfield_ok (PInt64 n i) \<longleftrightarrow> int64 i"
| "pfield_ok (PInt32 n i) \<longleftrightarrow> int32 i"
| "pfield_ok f \<longleftrightarrow> True"

text \<open>The accessor of a field's type answers the value that was appended.\<close>

fun carries :: "('f, 'd) easyproto \<Rightarrow> 'f \<Rightarrow> 'd pfield \<Rightarrow> bool" where
  "carries ops x (PInt64 n i) \<longleftrightarrow> ep_Int64 ops x = Some i"
| "carries ops x (PInt32 n i) \<longleftrightarrow> ep_Int32 ops x = Some i"
| "carries ops x (PDouble n d) \<longleftrightarrow> ep_Double ops x = Some d"
| "carries ops x (PBool n b) \<longleftrightarrow> ep_Bool ops x = Some b"
| "carries ops x (PString n s) \<longleftrightarrow> ep_String ops x = Some s"
| "carries ops x (PMessage n fs) \<longleftrightarrow> ep_MessageData ops x = Some (ep_Marshal ops fs)"

locale wire_format =
  fixes ops :: "('f, 'd :: zero) easyproto"
  assumes marshal_Nil: "ep_Marshal ops [] = []"
    and marshal_Cons: "ep_Marshal ops (f # fs) \<noteq> []"
    and next_marshal: "pfield_ok f \<Longrightarrow>
      \<exists>x. ep_Next ops (ep_Marshal ops (f # fs)) = Inr (x, ep_Marshal ops fs) \<and> ep_FieldNum ops x = pfield_num f \<and> carries ops x f"
    and next_shorter: "ep_Next ops b = Inr (x, r) \<Longrightarrow> length r < length b"
    and data_shorter: "ep_Next ops b = Inr (x, r) \<Longrightarrow> ep_MessageData ops x = Some d \<Longrightarrow> length d < length b"

section \<open>The wire format of protocol buffers\<close>

text \<open>Base-128 numbers and little-endian bytes.\<close>

fun varint :: "nat \<Rightarrow> string" where
  "varint n = (if n < 128 then [char_of n] else char_of (128 + n mod 128) # varint (n div 128))"

declare varint.simps [simp del]

fun get_varint :: "string \<Rightarrow> (nat \<times> string) option" where
  "get_varint [] = None"
| "get_varint (c # cs) =
     (let b = of_char c in
      if b < 128 then Some (b, cs)
      else case get_varint cs of None \<Rightarrow> None | Some (n, r) \<Rightarrow> Some (b - 128 + 128 * n, r))"

lemma get_varint_varint: "get_varint (varint n @ r) = Some (n, r)"
proof (induction n rule: varint.induct)
  case (1 n)
  show ?case
  proof (cases "n < 128")
    case True
    then show ?thesis by (simp add: varint.simps [of n] Let_def)
  next
    case False
    then show ?thesis using 1 by (subst varint.simps) (simp add: Let_def)
  qed
qed

lemma get_varint_shorter: "get_varint s = Some (n, r) \<Longrightarrow> length r < length s"
  by (induction s arbitrary: n) (fastforce simp: Let_def split: if_splits option.splits)+

lemma varint_nonempty: "varint n \<noteq> []"
  by (subst varint.simps) simp

fun le_bytes :: "nat \<Rightarrow> nat \<Rightarrow> string" where
  "le_bytes 0 n = []"
| "le_bytes (Suc k) n = char_of (n mod 256) # le_bytes k (n div 256)"

fun le_value :: "string \<Rightarrow> nat" where
  "le_value [] = 0"
| "le_value (c # cs) = of_char c + 256 * le_value cs"

lemma length_le_bytes [simp]: "length (le_bytes k n) = k"
  by (induction k arbitrary: n) auto

lemma le_value_bytes: "le_value (le_bytes k n) = n mod 256 ^ k"
  by (induction k arbitrary: n) (simp_all add: mod_mult2_eq)

text \<open>A field as it comes off the wire.\<close>

datatype wire_field = WVarint nat nat | WFixed64 nat nat | WBytes nat string | WFixed32 nat nat

fun wire_num :: "wire_field \<Rightarrow> nat" where
  "wire_num (WVarint n v) = n"
| "wire_num (WFixed64 n v) = n"
| "wire_num (WBytes n v) = n"
| "wire_num (WFixed32 n v) = n"

definition wire_error :: goerror where
  "wire_error = Extern OtherKind ''cannot unmarshal field''"

definition take_bytes :: "nat \<Rightarrow> string \<Rightarrow> (string \<times> string) option" where
  "take_bytes n s = (if length s < n then None else Some (take n s, drop n s))"

definition wire_Next :: "string \<Rightarrow> (wire_field \<times> string) result" where
  "wire_Next s =
     (case get_varint s of
        None \<Rightarrow> Inl wire_error
      | Some (tag, r) \<Rightarrow>
          (if tag mod 8 = 0 then
             (case get_varint r of None \<Rightarrow> Inl wire_error | Some (v, r') \<Rightarrow> Inr (WVarint (tag div 8) v, r'))
           else if tag mod 8 = 1 then
             (case take_bytes 8 r of None \<Rightarrow> Inl wire_error | Some (v, r') \<Rightarrow> Inr (WFixed64 (tag div 8) (le_value v), r'))
           else if tag mod 8 = 2 then
             (case get_varint r of
                None \<Rightarrow> Inl wire_error
              | Some (n, r1) \<Rightarrow>
                  (case take_bytes n r1 of None \<Rightarrow> Inl wire_error | Some (v, r') \<Rightarrow> Inr (WBytes (tag div 8) v, r')))
           else if tag mod 8 = 5 then
             (case take_bytes 4 r of None \<Rightarrow> Inl wire_error | Some (v, r') \<Rightarrow> Inr (WFixed32 (tag div 8) (le_value v), r'))
           else Inl wire_error))"

definition of_bits64 :: "nat \<Rightarrow> int" where
  "of_bits64 n = (if n < 2 ^ 63 then int n else int n - 2 ^ 64)"

definition to_bits64 :: "int \<Rightarrow> nat" where
  "to_bits64 i = nat (i mod 2 ^ 64)"

fun wire_Int64 :: "wire_field \<Rightarrow> int option" where
  "wire_Int64 (WVarint n v) = (if v < 2 ^ 64 then Some (of_bits64 v) else None)"
| "wire_Int64 f = None"

fun wire_Int32 :: "wire_field \<Rightarrow> int option" where
  "wire_Int32 (WVarint n v) = (if v < 2 ^ 64 \<and> int32 (of_bits64 v) then Some (of_bits64 v) else None)"
| "wire_Int32 f = None"

fun wire_Double :: "wire_field \<Rightarrow> 64 word option" where
  "wire_Double (WFixed64 n v) = Some (of_nat v)"
| "wire_Double f = None"

fun wire_Bool :: "wire_field \<Rightarrow> bool option" where
  "wire_Bool (WVarint n v) = (if v < 2 then Some (v = 1) else None)"
| "wire_Bool f = None"

fun wire_Bytes :: "wire_field \<Rightarrow> string option" where
  "wire_Bytes (WBytes n v) = Some v"
| "wire_Bytes f = None"

fun wire_field_bytes :: "64 word pfield \<Rightarrow> string" where
  "wire_field_bytes (PInt64 n i) = varint (8 * n) @ varint (to_bits64 i)"
| "wire_field_bytes (PInt32 n i) = varint (8 * n) @ varint (to_bits64 i)"
| "wire_field_bytes (PDouble n d) = varint (8 * n + 1) @ le_bytes 8 (unat d)"
| "wire_field_bytes (PBool n b) = varint (8 * n) @ varint (if b then 1 else 0)"
| "wire_field_bytes (PString n s) = varint (8 * n + 2) @ varint (length s) @ s"
| "wire_field_bytes (PMessage n fs) =
     (let b = concat (map wire_field_bytes fs) in varint (8 * n + 2) @ varint (length b) @ b)"

definition wire_Marshal :: "64 word pfield list \<Rightarrow> string" where
  "wire_Marshal fs = concat (map wire_field_bytes fs)"

definition protobuf :: "(wire_field, 64 word) easyproto" where
  "protobuf =
     \<lparr>ep_Marshal = wire_Marshal, ep_Next = wire_Next, ep_FieldNum = wire_num, ep_Int64 = wire_Int64, ep_Int32 = wire_Int32,
      ep_Double = wire_Double, ep_Bool = wire_Bool, ep_String = wire_Bytes, ep_MessageData = wire_Bytes\<rparr>"

lemma of_to_bits64: "int64 i \<Longrightarrow> of_bits64 (to_bits64 i) = i \<and> to_bits64 i < 2 ^ 64"
proof -
  assume i: "int64 i"
  show ?thesis
  proof (cases "i < 0")
    case True
    have "i mod 2 ^ 64 = (i + 2 ^ 64) mod 2 ^ 64" by (rule mod_add_self2 [symmetric])
    also have "\<dots> = i + 2 ^ 64" using i True by (intro mod_pos_pos_trivial) auto
    finally show ?thesis using i True by (auto simp: of_bits64_def to_bits64_def nat_less_iff)
  next
    case False
    then have "i mod 2 ^ 64 = i" using i by (intro mod_pos_pos_trivial) auto
    then show ?thesis using i False by (auto simp: of_bits64_def to_bits64_def nat_less_iff)
  qed
qed

lemma int32_int64: "int32 i \<Longrightarrow> int64 i"
  by (simp add: int32_def)

lemma take_bytes_append [simp]: "take_bytes (length v) (v @ r) = Some (v, r)"
  by (simp add: take_bytes_def)

lemma take_bytes_SomeD: "take_bytes n s = Some (v, r) \<Longrightarrow> length v \<le> length s \<and> length r \<le> length s"
  by (auto simp: take_bytes_def split: if_splits)

lemma take_le_bytes [simp]: "take_bytes 8 (le_bytes 8 n @ r) = Some (le_bytes 8 n, r)"
  using take_bytes_append [of "le_bytes 8 n" r] by simp

lemma tag_parts [simp]: "(8 * n + k) mod 8 = k mod 8" "k < 8 \<Longrightarrow> (8 * n + k) div 8 = (n :: nat)"
  by auto

lemma wire_Next_field:
  assumes "pfield_ok f"
  shows "\<exists>x. wire_Next (wire_field_bytes f @ r) = Inr (x, r) \<and> wire_num x = pfield_num f \<and> carries protobuf x f"
proof (cases f)
  case (PInt64 n i)
  with assms of_to_bits64 [of i] show ?thesis by (simp add: wire_Next_def get_varint_varint protobuf_def)
next
  case (PInt32 n i)
  with assms of_to_bits64 [of i] int32_int64 [of i] show ?thesis by (simp add: wire_Next_def get_varint_varint protobuf_def)
next
  case (PDouble n d)
  have "unat d < 2 ^ 64" using unsigned_less [of d, where ?'a = nat] by simp
  then have "of_nat (le_value (le_bytes 8 (unat d))) = d" by (simp add: le_value_bytes)
  with PDouble show ?thesis by (simp add: wire_Next_def get_varint_varint protobuf_def del: le_bytes.simps)
next
  case (PBool n b)
  then show ?thesis by (simp add: wire_Next_def get_varint_varint protobuf_def)
next
  case (PString n s)
  then show ?thesis by (simp add: wire_Next_def get_varint_varint protobuf_def del: add_2_eq_Suc')
next
  case (PMessage n fs)
  then show ?thesis by (simp add: wire_Next_def get_varint_varint protobuf_def wire_Marshal_def Let_def del: add_2_eq_Suc')
qed

lemma wire_Next_shorter:
  assumes "wire_Next b = Inr (x, r)"
  shows "length r < length b \<and> (\<forall>d. wire_Bytes x = Some d \<longrightarrow> length d < length b)"
  using assms
  by (auto simp: wire_Next_def split: option.splits prod.splits if_splits
      dest!: get_varint_shorter take_bytes_SomeD)

lemma wire_field_nonempty: "wire_field_bytes f \<noteq> []"
  by (cases f) (simp_all add: varint_nonempty Let_def)

interpretation protobuf: wire_format protobuf
proof
  show "ep_Marshal protobuf [] = []" by (simp add: protobuf_def wire_Marshal_def)
  show "ep_Marshal protobuf (f # fs) \<noteq> []" for f fs by (simp add: protobuf_def wire_Marshal_def wire_field_nonempty)
  show "\<exists>x. ep_Next protobuf (ep_Marshal protobuf (f # fs)) = Inr (x, ep_Marshal protobuf fs) \<and>
      ep_FieldNum protobuf x = pfield_num f \<and> carries protobuf x f" if "pfield_ok f" for f fs
    using wire_Next_field [OF that, of "wire_Marshal fs"] by (simp add: protobuf_def wire_Marshal_def)
  show "length r < length b" if "ep_Next protobuf b = Inr (x, r)" for b x r
    using that wire_Next_shorter [of b x r] by (simp add: protobuf_def)
  show "length d < length b" if "ep_Next protobuf b = Inr (x, r)" "ep_MessageData protobuf x = Some d" for b x r d
    using that wire_Next_shorter [of b x r] by (simp add: protobuf_def)
qed

end
