(* ===== verification/Metrics_Codec.thy ===== *)
theory Metrics_Codec
  imports Proto_Wire
begin

text \<open>
  The metric points of the archived metrics programs (\<open>ARCHIVE/Jul252026/internal/shared\<close>) with the
  encoder of the client and the decoder of the server, over the operations of \<open>Proto_Wire\<close>.

  Pointers that may be nil are options. A decoding loop is a partial function, so that a loop that
  does not end would have no value; it is shown to return on every input. The order in which the
  encoder visits a map is an argument.
\<close>

section \<open>Data\<close>

record Label =
  lb_Name :: string
  lb_Value :: string

definition ValueType_UNSPECIFIED :: int where "ValueType_UNSPECIFIED = 0"
definition ValueType_INT :: int where "ValueType_INT = 1"
definition ValueType_FLOAT :: int where "ValueType_FLOAT = 2"
definition ValueType_STRING :: int where "ValueType_STRING = 3"
definition ValueType_LIST :: int where "ValueType_LIST = 4"

lemmas value_types = ValueType_UNSPECIFIED_def ValueType_INT_def ValueType_FLOAT_def ValueType_STRING_def ValueType_LIST_def

text \<open>\<open>Type\<close>, \<open>IntVal\<close>, \<open>FloatVal\<close>, \<open>StringVal\<close> and \<open>ListVal\<close>, in this order.\<close>

datatype 'd Value =
  Value (vl_Type: int) (vl_IntVal: "int option") (vl_FloatVal: "'d option") (vl_StringVal: "string option")
    (vl_ListVal: "'d Value list")

record 'd KeyValue =
  kv_Items :: "(string, 'd Value) fmap"

record 'd MetricPoint =
  mp_Timestamp :: int
  mp_Value :: 'd
  mp_IsNull :: bool
  mp_Labels :: "Label list"
  mp_Properties :: "'d KeyValue option"

section \<open>Encoding\<close>

fun marshalValue :: "'d Value \<Rightarrow> 'd pfield list" where
  "marshalValue (Value t i f s l) =
     PInt32 1 t #
     (if t = ValueType_INT then (case i of None \<Rightarrow> [] | Some n \<Rightarrow> [PInt64 2 n])
      else if t = ValueType_FLOAT then (case f of None \<Rightarrow> [] | Some x \<Rightarrow> [PDouble 3 x])
      else if t = ValueType_STRING then (case s of None \<Rightarrow> [] | Some x \<Rightarrow> [PString 4 x])
      else if t = ValueType_LIST then map (\<lambda>item. PMessage 5 (marshalValue item)) l
      else [])"

definition label_fields :: "Label \<Rightarrow> 'd pfield" where
  "label_fields label = PMessage 4 [PString 1 (lb_Name label), PString 2 (lb_Value label)]"

definition item_fields :: "string \<times> 'd Value \<Rightarrow> 'd pfield" where
  "item_fields kv = PMessage 1 [PString 1 (fst kv), PMessage 2 (marshalValue (snd kv))]"

definition metric_fields :: "string list \<Rightarrow> 'd MetricPoint \<Rightarrow> 'd pfield list" where
  "metric_fields ord mp =
     [PInt64 1 (mp_Timestamp mp), PDouble 2 (mp_Value mp), PBool 3 (mp_IsNull mp)] @
     map label_fields (mp_Labels mp) @
     (case mp_Properties mp of
        None \<Rightarrow> []
      | Some kv \<Rightarrow> [PMessage 5 (map item_fields (range_entries ord (kv_Items kv)))])"

definition marshalMetricPoint :: "('f, 'd) easyproto \<Rightarrow> string list \<Rightarrow> 'd MetricPoint \<Rightarrow> string" where
  "marshalMetricPoint ops ord mp = ep_Marshal ops (metric_fields ord mp)"

section \<open>Decoding\<close>

text \<open>The loop over the fields of a message: \<open>msg\<close> is the text put before an error of \<open>NextField\<close>.\<close>

partial_function (option) field_loop ::
  "('f, 'd) easyproto \<Rightarrow> string \<Rightarrow> ('f \<Rightarrow> 's \<Rightarrow> 's result option) \<Rightarrow> string \<Rightarrow> 's \<Rightarrow> 's result option" where
  [code]: "field_loop ops msg step remaining st =
     (if remaining = [] then Some (Inr st)
      else case ep_Next ops remaining of
        Inl e \<Rightarrow> Some (Inl (Errorf (msg @ '': '' @ error_text e)))
      | Inr (fc, remaining') \<Rightarrow>
          (case step fc st of
             None \<Rightarrow> None
           | Some (Inl e) \<Rightarrow> Some (Inl e)
           | Some (Inr st') \<Rightarrow> field_loop ops msg step remaining' st'))"

text \<open>A field read with an accessor; \<open>msg\<close> is the error when it has another type.\<close>

definition scalar :: "'a option \<Rightarrow> string \<Rightarrow> ('a \<Rightarrow> 's) \<Rightarrow> 's result" where
  "scalar r msg upd = (case r of Some v \<Rightarrow> Inr (upd v) | None \<Rightarrow> Inl (Errorf msg))"

definition label_field :: "('f, 'd) easyproto \<Rightarrow> 'f \<Rightarrow> Label \<Rightarrow> Label result option" where
  "label_field ops fc label =
     Some (if ep_FieldNum ops fc = 1 then scalar (ep_String ops fc) ''invalid label name field'' (\<lambda>v. label\<lparr>lb_Name := v\<rparr>)
           else if ep_FieldNum ops fc = 2 then scalar (ep_String ops fc) ''invalid label value field'' (\<lambda>v. label\<lparr>lb_Value := v\<rparr>)
           else Inr label)"

definition unmarshalLabel :: "('f, 'd) easyproto \<Rightarrow> string \<Rightarrow> Label result option" where
  "unmarshalLabel ops data =
     field_loop ops ''failed to get next field in label'' (label_field ops) data \<lparr>lb_Name = [], lb_Value = []\<rparr>"

text \<open>The fields of a value other than its list items.\<close>

fun value_field :: "('f, 'd) easyproto \<Rightarrow> 'f \<Rightarrow> 'd Value \<Rightarrow> 'd Value result" where
  "value_field ops fc (Value t i f s l) =
     (if ep_FieldNum ops fc = 1 then scalar (ep_Int32 ops fc) ''invalid value type field'' (\<lambda>v. Value v i f s l)
      else if ep_FieldNum ops fc = 2 then scalar (ep_Int64 ops fc) ''invalid int value field'' (\<lambda>v. Value t (Some v) f s l)
      else if ep_FieldNum ops fc = 3 then scalar (ep_Double ops fc) ''invalid float value field'' (\<lambda>v. Value t i (Some v) s l)
      else if ep_FieldNum ops fc = 4 then scalar (ep_String ops fc) ''invalid string value field'' (\<lambda>v. Value t i f (Some v) l)
      else Inr (Value t i f s l))"

fun append_item :: "'d Value \<Rightarrow> 'd Value \<Rightarrow> 'd Value" where
  "append_item (Value t i f s l) item = Value t i f s (l @ [item])"

definition Value_zero :: "'d Value" where
  "Value_zero = Value 0 None None None []"

partial_function (option) value_loop :: "('f, 'd) easyproto \<Rightarrow> string \<Rightarrow> 'd Value \<Rightarrow> 'd Value result option" where
  [code]: "value_loop ops remaining val =
     (if remaining = [] then Some (Inr val)
      else case ep_Next ops remaining of
        Inl e \<Rightarrow> Some (Inl (Errorf (''failed to get next field in value: '' @ error_text e)))
      | Inr (fc, remaining') \<Rightarrow>
          (if ep_FieldNum ops fc = 5 then
             (case ep_MessageData ops fc of
                None \<Rightarrow> Some (Inl (Errorf ''invalid list item message''))
              | Some itemData \<Rightarrow>
                  Option.bind (value_loop ops itemData Value_zero) (\<lambda>r.
                    case r of
                      Inl e \<Rightarrow> Some (Inl (Errorf (''failed to unmarshal list item: '' @ error_text e)))
                    | Inr item \<Rightarrow> value_loop ops remaining' (append_item val item)))
           else case value_field ops fc val of
             Inl e \<Rightarrow> Some (Inl e)
           | Inr val' \<Rightarrow> value_loop ops remaining' val'))"

definition unmarshalValue :: "('f, 'd) easyproto \<Rightarrow> string \<Rightarrow> 'd Value result option" where
  "unmarshalValue ops data = value_loop ops data Value_zero"

text \<open>A part of a message: its data decoded with \<open>dec\<close>, whose errors are put behind \<open>msg\<close>.\<close>

definition submessage ::
  "('f, 'd) easyproto \<Rightarrow> 'f \<Rightarrow> string \<Rightarrow> (string \<Rightarrow> 'a result option) \<Rightarrow> string \<Rightarrow> ('a \<Rightarrow> 's) \<Rightarrow> 's result option" where
  "submessage ops fc invalid dec msg upd =
     (case ep_MessageData ops fc of
        None \<Rightarrow> Some (Inl (Errorf invalid))
      | Some data \<Rightarrow>
          (case dec data of
             None \<Rightarrow> None
           | Some (Inl e) \<Rightarrow> Some (Inl (Errorf (msg @ '': '' @ error_text e)))
           | Some (Inr v) \<Rightarrow> Some (Inr (upd v))))"

definition entry_field ::
  "('f, 'd) easyproto \<Rightarrow> 'f \<Rightarrow> string \<times> 'd Value option \<Rightarrow> (string \<times> 'd Value option) result option" where
  "entry_field ops fc kv =
     (if ep_FieldNum ops fc = 1 then Some (scalar (ep_String ops fc) ''invalid map key field'' (\<lambda>k. (k, snd kv)))
      else if ep_FieldNum ops fc = 2 then
        submessage ops fc ''invalid value message'' (unmarshalValue ops) ''failed to unmarshal value'' (\<lambda>v. (fst kv, Some v))
      else Some (Inr kv))"

definition unmarshalMapEntry :: "('f, 'd) easyproto \<Rightarrow> string \<Rightarrow> (string \<times> 'd Value) result option" where
  "unmarshalMapEntry ops data =
     (case field_loop ops ''failed to get next field in map entry'' (entry_field ops) data ([], None) of
        None \<Rightarrow> None
      | Some (Inl e) \<Rightarrow> Some (Inl e)
      | Some (Inr (key, val)) \<Rightarrow>
          Some (if key = [] then Inl (Errorf ''missing map key'')
                else case val of None \<Rightarrow> Inl (Errorf ''missing map value'') | Some v \<Rightarrow> Inr (key, v)))"

definition keyvalue_field :: "('f, 'd) easyproto \<Rightarrow> 'f \<Rightarrow> 'd KeyValue \<Rightarrow> 'd KeyValue result option" where
  "keyvalue_field ops fc kv =
     (if ep_FieldNum ops fc = 1 then
        submessage ops fc ''invalid item message'' (unmarshalMapEntry ops) ''failed to unmarshal map entry''
          (\<lambda>(k, v). kv\<lparr>kv_Items := fmupd k v (kv_Items kv)\<rparr>)
      else Some (Inr kv))"

definition unmarshalKeyValue :: "('f, 'd) easyproto \<Rightarrow> string \<Rightarrow> 'd KeyValue \<Rightarrow> 'd KeyValue result option" where
  "unmarshalKeyValue ops data kv = field_loop ops ''failed to get next field in keyvalue'' (keyvalue_field ops) data kv"

text \<open>\<open>Properties\<close> of the point being decoded is never nil.\<close>

definition metric_field :: "('f, 'd) easyproto \<Rightarrow> 'f \<Rightarrow> 'd MetricPoint \<Rightarrow> 'd MetricPoint result option" where
  "metric_field ops fc mp =
     (if ep_FieldNum ops fc = 1 then Some (scalar (ep_Int64 ops fc) ''invalid timestamp field'' (\<lambda>v. mp\<lparr>mp_Timestamp := v\<rparr>))
      else if ep_FieldNum ops fc = 2 then Some (scalar (ep_Double ops fc) ''invalid value field'' (\<lambda>v. mp\<lparr>mp_Value := v\<rparr>))
      else if ep_FieldNum ops fc = 3 then Some (scalar (ep_Bool ops fc) ''invalid isNull field'' (\<lambda>v. mp\<lparr>mp_IsNull := v\<rparr>))
      else if ep_FieldNum ops fc = 4 then
        submessage ops fc ''invalid label message'' (unmarshalLabel ops) ''failed to unmarshal label''
          (\<lambda>v. mp\<lparr>mp_Labels := mp_Labels mp @ [v]\<rparr>)
      else if ep_FieldNum ops fc = 5 then
        submessage ops fc ''invalid properties message''
          (\<lambda>data. unmarshalKeyValue ops data (case mp_Properties mp of None \<Rightarrow> \<lparr>kv_Items = fmempty\<rparr> | Some kv \<Rightarrow> kv))
          ''failed to unmarshal properties'' (\<lambda>v. mp\<lparr>mp_Properties := Some v\<rparr>)
      else Some (Inr mp))"

definition metric_zero :: "'d :: zero MetricPoint" where
  "metric_zero = \<lparr>mp_Timestamp = 0, mp_Value = 0, mp_IsNull = False, mp_Labels = [], mp_Properties = Some \<lparr>kv_Items = fmempty\<rparr>\<rparr>"

definition unmarshalMetricPoint :: "('f, 'd :: zero) easyproto \<Rightarrow> string \<Rightarrow> 'd MetricPoint result option" where
  "unmarshalMetricPoint ops data = field_loop ops ''failed to get next field'' (metric_field ops) data metric_zero"

section \<open>What a round trip keeps\<close>

text \<open>The encoder writes only the member of a value that its type names.\<close>

fun norm_value :: "'d Value \<Rightarrow> 'd Value" where
  "norm_value (Value t i f s l) =
     Value t (if t = ValueType_INT then i else None) (if t = ValueType_FLOAT then f else None)
       (if t = ValueType_STRING then s else None) (if t = ValueType_LIST then map norm_value l else [])"

definition norm_metric :: "'d MetricPoint \<Rightarrow> 'd MetricPoint" where
  "norm_metric mp =
     mp\<lparr>mp_Properties := Some \<lparr>kv_Items = (case mp_Properties mp of None \<Rightarrow> fmempty | Some kv \<Rightarrow> fmmap norm_value (kv_Items kv))\<rparr>\<rparr>"

text \<open>The integers are of their machine types.\<close>

fun value_ok :: "'d Value \<Rightarrow> bool" where
  "value_ok (Value t i f s l) \<longleftrightarrow> int32 t \<and> (case i of None \<Rightarrow> True | Some n \<Rightarrow> int64 n) \<and> list_all value_ok l"

definition metric_ok :: "'d MetricPoint \<Rightarrow> bool" where
  "metric_ok mp \<longleftrightarrow> int64 (mp_Timestamp mp) \<and>
     (case mp_Properties mp of None \<Rightarrow> True | Some kv \<Rightarrow> (\<forall>v \<in> fmran' (kv_Items kv). value_ok v))"

definition missing_key :: goerror where
  "missing_key = Errorf ''failed to unmarshal map entry: missing map key''"

context wire_format
begin

subsection \<open>The loops return\<close>

lemma field_loop_returns:
  assumes "\<And>fc st. \<exists>r. step fc st = Some r"
  shows "\<exists>r. field_loop ops msg step b st = Some r"
proof (induction "length b" arbitrary: b st rule: less_induct)
  case less
  show ?case
  proof (cases "ep_Next ops b")
    case (Inr p)
    obtain x r where p: "p = (x, r)" by fastforce
    obtain o1 where "step x st = Some o1" using assms by blast
    with Inr p less [OF next_shorter [OF Inr [unfolded p]]] show ?thesis
      by (subst field_loop.simps) (auto split: sum.splits)
  qed (subst field_loop.simps, simp)
qed

lemma value_loop_returns: "\<exists>r. value_loop ops b v = Some r"
proof (induction "length b" arbitrary: b v rule: less_induct)
  case less
  show ?case
  proof (cases "ep_Next ops b")
    case (Inr p)
    obtain x r where p: "p = (x, r)" by fastforce
    note n = Inr [unfolded p]
    have rest: "\<exists>o1. value_loop ops r v' = Some o1" for v' by (rule less [OF next_shorter [OF n]])
    have item: "\<exists>o1. value_loop ops d v' = Some o1" if "ep_MessageData ops x = Some d" for d v'
      by (rule less [OF data_shorter [OF n that]])
    show ?thesis
    proof (cases "ep_FieldNum ops x = 5 \<and> ep_MessageData ops x \<noteq> None")
      case True
      then obtain d where d: "ep_MessageData ops x = Some d" by blast
      obtain o1 where "value_loop ops d Value_zero = Some o1" using item [OF d] by blast
      with True d n rest show ?thesis by (subst value_loop.simps) (cases o1; auto)
    next
      case False
      with n rest show ?thesis by (subst value_loop.simps) (auto split: sum.splits option.splits)
    qed
  qed (subst value_loop.simps, simp)
qed

lemma submessage_returns:
  assumes "\<And>data. \<exists>r. dec data = Some r"
  shows "\<exists>r. submessage ops fc invalid dec msg upd = Some r"
proof (cases "ep_MessageData ops fc")
  case (Some d)
  obtain r where "dec d = Some r" using assms by blast
  with Some show ?thesis by (cases r) (auto simp: submessage_def)
qed (simp add: submessage_def)

lemma unmarshalMapEntry_returns: "\<exists>r. unmarshalMapEntry ops data = Some r"
proof -
  have "\<exists>r. entry_field ops fc st = Some r" for fc st
    unfolding entry_field_def by (auto intro: submessage_returns simp: unmarshalValue_def value_loop_returns)
  then obtain r where "field_loop ops ''failed to get next field in map entry'' (entry_field ops) data ([], None) = Some r"
    using field_loop_returns [of "entry_field ops"] by blast
  then show ?thesis by (cases r) (auto simp: unmarshalMapEntry_def)
qed

lemma unmarshalKeyValue_returns: "\<exists>r. unmarshalKeyValue ops data kv = Some r"
  unfolding unmarshalKeyValue_def
  by (rule field_loop_returns) (auto simp: keyvalue_field_def intro: submessage_returns unmarshalMapEntry_returns)

lemma unmarshalLabel_returns: "\<exists>r. unmarshalLabel ops data = Some r"
  unfolding unmarshalLabel_def by (rule field_loop_returns) (simp add: label_field_def)

lemma metric_field_returns: "\<exists>r. metric_field ops fc mp = Some r"
  unfolding metric_field_def by (auto intro: submessage_returns unmarshalKeyValue_returns unmarshalLabel_returns)

subsection \<open>Round trips\<close>

lemma field_loop_Nil [simp]: "field_loop ops msg step [] st = Some (Inr st)"
  by (subst field_loop.simps) simp

lemma value_loop_Nil [simp]: "value_loop ops [] v = Some (Inr v)"
  by (subst value_loop.simps) simp

lemma field_loop_Cons:
  assumes "pfield_ok f" and "\<And>x. ep_FieldNum ops x = pfield_num f \<Longrightarrow> carries ops x f \<Longrightarrow> step x st = Some r"
  shows "field_loop ops msg step (ep_Marshal ops (f # fs)) st =
    (case r of Inl e \<Rightarrow> Some (Inl e) | Inr st' \<Rightarrow> field_loop ops msg step (ep_Marshal ops fs) st')"
proof -
  obtain x where x: "ep_Next ops (ep_Marshal ops (f # fs)) = Inr (x, ep_Marshal ops fs)" "ep_FieldNum ops x = pfield_num f" "carries ops x f"
    using next_marshal [OF assms(1)] by blast
  with marshal_Cons [of f fs] assms(2) [OF x(2,3)] show ?thesis by (subst field_loop.simps) (simp split: sum.splits)
qed

lemma value_loop_Cons:
  assumes "pfield_ok f"
  obtains x where "ep_FieldNum ops x = pfield_num f" and "carries ops x f"
    and "\<And>v. pfield_num f \<noteq> 5 \<Longrightarrow> value_loop ops (ep_Marshal ops (f # fs)) v =
      (case value_field ops x v of Inl e \<Rightarrow> Some (Inl e) | Inr v' \<Rightarrow> value_loop ops (ep_Marshal ops fs) v')"
    and "\<And>v ms item. f = PMessage 5 ms \<Longrightarrow> value_loop ops (ep_Marshal ops ms) Value_zero = Some (Inr item) \<Longrightarrow>
      value_loop ops (ep_Marshal ops (f # fs)) v = value_loop ops (ep_Marshal ops fs) (append_item v item)"
proof -
  obtain x where x: "ep_Next ops (ep_Marshal ops (f # fs)) = Inr (x, ep_Marshal ops fs)" "ep_FieldNum ops x = pfield_num f" "carries ops x f"
    using next_marshal [OF assms] by blast
  show thesis
    by (rule that [OF x(2,3)]) (use x marshal_Cons [of f fs] in \<open>subst value_loop.simps, simp\<close>)+
qed

lemma list_items:
  assumes "\<And>v. v \<in> set l \<Longrightarrow> value_loop ops (ep_Marshal ops (marshalValue v)) Value_zero = Some (Inr (norm_value v))"
  shows "value_loop ops (ep_Marshal ops (map (\<lambda>item. PMessage 5 (marshalValue item)) l)) (Value t i f s acc) =
    Some (Inr (Value t i f s (acc @ map norm_value l)))"
  using assms
proof (induction l arbitrary: acc)
  case Nil
  then show ?case by (simp add: marshal_Nil)
next
  case (Cons v l)
  have "pfield_ok (PMessage 5 (marshalValue v))" by simp
  then show ?case
    by (rule value_loop_Cons [where fs = "map (\<lambda>item. PMessage 5 (marshalValue item)) l"])
      (simp add: Cons)
qed

lemma value_scalars:
  "int32 n \<Longrightarrow> value_loop ops (ep_Marshal ops (PInt32 1 n # fs)) (Value t i f s l) = value_loop ops (ep_Marshal ops fs) (Value n i f s l)"
  "int64 n \<Longrightarrow> value_loop ops (ep_Marshal ops (PInt64 2 n # fs)) (Value t i f s l) = value_loop ops (ep_Marshal ops fs) (Value t (Some n) f s l)"
  "value_loop ops (ep_Marshal ops (PDouble 3 x # fs)) (Value t i f s l) = value_loop ops (ep_Marshal ops fs) (Value t i (Some x) s l)"
  "value_loop ops (ep_Marshal ops (PString 4 y # fs)) (Value t i f s l) = value_loop ops (ep_Marshal ops fs) (Value t i f (Some y) l)"
proof -
  show "value_loop ops (ep_Marshal ops (PInt32 1 n # fs)) (Value t i f s l) = value_loop ops (ep_Marshal ops fs) (Value n i f s l)" if "int32 n"
    by (rule value_loop_Cons [of "PInt32 1 n" fs]) (use that in \<open>simp_all add: scalar_def del: One_nat_def\<close>)
  show "value_loop ops (ep_Marshal ops (PInt64 2 n # fs)) (Value t i f s l) = value_loop ops (ep_Marshal ops fs) (Value t (Some n) f s l)"
    if "int64 n"
    by (rule value_loop_Cons [of "PInt64 2 n" fs]) (use that in \<open>simp_all add: scalar_def\<close>)
  show "value_loop ops (ep_Marshal ops (PDouble 3 x # fs)) (Value t i f s l) = value_loop ops (ep_Marshal ops fs) (Value t i (Some x) s l)"
    by (rule value_loop_Cons [of "PDouble 3 x" fs]) (simp_all add: scalar_def)
  show "value_loop ops (ep_Marshal ops (PString 4 y # fs)) (Value t i f s l) = value_loop ops (ep_Marshal ops fs) (Value t i f (Some y) l)"
    by (rule value_loop_Cons [of "PString 4 y" fs]) (simp_all add: scalar_def)
qed

lemma unmarshal_marshalValue:
  "value_ok v \<Longrightarrow> value_loop ops (ep_Marshal ops (marshalValue v)) Value_zero = Some (Inr (norm_value v))"
proof (induction v)
  case (Value t i f s l)
  have "value_loop ops (ep_Marshal ops (map (\<lambda>item. PMessage 5 (marshalValue item)) l)) (Value t None None None []) =
      Some (Inr (Value t None None None (map norm_value l)))"
    using list_items [where acc = "[]", of l t] Value by (auto simp: list_all_iff)
  with Value.prems show ?case
    by (auto simp add: Value_zero_def value_types value_scalars marshal_Nil simp del: One_nat_def split: option.splits)
qed

lemma unmarshal_label: "unmarshalLabel ops (ep_Marshal ops [PString 1 n, PString 2 v]) = Some (Inr \<lparr>lb_Name = n, lb_Value = v\<rparr>)"
proof -
  have "field_loop ops msg (label_field ops) (ep_Marshal ops [PString 1 n, PString 2 v]) \<lparr>lb_Name = [], lb_Value = []\<rparr> =
      field_loop ops msg (label_field ops) (ep_Marshal ops [PString 2 v]) \<lparr>lb_Name = n, lb_Value = []\<rparr>" for msg
    by (subst field_loop_Cons [where r = "Inr \<lparr>lb_Name = n, lb_Value = []\<rparr>"]) (simp_all add: label_field_def scalar_def)
  moreover have "field_loop ops msg (label_field ops) (ep_Marshal ops [PString 2 v]) \<lparr>lb_Name = n, lb_Value = []\<rparr> =
      Some (Inr \<lparr>lb_Name = n, lb_Value = v\<rparr>)" for msg
    by (subst field_loop_Cons [where r = "Inr \<lparr>lb_Name = n, lb_Value = v\<rparr>"]) (simp_all add: label_field_def scalar_def marshal_Nil)
  ultimately show ?thesis by (simp add: unmarshalLabel_def del: One_nat_def)
qed

lemma unmarshal_entry:
  assumes "value_ok v"
  shows "unmarshalMapEntry ops (ep_Marshal ops [PString 1 k, PMessage 2 (marshalValue v)]) =
    Some (if k = [] then Inl (Errorf ''missing map key'') else Inr (k, norm_value v))"
proof -
  have "field_loop ops msg (entry_field ops) (ep_Marshal ops [PString 1 k, PMessage 2 (marshalValue v)]) ([], None) =
      field_loop ops msg (entry_field ops) (ep_Marshal ops [PMessage 2 (marshalValue v)]) (k, None)" for msg
    by (subst field_loop_Cons [where r = "Inr (k, None)"]) (simp_all add: entry_field_def scalar_def)
  moreover have "field_loop ops msg (entry_field ops) (ep_Marshal ops [PMessage 2 (marshalValue v)]) (k, None) =
      Some (Inr (k, Some (norm_value v)))" for msg
    by (subst field_loop_Cons [where r = "Inr (k, Some (norm_value v))"])
      (simp_all add: entry_field_def submessage_def unmarshalValue_def unmarshal_marshalValue [OF assms] marshal_Nil)
  ultimately show ?thesis by (simp add: unmarshalMapEntry_def del: One_nat_def)
qed

lemma unmarshal_items:
  assumes "\<And>k v. (k, v) \<in> set kvs \<Longrightarrow> value_ok v"
  shows "unmarshalKeyValue ops (ep_Marshal ops (map item_fields kvs)) kv =
    Some (if [] \<in> fst ` set kvs then Inl missing_key
          else Inr (kv\<lparr>kv_Items := fold (\<lambda>(k, v). fmupd k (norm_value v)) kvs (kv_Items kv)\<rparr>))"
  using assms
proof (induction kvs arbitrary: kv)
  case Nil
  then show ?case by (simp add: unmarshalKeyValue_def marshal_Nil)
next
  case (Cons p kvs)
  obtain k v where p: "p = (k, v)" by fastforce
  have v: "value_ok v" using Cons.prems [of k v] p by simp
  have ok: "pfield_ok (item_fields p)" by (simp add: item_fields_def)
  have IH: "unmarshalKeyValue ops (ep_Marshal ops (map item_fields kvs)) kv' =
    Some (if [] \<in> fst ` set kvs then Inl missing_key
          else Inr (kv'\<lparr>kv_Items := fold (\<lambda>(k, v). fmupd k (norm_value v)) kvs (kv_Items kv')\<rparr>))" for kv'
    by (rule Cons.IH) (use Cons.prems in auto)
  let ?r = "if k = [] then Inl missing_key else Inr (kv\<lparr>kv_Items := fmupd k (norm_value v) (kv_Items kv)\<rparr>)"
  have step: "keyvalue_field ops x kv = Some ?r" if "ep_FieldNum ops x = pfield_num (item_fields p)" "carries ops x (item_fields p)" for x
    using that unmarshal_entry [OF v, of k]
    by (simp add: keyvalue_field_def item_fields_def p submessage_def missing_key_def del: One_nat_def)
  have "unmarshalKeyValue ops (ep_Marshal ops (map item_fields (p # kvs))) kv =
      (case ?r of Inl e \<Rightarrow> Some (Inl e) | Inr kv' \<Rightarrow> unmarshalKeyValue ops (ep_Marshal ops (map item_fields kvs)) kv')"
    unfolding unmarshalKeyValue_def list.map by (rule field_loop_Cons [where r = ?r and step = "keyvalue_field ops" and st = kv, OF ok step])
  then show ?case by (simp add: IH p)
qed

text \<open>The point after its first three fields and its labels.\<close>

lemma metric_scalars:
  assumes "int64 (mp_Timestamp mp)"
  shows "unmarshalMetricPoint ops (ep_Marshal ops ([PInt64 1 (mp_Timestamp mp), PDouble 2 (mp_Value mp), PBool 3 (mp_IsNull mp)] @ fs)) =
    field_loop ops ''failed to get next field'' (metric_field ops) (ep_Marshal ops fs)
      \<lparr>mp_Timestamp = mp_Timestamp mp, mp_Value = mp_Value mp, mp_IsNull = mp_IsNull mp, mp_Labels = [],
       mp_Properties = Some \<lparr>kv_Items = fmempty\<rparr>\<rparr>"
proof -
  have 1: "field_loop ops msg (metric_field ops) (ep_Marshal ops (PInt64 1 n # fs)) m =
      field_loop ops msg (metric_field ops) (ep_Marshal ops fs) (m\<lparr>mp_Timestamp := n\<rparr>)" if "int64 n" for msg n fs m
    by (subst field_loop_Cons [where r = "Inr (m\<lparr>mp_Timestamp := n\<rparr>)"]) (use that in \<open>simp_all add: metric_field_def scalar_def\<close>)
  have 2: "field_loop ops msg (metric_field ops) (ep_Marshal ops (PDouble 2 x # fs)) m =
      field_loop ops msg (metric_field ops) (ep_Marshal ops fs) (m\<lparr>mp_Value := x\<rparr>)" for msg x fs m
    by (subst field_loop_Cons [where r = "Inr (m\<lparr>mp_Value := x\<rparr>)"]) (simp_all add: metric_field_def scalar_def)
  have 3: "field_loop ops msg (metric_field ops) (ep_Marshal ops (PBool 3 b # fs)) m =
      field_loop ops msg (metric_field ops) (ep_Marshal ops fs) (m\<lparr>mp_IsNull := b\<rparr>)" for msg b fs m
    by (subst field_loop_Cons [where r = "Inr (m\<lparr>mp_IsNull := b\<rparr>)"]) (simp_all add: metric_field_def scalar_def)
  show ?thesis using assms by (simp add: unmarshalMetricPoint_def metric_zero_def 1 2 3 del: One_nat_def)
qed

lemma metric_labels:
  "field_loop ops msg (metric_field ops) (ep_Marshal ops (map label_fields ls @ fs)) mp =
     field_loop ops msg (metric_field ops) (ep_Marshal ops fs) (mp\<lparr>mp_Labels := mp_Labels mp @ ls\<rparr>)"
proof (induction ls arbitrary: mp)
  case (Cons l ls)
  have "field_loop ops msg (metric_field ops) (ep_Marshal ops (label_fields l # map label_fields ls @ fs)) mp =
      field_loop ops msg (metric_field ops) (ep_Marshal ops (map label_fields ls @ fs)) (mp\<lparr>mp_Labels := mp_Labels mp @ [l]\<rparr>)"
    by (subst field_loop_Cons [where r = "Inr (mp\<lparr>mp_Labels := mp_Labels mp @ [l]\<rparr>)"])
      (simp_all add: metric_field_def label_fields_def submessage_def unmarshal_label del: One_nat_def)
  with Cons show ?case by simp
qed simp

lemma metric_roundtrip:
  assumes "metric_ok mp" and "\<And>kv. mp_Properties mp = Some kv \<Longrightarrow> range_order ord (kv_Items kv)"
  shows "unmarshalMetricPoint ops (marshalMetricPoint ops ord mp) =
    Some (if (case mp_Properties mp of None \<Rightarrow> False | Some kv \<Rightarrow> [] \<in> fmdom' (kv_Items kv))
          then Inl (Errorf (''failed to unmarshal properties: '' @ error_text missing_key)) else Inr (norm_metric mp))"
proof -
  let ?m = "\<lparr>mp_Timestamp = mp_Timestamp mp, mp_Value = mp_Value mp, mp_IsNull = mp_IsNull mp, mp_Labels = mp_Labels mp,
       mp_Properties = Some \<lparr>kv_Items = fmempty\<rparr>\<rparr>"
  let ?props = "case mp_Properties mp of None \<Rightarrow> [] | Some kv \<Rightarrow> [PMessage 5 (map item_fields (range_entries ord (kv_Items kv)))]"
  have start: "unmarshalMetricPoint ops (marshalMetricPoint ops ord mp) =
      field_loop ops ''failed to get next field'' (metric_field ops) (ep_Marshal ops ?props) ?m"
    using assms(1) metric_scalars [of mp "map label_fields (mp_Labels mp) @ ?props"]
    by (simp add: marshalMetricPoint_def metric_fields_def metric_ok_def metric_labels del: One_nat_def)
  show ?thesis
  proof (cases "mp_Properties mp")
    case None
    with start show ?thesis by (cases mp) (simp add: marshal_Nil norm_metric_def)
  next
    case (Some kv)
    let ?es = "range_entries ord (kv_Items kv)"
    let ?bad = "[] \<in> fmdom' (kv_Items kv)"
    note ord = assms(2) [OF Some]
    have "value_ok v" if "(k, v) \<in> set ?es" for k v
      using that assms(1) Some by (auto simp: metric_ok_def in_range_entries intro: fmran'I)
    moreover have "[] \<in> fst ` set ?es \<longleftrightarrow> ?bad" using range_order_entries [OF ord] by (force simp: fmlookup_dom'_iff)
    ultimately have items: "unmarshalKeyValue ops (ep_Marshal ops (map item_fields ?es)) \<lparr>kv_Items = fmempty\<rparr> =
        Some (if ?bad then Inl missing_key else Inr \<lparr>kv_Items = fmmap norm_value (kv_Items kv)\<rparr>)"
      using unmarshal_items [of ?es "\<lparr>kv_Items = fmempty\<rparr>"] by (simp add: fold_range_entries [OF ord])
    let ?r = "if ?bad then Inl (Errorf (''failed to unmarshal properties: '' @ error_text missing_key)) else Inr (norm_metric mp)"
    have "metric_field ops x ?m = Some ?r"
      if "ep_FieldNum ops x = pfield_num (PMessage 5 (map item_fields ?es))" "carries ops x (PMessage 5 (map item_fields ?es))" for x
      using that items Some by (cases mp) (auto simp: metric_field_def submessage_def norm_metric_def)
    then have "field_loop ops msg (metric_field ops) (ep_Marshal ops [PMessage 5 (map item_fields ?es)]) ?m = Some ?r" for msg
      by (subst field_loop_Cons [where r = ?r]) (simp_all add: marshal_Nil)
    with start Some show ?thesis by simp
  qed
qed

end

section \<open>The codec's properties\<close>

text \<open>Whatever bytes arrive, decoding a metric point returns, with a point or an error, as long as
  taking a field off a slice leaves a shorter slice.\<close>

lemma metric_decoding_returns:
  assumes "wire_format ops"
  shows "\<exists>r. unmarshalMetricPoint ops data = Some r"
  unfolding unmarshalMetricPoint_def
  by (rule wire_format.field_loop_returns [OF assms]) (rule wire_format.metric_field_returns [OF assms])

lemma metric_decoding_returns_example: "\<exists>r. unmarshalMetricPoint protobuf [CHR 0x0A, CHR 0xFF] = Some r"
  by (rule metric_decoding_returns [OF protobuf.wire_format_axioms])

text \<open>C34: what the client encodes the server decodes to the same point, with each value reduced to the
  member its type names and missing properties read as empty ones, in whatever order the map is
  visited; a property with an empty name makes the server refuse the whole point.\<close>

theorem metric_codec_roundtrip:
  assumes "wire_format ops" and "metric_ok mp" and "\<And>kv. mp_Properties mp = Some kv \<Longrightarrow> range_order ord (kv_Items kv)"
  shows "unmarshalMetricPoint ops (marshalMetricPoint ops ord mp) =
    Some (if (case mp_Properties mp of None \<Rightarrow> False | Some kv \<Rightarrow> [] \<in> fmdom' (kv_Items kv))
          then Inl (Errorf ''failed to unmarshal properties: failed to unmarshal map entry: missing map key'')
          else Inr (norm_metric mp))"
  using wire_format.metric_roundtrip [OF assms] by (simp add: missing_key_def)

definition sample_metric :: "64 word MetricPoint" where
  "sample_metric =
     \<lparr>mp_Timestamp = - 5, mp_Value = 7, mp_IsNull = False, mp_Labels = [\<lparr>lb_Name = ''host'', lb_Value = ''a''\<rparr>],
      mp_Properties = Some \<lparr>kv_Items = fmupd ''count'' (Value ValueType_INT (Some 3) (Some 1) None []) fmempty\<rparr>\<rparr>"

lemma sample_metric_ok:
  "metric_ok sample_metric" "mp_Properties sample_metric = Some kv \<Longrightarrow> range_order [''count''] (kv_Items kv)"
  by (auto simp: sample_metric_def metric_ok_def value_types int32_def range_order_def fmlookup_ran'_iff split: if_splits)

theorem metric_codec_roundtrip_witness:
  "unmarshalMetricPoint protobuf (marshalMetricPoint protobuf [''count''] sample_metric) =
     Some (Inr (sample_metric\<lparr>mp_Properties := Some \<lparr>kv_Items = fmupd ''count'' (Value ValueType_INT (Some 3) None None []) fmempty\<rparr>\<rparr>))"
  using metric_codec_roundtrip [OF protobuf.wire_format_axioms sample_metric_ok]
  by (simp add: sample_metric_def norm_metric_def value_types fmmap_fmupd1)

end
