(* ===== verification/Metrics_Stream.thy ===== *)
theory Metrics_Stream
  imports Metrics_Codec
begin

text \<open>
  The archived metrics programs over a bidirectional stream: the server's \<open>ProcessMetrics\<close>
  (\<open>ARCHIVE/Jul252026/internal/server\<close>) and the client that generates points and sends them in batches
  (\<open>internal/client\<close>). Logging, the listeners and the pools of marshalers are left out.

  Every turn of the server's loop starts a goroutine that calls \<open>RecvMsg\<close> and waits for it at most
  five seconds; on a timeout the goroutine is left behind, still receiving, and the next turn starts
  another one. The stream is a step relation whose state counts the goroutines left behind. gRPC says what \<open>RecvMsg\<close> returns
  when it is the only call in progress on a stream, the next message; it does not allow a second one at the same time. What a call returns
  then, and what it leaves of the messages, is a relation \<open>race\<close> that the model takes as an argument.
\<close>

section \<open>Answering a message\<close>

text \<open>Logging a property dereferences the member its type names.\<close>

definition nil_member :: "'d Value \<Rightarrow> bool" where
  "nil_member v \<longleftrightarrow>
     (if vl_Type v = ValueType_INT then vl_IntVal v = None
      else if vl_Type v = ValueType_FLOAT then vl_FloatVal v = None
      else if vl_Type v = ValueType_STRING then vl_StringVal v = None
      else False)"

definition logging_panics :: "'d MetricPoint \<Rightarrow> bool" where
  "logging_panics mp \<longleftrightarrow> (case mp_Properties mp of None \<Rightarrow> False | Some kv \<Rightarrow> fBex (fmran (kv_Items kv)) nil_member)"

definition error_response :: "goerror \<Rightarrow> 'd pfield list" where
  "error_response e = [PBool 1 False, PString 2 (error_text e)]"

definition success_response :: "'d pfield list" where
  "success_response = [PBool 1 True, PString 2 ''Processed successfully'']"

datatype 'd handled = Refuse "'d pfield list" | Accept "'d pfield list" | Panic

definition handle_message :: "('f, 'd :: zero) easyproto \<Rightarrow> string \<Rightarrow> 'd handled option" where
  "handle_message ops data =
     (case unmarshalMetricPoint ops data of
        None \<Rightarrow> None
      | Some (Inl e) \<Rightarrow> Some (Refuse (error_response e))
      | Some (Inr metric) \<Rightarrow> Some (if logging_panics metric then Panic else Accept success_response))"

section \<open>The stream\<close>

datatype phase = AtHead | Waiting | Returned "goerror option" | Panicked

text \<open>What \<open>RecvMsg\<close> still has to give, the goroutines left behind and how many reads timed out, where
  the loop is, what the loop received and sent, and what goroutines left behind took.\<close>

record 'd metrics_stream =
  ms_Queue :: "string result list"
  ms_Stale :: nat
  ms_Timeouts :: nat
  ms_Phase :: phase
  ms_Taken :: "string result list"
  ms_Sent :: "'d pfield list list"
  ms_Lost :: "string result list"

definition new_stream :: "string result list \<Rightarrow> 'd metrics_stream" where
  "new_stream q = \<lparr>ms_Queue = q, ms_Stale = 0, ms_Timeouts = 0, ms_Phase = AtHead, ms_Taken = [], ms_Sent = [], ms_Lost = []\<rparr>"

fun is_EOF :: "goerror \<Rightarrow> bool" where
  "is_EOF (Extern k s) \<longleftrightarrow> k = IOEOF"
| "is_EOF e \<longleftrightarrow> False"

text \<open>The loop takes \<open>x\<close>; \<open>serr\<close> is what \<open>SendMsg\<close> answers, \<open>canceled\<close> whether an error has the status
  \<open>Canceled\<close>.\<close>

definition receive ::
  "('f, 'd :: zero) easyproto \<Rightarrow> (goerror \<Rightarrow> bool) \<Rightarrow> goerror option \<Rightarrow> string result \<Rightarrow> 'd metrics_stream \<Rightarrow> 'd metrics_stream option" where
  "receive ops canceled serr x st =
     (let st1 = st\<lparr>ms_Taken := ms_Taken st @ [x]\<rparr> in
      case x of
        Inl e \<Rightarrow> Some (st1\<lparr>ms_Phase := Returned (if is_EOF e \<or> canceled e then None else Some e)\<rparr>)
      | Inr data \<Rightarrow>
          (case handle_message ops data of
             None \<Rightarrow> None
           | Some Panic \<Rightarrow> Some (st1\<lparr>ms_Phase := Panicked\<rparr>)
           | Some (Refuse resp) \<Rightarrow>
               Some (case serr of
                       None \<Rightarrow> st1\<lparr>ms_Phase := AtHead, ms_Sent := ms_Sent st @ [resp]\<rparr>
                     | Some e \<Rightarrow> st1\<lparr>ms_Phase := Returned (Some e)\<rparr>)
           | Some (Accept resp) \<Rightarrow>
               Some (case serr of
                       None \<Rightarrow> st1\<lparr>ms_Phase := AtHead, ms_Sent := ms_Sent st @ [resp]\<rparr>
                     | Some e \<Rightarrow> st1\<lparr>ms_Phase := Returned (if canceled e then None else Some e)\<rparr>)))"

text \<open>The calls of \<open>RecvMsg\<close> in progress, and what one of them returns.\<close>

definition in_flight :: "'d metrics_stream \<Rightarrow> nat" where
  "in_flight st = ms_Stale st + (if ms_Phase st = Waiting then 1 else 0)"

definition delivers ::
  "(string result list \<Rightarrow> string result \<Rightarrow> string result list \<Rightarrow> bool) \<Rightarrow> 'd metrics_stream \<Rightarrow> string result \<Rightarrow> string result list \<Rightarrow> bool" where
  "delivers race st x q \<longleftrightarrow> (if in_flight st = 1 then ms_Queue st = x # q else race (ms_Queue st) x q)"

inductive metrics_step ::
  "('f, 'd :: zero) easyproto \<Rightarrow> (goerror \<Rightarrow> bool) \<Rightarrow> (string result list \<Rightarrow> string result \<Rightarrow> string result list \<Rightarrow> bool) \<Rightarrow>
   'd metrics_stream \<Rightarrow> 'd metrics_stream \<Rightarrow> bool" for ops canceled race where
  gone: "ms_Phase st = AtHead \<Longrightarrow> metrics_step ops canceled race st (st\<lparr>ms_Phase := Returned None\<rparr>)"
| read: "ms_Phase st = AtHead \<Longrightarrow> metrics_step ops canceled race st (st\<lparr>ms_Phase := Waiting\<rparr>)"
| recv: "ms_Phase st = Waiting \<Longrightarrow> delivers race st x q \<Longrightarrow> receive ops canceled serr x (st\<lparr>ms_Queue := q\<rparr>) = Some st' \<Longrightarrow>
    metrics_step ops canceled race st st'"
| stale: "ms_Phase st \<in> {AtHead, Waiting} \<Longrightarrow> ms_Stale st = Suc n \<Longrightarrow> delivers race st x q \<Longrightarrow>
    metrics_step ops canceled race st (st\<lparr>ms_Queue := q, ms_Stale := n, ms_Lost := ms_Lost st @ [x]\<rparr>)"
| timeout: "ms_Phase st = Waiting \<Longrightarrow>
    metrics_step ops canceled race st (st\<lparr>ms_Phase := AtHead, ms_Stale := Suc (ms_Stale st), ms_Timeouts := Suc (ms_Timeouts st)\<rparr>)"
| cancel: "ms_Phase st = Waiting \<Longrightarrow> metrics_step ops canceled race st (st\<lparr>ms_Phase := Returned None\<rparr>)"

inductive_cases metrics_stepE: "metrics_step ops canceled race st st'"

section \<open>The client\<close>

text \<open>The random draws of one point; the floating-point values drawn are given.\<close>

record 'd draws =
  dw_Int :: int                  \<comment> \<open>\<open>rand.Int63n(1000)\<close>\<close>
  dw_Float :: 'd                 \<comment> \<open>\<open>rand.Float64() * 100\<close>\<close>
  dw_Str :: nat
  dw_Complex :: bool
  dw_Now :: int
  dw_Value :: 'd
  dw_Null :: bool
  dw_Host :: nat
  dw_Env :: nat
  dw_Extra :: "bool list"        \<comment> \<open>one per extra label\<close>

definition strVals :: "string list" where "strVals = [''test'', ''prod'', ''dev'', ''staging'']"
definition envs :: "string list" where "envs = [''prod'', ''staging'', ''dev'', ''test'']"
definition hosts :: "string list" where "hosts = [''server1'', ''server2'', ''server3'', ''server4'', ''server5'']"

definition extraLabels :: "Label list" where
  "extraLabels =
     [\<lparr>lb_Name = ''region'', lb_Value = ''us-west''\<rparr>, \<lparr>lb_Name = ''datacenter'', lb_Value = ''dc1''\<rparr>,
      \<lparr>lb_Name = ''service'', lb_Value = ''api''\<rparr>, \<lparr>lb_Name = ''version'', lb_Value = ''v1.2.3''\<rparr>]"

definition generateRandomMetric :: "'d draws \<Rightarrow> 'd MetricPoint" where
  "generateRandomMetric d =
     (let labels = [\<lparr>lb_Name = ''host'', lb_Value = hosts ! dw_Host d\<rparr>, \<lparr>lb_Name = ''env'', lb_Value = envs ! dw_Env d\<rparr>];
          items = fmupd ''count'' (Value ValueType_INT (Some (dw_Int d)) None None []) fmempty;
          metric = \<lparr>mp_Timestamp = dw_Now d, mp_Value = dw_Value d, mp_IsNull = dw_Null d, mp_Labels = labels,
                    mp_Properties = Some \<lparr>kv_Items = items\<rparr>\<rparr>
      in if dw_Complex d
         then metric\<lparr>mp_Labels := labels @ map fst (filter snd (zip extraLabels (dw_Extra d))),
                mp_Properties := Some \<lparr>kv_Items =
                  fmupd ''tags'' (Value ValueType_LIST None None None [Value ValueType_STRING None None (Some (strVals ! dw_Str d)) []])
                    (fmupd ''ratio'' (Value ValueType_FLOAT None (Some (dw_Float d)) None []) items)\<rparr>\<rparr>
         else metric)"

text \<open>\<open>i\<close> counts the points; \<open>sends i\<close> and \<open>recvs i\<close> are what the stream answers for a point, \<open>ord i\<close>
  the order in which its properties are visited. The result is what was sent and what was received.\<close>

fun sendMetricsBatch ::
  "('f, 'd) easyproto \<Rightarrow> (nat \<Rightarrow> string list) \<Rightarrow> (nat \<Rightarrow> goerror option) \<Rightarrow> (nat \<Rightarrow> string result) \<Rightarrow> nat \<Rightarrow> 'd MetricPoint list \<Rightarrow>
   string list \<times> string list" where
  "sendMetricsBatch ops ord sends recvs i [] = ([], [])"
| "sendMetricsBatch ops ord sends recvs i (metric # metrics) =
     (let data = marshalMetricPoint ops (ord i) metric in
      case sends i of
        Some e \<Rightarrow> (if is_EOF e then ([], []) else sendMetricsBatch ops ord sends recvs (Suc i) metrics)
      | None \<Rightarrow>
          (case recvs i of
             Inl e \<Rightarrow>
               (if is_EOF e then ([data], [])
                else map_prod (Cons data) id (sendMetricsBatch ops ord sends recvs (Suc i) metrics))
           | Inr resp \<Rightarrow> map_prod (Cons data) (Cons resp) (sendMetricsBatch ops ord sends recvs (Suc i) metrics)))"

text \<open>The batches that \<open>main\<close> starts, each \<open>metrics[i:end]\<close> of at most \<open>batchSize\<close> points.\<close>

definition batchSize :: nat where "batchSize = 5"

function batch_bounds :: "nat \<Rightarrow> nat \<Rightarrow> (nat \<times> nat) list" where
  "batch_bounds i n =
     (if i < n then (i, if i + batchSize > n then n else i + batchSize) # batch_bounds (i + batchSize) n else [])"
  by pat_completeness auto
termination by (relation "measure (\<lambda>(i, n). n - i)") (auto simp: batchSize_def)

declare batch_bounds.simps [simp del]

definition metrics_slice :: "'a list \<Rightarrow> nat \<times> nat \<Rightarrow> 'a list" where
  "metrics_slice xs b = drop (fst b) (take (snd b) xs)"

definition client_batches :: "'a list \<Rightarrow> 'a list list" where
  "client_batches metrics = map (metrics_slice metrics) (batch_bounds 0 (length metrics))"

section \<open>What is answered and what is lost\<close>







lemma empty_queue_silent:
  assumes "(metrics_step ops canceled race)\<^sup>*\<^sup>* st st'" and "ms_Queue st = []" and "\<And>x q. \<not> race [] x q"
  shows "ms_Queue st' = [] \<and> ms_Sent st' = ms_Sent st"
  using assms(1,2)
proof (induction rule: rtranclp_induct)
  case (step y z)
  then have "\<not> delivers race y x q" for x q using assms(3) by (simp add: delivers_def)
  with step show ?case by (auto elim!: metrics_stepE)
qed simp

text \<open>C37: a message that arrives after a read has timed out can be taken by the goroutine left behind, even before another call of \<open>RecvMsg\<close> is
  in progress: the server then waits for the next message and never answers, as long as no \<open>RecvMsg\<close> returns
  something that did not arrive, so a client that waits for the answer waits for ever.\<close>

theorem late_message_lost:
  fixes ops :: "('f, 'd :: zero) easyproto"
  assumes "\<And>x q. \<not> race [] x q"
  shows "\<exists>st. (metrics_step ops canceled race)\<^sup>*\<^sup>* (new_stream [Inr data]) st \<and> ms_Phase st = Waiting \<and> ms_Lost st = [Inr data] \<and> ms_Sent st = [] \<and>
     (\<forall>st'. (metrics_step ops canceled race)\<^sup>*\<^sup>* st st' \<longrightarrow> ms_Sent st' = [])"
proof -
  let ?s0 = "new_stream [Inr data] :: 'd metrics_stream"
  let ?s1 = "?s0\<lparr>ms_Phase := Waiting\<rparr>"
  let ?s2 = "?s1\<lparr>ms_Phase := AtHead, ms_Stale := Suc 0, ms_Timeouts := Suc 0\<rparr>"
  let ?s3 = "?s2\<lparr>ms_Queue := [], ms_Stale := 0, ms_Lost := [Inr data]\<rparr>"
  let ?s4 = "?s3\<lparr>ms_Phase := Waiting\<rparr>"
  have "metrics_step ops canceled race ?s0 ?s1" by (rule metrics_step.read) (simp add: new_stream_def)
  moreover have "metrics_step ops canceled race ?s1 ?s2" using metrics_step.timeout [of ?s1 ops canceled race] by (simp add: new_stream_def)
  moreover have "metrics_step ops canceled race ?s2 ?s3"
    using metrics_step.stale [of ?s2 0 race "Inr data" "[]" ops canceled] by (simp add: new_stream_def delivers_def in_flight_def)
  moreover have "metrics_step ops canceled race ?s3 ?s4" by (rule metrics_step.read) simp
  ultimately have "(metrics_step ops canceled race)\<^sup>*\<^sup>* ?s0 ?s4" by (meson converse_rtranclp_into_rtranclp rtranclp.rtrancl_refl)
  then show ?thesis
    using empty_queue_silent [of ops canceled race ?s4, OF _ _ assms] by (intro exI [of _ ?s4]) (simp add: new_stream_def)
qed

section \<open>What the server makes of the client's messages\<close>

lemma nil_member_norm [simp]: "nil_member (norm_value v) \<longleftrightarrow> nil_member v"
  by (cases v) (simp add: nil_member_def)

lemma fBex_fmran: "fBex (fmran m) P \<longleftrightarrow> (\<exists>k v. fmlookup m k = Some v \<and> P v)"
  by (blast elim: fmranE intro: fmranI)

lemma logging_panics_norm: "logging_panics (norm_metric mp) \<longleftrightarrow> logging_panics mp"
  by (cases "mp_Properties mp") (auto simp: logging_panics_def norm_metric_def fBex_fmran)

text \<open>C36: a message the client encodes is refused when a property has an empty name; it makes the server
  panic when a property is of type \<open>INT\<close>, \<open>FLOAT\<close> or \<open>STRING\<close> without the value of that type; it is accepted otherwise.\<close>

theorem encoded_point_handled:
  assumes "wire_format ops" and "metric_ok mp" and "\<And>kv. mp_Properties mp = Some kv \<Longrightarrow> range_order ord (kv_Items kv)"
  shows "handle_message ops (marshalMetricPoint ops ord mp) =
    Some (if (case mp_Properties mp of None \<Rightarrow> False | Some kv \<Rightarrow> [] \<in> fmdom' (kv_Items kv))
          then Refuse (error_response (Errorf ''failed to unmarshal properties: failed to unmarshal map entry: missing map key''))
          else if (\<exists>kv k v. mp_Properties mp = Some kv \<and> fmlookup (kv_Items kv) k = Some v \<and>
              (vl_Type v = 1 \<and> vl_IntVal v = None \<or> vl_Type v = 2 \<and> vl_FloatVal v = None \<or> vl_Type v = 3 \<and> vl_StringVal v = None)) then Panic
          else Accept success_response)"
proof -
  have "nil_member v \<longleftrightarrow> vl_Type v = 1 \<and> vl_IntVal v = None \<or> vl_Type v = 2 \<and> vl_FloatVal v = None \<or> vl_Type v = 3 \<and> vl_StringVal v = None" for v :: "'b Value"
    by (auto simp: nil_member_def value_types)
  then have "logging_panics mp \<longleftrightarrow> (\<exists>kv k v. mp_Properties mp = Some kv \<and> fmlookup (kv_Items kv) k = Some v \<and>
      (vl_Type v = 1 \<and> vl_IntVal v = None \<or> vl_Type v = 2 \<and> vl_FloatVal v = None \<or> vl_Type v = 3 \<and> vl_StringVal v = None))"
    by (cases "mp_Properties mp") (simp_all add: logging_panics_def fBex_fmran)
  then show ?thesis
    using wire_format.metric_roundtrip [OF assms] by (simp add: handle_message_def missing_key_def logging_panics_norm)
qed


definition draws_ok :: "'d draws \<Rightarrow> bool" where
  "draws_ok d \<longleftrightarrow> 0 \<le> dw_Int d \<and> dw_Int d < 1000 \<and> int64 (dw_Now d)"

definition count_value :: "'d draws \<Rightarrow> 'd Value" where
  "count_value d = Value ValueType_INT (Some (dw_Int d)) None None []"

definition ratio_value :: "'d draws \<Rightarrow> 'd Value" where
  "ratio_value d = Value ValueType_FLOAT None (Some (dw_Float d)) None []"

definition tags_value :: "'d draws \<Rightarrow> 'd Value" where
  "tags_value d = Value ValueType_LIST None None None [Value ValueType_STRING None None (Some (strVals ! dw_Str d)) []]"

lemma generated_values:
  assumes "draws_ok d" and "v \<in> {count_value d, ratio_value d, tags_value d}"
  shows "value_ok v" "norm_value v = v" "\<not> nil_member v"
  using assms by (auto simp: count_value_def ratio_value_def tags_value_def value_types draws_ok_def int32_def nil_member_def)

definition generated_items :: "'d draws \<Rightarrow> (string, 'd Value) fmap" where
  "generated_items d =
     (if dw_Complex d then fmupd ''tags'' (tags_value d) (fmupd ''ratio'' (ratio_value d) (fmupd ''count'' (count_value d) fmempty))
      else fmupd ''count'' (count_value d) fmempty)"

lemma generated_properties: "mp_Properties (generateRandomMetric d) = Some \<lparr>kv_Items = generated_items d\<rparr>"
  by (simp add: generateRandomMetric_def Let_def generated_items_def count_value_def ratio_value_def tags_value_def)

lemma generated_lookup:
  assumes "fmlookup (generated_items d) k = Some v"
  shows "k \<noteq> []" "v \<in> {count_value d, ratio_value d, tags_value d}"
  using assms by (auto simp: generated_items_def split: if_splits)

lemma generated_norm:
  assumes "draws_ok d"
  shows "norm_metric (generateRandomMetric d) = generateRandomMetric d"
proof -
  have "fmmap norm_value (generated_items d) = generated_items d"
    by (simp add: generated_items_def generated_values [OF assms])
  then show ?thesis by (simp add: norm_metric_def generated_properties)
qed

lemma generated_ok:
  assumes "draws_ok d"
  shows "metric_ok (generateRandomMetric d)"
proof -
  have "mp_Timestamp (generateRandomMetric d) = dw_Now d" by (simp add: generateRandomMetric_def Let_def)
  then show ?thesis
    using assms generated_values(1) [OF assms generated_lookup(2)]
    by (auto simp: metric_ok_def generated_properties fmlookup_ran'_iff draws_ok_def)
qed

text \<open>Every point the client generates arrives at the server as it was generated, whatever was drawn
  and in whatever order its properties are visited, and the server accepts it.\<close>

lemma generated_point_accepted:
  assumes "wire_format ops" and "draws_ok d" and "\<And>kv. mp_Properties (generateRandomMetric d) = Some kv \<Longrightarrow> range_order ord (kv_Items kv)"
  shows "unmarshalMetricPoint ops (marshalMetricPoint ops ord (generateRandomMetric d)) = Some (Inr (generateRandomMetric d)) \<and>
    handle_message ops (marshalMetricPoint ops ord (generateRandomMetric d)) = Some (Accept success_response)"
proof -
  let ?m = "generateRandomMetric d"
  have key: "[] \<notin> fmdom' (generated_items d)" using generated_lookup(1) [of d "[]"] by (metis fmlookup_dom'_iff not_None_eq)
  have "\<not> logging_panics ?m"
    using generated_values(3) [OF assms(2) generated_lookup(2)] by (auto simp: logging_panics_def fBex_fmran generated_properties)
  then show ?thesis
    using wire_format.metric_roundtrip [OF assms(1) generated_ok [OF assms(2)] assms(3)] key
    by (simp add: generated_norm [OF assms(2)] handle_message_def generated_properties)
qed

section \<open>Batches\<close>

lemma batch_bounds_slices:
  "concat (map (metrics_slice xs) (batch_bounds i (length xs))) = drop i xs \<and>
   (\<forall>b \<in> set (map (metrics_slice xs) (batch_bounds i (length xs))). b \<noteq> [] \<and> length b \<le> batchSize)"
proof (induction i "length xs" rule: batch_bounds.induct)
  case (1 i)
  show ?case
  proof (cases "i < length xs")
    case True
    have "metrics_slice xs (i, if i + batchSize > length xs then length xs else i + batchSize) = take batchSize (drop i xs)"
      by (simp add: metrics_slice_def drop_take)
    moreover have "take batchSize (drop i xs) @ drop (i + batchSize) xs = drop i xs"
      by (metis add.commute append_take_drop_id drop_drop)
    moreover have "take batchSize (drop i xs) \<noteq> []" using True by (simp add: batchSize_def)
    ultimately show ?thesis using 1 [OF True] True by (subst (1 2) batch_bounds.simps) simp
  qed (subst (1 2) batch_bounds.simps, simp)
qed

text \<open>Unless the stream ends, a batch sends every point whose send does not fail, in order, and the
  answers received are those of the points sent.\<close>

lemma batch_sends:
  assumes "\<And>j e. sends j = Some e \<Longrightarrow> \<not> is_EOF e" and "\<And>j e. recvs j = Inl e \<Longrightarrow> \<not> is_EOF e"
  shows "sendMetricsBatch ops ord sends recvs i metrics =
    (let sent = filter (\<lambda>(j, m). sends j = None) (zip [i ..< i + length metrics] metrics)
     in (map (\<lambda>(j, m). marshalMetricPoint ops (ord j) m) sent,
         List.map_filter (\<lambda>(j, m). case recvs j of Inl e \<Rightarrow> None | Inr resp \<Rightarrow> Some resp) sent))"
proof (induction metrics arbitrary: i)
  case (Cons m ms)
  have "[i ..< i + length (m # ms)] = i # [Suc i ..< Suc i + length ms]" by (simp add: upt_rec)
  with Cons [of "Suc i"] assms show ?case
    by (auto simp: Let_def map_filter_simps split: option.splits sum.splits)
qed (simp add: map_filter_simps)

text \<open>The client's batches are the generated points, each in one batch and in order, and every batch
  has between one and five points.\<close>

lemma batches_partition:
  "concat (client_batches metrics) = metrics \<and> (\<forall>b. b \<in> set (client_batches metrics) \<longrightarrow> 1 \<le> length b \<and> length b \<le> batchSize)"
  using batch_bounds_slices [of metrics 0] by (auto simp: client_batches_def Suc_le_eq)

lemma batches_partition_example: "map length (client_batches [0 ..< 12 :: nat]) = [5, 5, 2] \<and> concat (client_batches [0 ..< 12]) = [0 ..< 12 :: nat]"
proof
  show "concat (client_batches [0 ..< 12]) = [0 ..< 12 :: nat]" using batches_partition [of "[0 ..< 12 :: nat]"] by simp
  show "map length (client_batches [0 ..< 12 :: nat]) = [5, 5, 2]"
    by (simp add: client_batches_def batch_bounds.simps batchSize_def metrics_slice_def)
qed

section \<open>Sample runs\<close>


theorem late_message_lost_witness:
  "\<exists>st :: 64 word metrics_stream. (metrics_step protobuf (\<lambda>e. False) (\<lambda>q x r. q = x # r))\<^sup>*\<^sup>* (new_stream [Inr ''x'']) st \<and>
     ms_Lost st = [Inr ''x''] \<and> ms_Sent st = []"
  using late_message_lost [of "\<lambda>q x r. q = x # r" protobuf "\<lambda>e. False" "''x''"] by blast

definition nil_metric :: "64 word MetricPoint" where
  "nil_metric = sample_metric\<lparr>mp_Properties := Some \<lparr>kv_Items = fmupd ''count'' (Value ValueType_INT None None None []) fmempty\<rparr>\<rparr>"

theorem encoded_point_handled_witness: "handle_message protobuf (marshalMetricPoint protobuf [''count''] nil_metric) = Some Panic"
proof -
  have "metric_ok nil_metric" "\<And>kv. mp_Properties nil_metric = Some kv \<Longrightarrow> range_order [''count''] (kv_Items kv)"
    by (auto simp: nil_metric_def sample_metric_def metric_ok_def value_types int32_def range_order_def fmlookup_ran'_iff split: if_splits)
  from encoded_point_handled [OF protobuf.wire_format_axioms this] show ?thesis
    by (simp add: nil_metric_def value_types split: if_splits)
qed

definition sample_draws :: "64 word draws" where
  "sample_draws = \<lparr>dw_Int = 7, dw_Float = 1, dw_Str = 2, dw_Complex = True, dw_Now = 1, dw_Value = 3, dw_Null = False, dw_Host = 0, dw_Env = 3,
     dw_Extra = [True, False, False, True]\<rparr>"

lemma generated_point_accepted_example:
  "handle_message protobuf (marshalMetricPoint protobuf [''ratio'', ''count'', ''tags''] (generateRandomMetric sample_draws)) =
     Some (Accept success_response)"
proof -
  have ok: "draws_ok sample_draws" by (simp add: draws_ok_def sample_draws_def)
  have "range_order [''ratio'', ''count'', ''tags''] (kv_Items kv)" if "mp_Properties (generateRandomMetric sample_draws) = Some kv" for kv
    using that by (auto simp: generateRandomMetric_def sample_draws_def Let_def range_order_def)
  from generated_point_accepted [OF protobuf.wire_format_axioms ok this] show ?thesis by blast
qed

end
