(* ===== verification/Metrics_Http.thy ===== *)
theory Metrics_Http
  imports Metrics_Codec Go_Http
begin

text \<open>
  The HTTP interface of the archived metrics programs (\<open>ARCHIVE/Jul252026/internal/httpapi\<close>): the JSON of
  metric points, the handler of a batch and the client that sends one.

  Slices that are empty are nil. Names of members are matched without regard to the case of ASCII
  letters, as \<open>encoding/json\<close> does; a member that is repeated replaces the earlier one, except that the
  properties of a point are merged. The status line is sent before the body, so that a body that
  cannot be written does not change it.
\<close>

section \<open>Encoding points\<close>

definition opt_json :: "('a \<Rightarrow> json result) \<Rightarrow> 'a option \<Rightarrow> json result" where
  "opt_json f x = (case x of None \<Rightarrow> Inr JNull | Some v \<Rightarrow> f v)"

fun collect :: "'a result list \<Rightarrow> 'a list result" where
  "collect [] = Inr []"
| "collect (Inl e # rs) = Inl e"
| "collect (Inr x # rs) = map_sum id (Cons x) (collect rs)"

definition slice_json :: "json result list \<Rightarrow> json result" where
  "slice_json rs = (if rs = [] then Inr JNull else map_sum id JArray (collect rs))"

definition int_json :: "int \<Rightarrow> json result" where "int_json i = Inr (JNum (of_int i))"

fun float_json :: "float64 \<Rightarrow> json result" where
  "float_json (Fin x) = Inr (JNum x)"
| "float_json f = Inl json_value_error"

fun Value_json :: "float64 Value \<Rightarrow> json result" where
  "Value_json (Value t i f s l) =
     json_object [mem_json ''Type'' (int_json t), mem_json ''IntVal'' (opt_json int_json i), mem_json ''FloatVal'' (opt_json float_json f),
       mem_json ''StringVal'' (opt_json (\<lambda>x. Inr (JString x)) s), mem_json ''ListVal'' (slice_json (map Value_json l))]"

definition Label_json :: "Label \<Rightarrow> json result" where
  "Label_json l = json_object [mem_string ''Name'' (lb_Name l), mem_string ''Value'' (lb_Value l)]"

definition KeyValue_json :: "float64 KeyValue \<Rightarrow> json result" where
  "KeyValue_json kv =
     json_object [mem_json ''Items'' (json_object (map (\<lambda>(k, v). mem_json k (Value_json v))
       (range_entries (sorted_list_of_fset (fmdom (kv_Items kv))) (kv_Items kv))))]"

definition MetricPoint_json :: "float64 MetricPoint \<Rightarrow> json result" where
  "MetricPoint_json mp =
     json_object [mem_json ''Timestamp'' (int_json (mp_Timestamp mp)), mem_json ''Value'' (float_json (mp_Value mp)),
       mem_json ''IsNull'' (Inr (JBool (mp_IsNull mp))), mem_json ''Labels'' (slice_json (map Label_json (mp_Labels mp))),
       mem_json ''Properties'' (opt_json KeyValue_json (mp_Properties mp))]"

definition HTTPMetricRequest_json :: "float64 MetricPoint list \<Rightarrow> json result" where
  "HTTPMetricRequest_json metrics = json_object [mem_json ''metrics'' (slice_json (map MetricPoint_json metrics))]"

section \<open>Decoding points\<close>

fun dec_slice :: "(json \<Rightarrow> 'a result) \<Rightarrow> json \<Rightarrow> 'a list result" where
  "dec_slice f (JArray js) = collect (map f js)"
| "dec_slice f JNull = Inr []"
| "dec_slice f j = Inl json_type_error"

definition dec_int32 :: "(int \<Rightarrow> 's \<Rightarrow> 's) \<Rightarrow> 's field_decoder" where
  "dec_int32 upd j st =
     (case j of
        JNum x \<Rightarrow> (if of_int \<lfloor>x\<rfloor> = x \<and> int32 \<lfloor>x\<rfloor> then Inr (upd \<lfloor>x\<rfloor> st) else Inl json_type_error)
      | JNull \<Rightarrow> Inr st
      | _ \<Rightarrow> Inl json_type_error)"

text \<open>A pointer: \<open>null\<close> makes it nil.\<close>

definition dec_pointer :: "(('a \<Rightarrow> 's \<Rightarrow> 's) \<Rightarrow> 's field_decoder) \<Rightarrow> ('a option \<Rightarrow> 's \<Rightarrow> 's) \<Rightarrow> 's field_decoder" where
  "dec_pointer dec upd j st = (if j = JNull then Inr (upd None st) else dec (\<lambda>v. upd (Some v)) j st)"

text \<open>One member of a value other than its list; the list is decoded by the caller.\<close>

fun value_member :: "string \<Rightarrow> json \<Rightarrow> float64 Value \<Rightarrow> float64 Value result" where
  "value_member n j (Value t i f s l) =
     (if n = ''type'' then dec_int32 (\<lambda>x v. Value x i f s l) j (Value t i f s l)
      else if n = ''intval'' then dec_pointer dec_int (\<lambda>x v. Value t x f s l) j (Value t i f s l)
      else if n = ''floatval'' then dec_pointer dec_float (\<lambda>x v. Value t i x s l) j (Value t i f s l)
      else if n = ''stringval'' then dec_pointer dec_string (\<lambda>x v. Value t i f x l) j (Value t i f s l)
      else Inr (Value t i f s l))"

fun set_list :: "float64 Value list \<Rightarrow> float64 Value \<Rightarrow> float64 Value" where
  "set_list l' (Value t i f s l) = Value t i f s l'"

fun dec_value :: "json \<Rightarrow> float64 Value result"
  and dec_value_members :: "(string \<times> json) list \<Rightarrow> float64 Value \<Rightarrow> goerror option \<Rightarrow> float64 Value result"
  and dec_value_list :: "json \<Rightarrow> float64 Value list result"
  and dec_values :: "json list \<Rightarrow> float64 Value list result" where
  "dec_value (JObject ms) = dec_value_members ms Value_zero None"
| "dec_value JNull = Inr Value_zero"
| "dec_value j = Inl json_type_error"
| "dec_value_members [] v e = (case e of None \<Rightarrow> Inr v | Some err \<Rightarrow> Inl err)"
| "dec_value_members ((n, j) # ms) v e =
     (case (if ToLower n = ''listval'' then map_sum id (\<lambda>l. set_list l v) (dec_value_list j) else value_member (ToLower n) j v) of
        Inl e' \<Rightarrow> dec_value_members ms v (first_error e (Some e'))
      | Inr v' \<Rightarrow> dec_value_members ms v' e)"
| "dec_value_list (JArray js) = dec_values js"
| "dec_value_list JNull = Inr []"
| "dec_value_list j = Inl json_type_error"
| "dec_values [] = Inr []"
| "dec_values (j # js) =
     (case dec_value j of
        Inl e \<Rightarrow> Inl e
      | Inr v \<Rightarrow> map_sum id (Cons v) (dec_values js))"

definition Label_fields :: "string \<Rightarrow> Label field_decoder option" where
  "Label_fields n =
     (if ToLower n = ''name'' then Some (dec_string (\<lambda>v l. l\<lparr>lb_Name := v\<rparr>))
      else if ToLower n = ''value'' then Some (dec_string (\<lambda>v l. l\<lparr>lb_Value := v\<rparr>))
      else None)"

definition dec_label :: "json \<Rightarrow> Label result" where
  "dec_label j = decode_struct Label_fields \<lparr>lb_Name = [], lb_Value = []\<rparr> j"

fun dec_items :: "(string \<times> json) list \<Rightarrow> (string, float64 Value) fmap \<Rightarrow> goerror option \<Rightarrow> (string, float64 Value) fmap result" where
  "dec_items [] m e = (case e of None \<Rightarrow> Inr m | Some err \<Rightarrow> Inl err)"
| "dec_items ((k, j) # ms) m e =
     (case dec_value j of
        Inl e' \<Rightarrow> dec_items ms m (first_error e (Some e'))
      | Inr v \<Rightarrow> dec_items ms (fmupd k v m) e)"

fun dec_map :: "float64 KeyValue field_decoder" where
  "dec_map (JObject ms) kv = map_sum id (\<lambda>m. kv\<lparr>kv_Items := m\<rparr>) (dec_items ms (kv_Items kv) None)"
| "dec_map JNull kv = Inr (kv\<lparr>kv_Items := fmempty\<rparr>)"
| "dec_map j kv = Inl json_type_error"

definition KeyValue_fields :: "string \<Rightarrow> float64 KeyValue field_decoder option" where
  "KeyValue_fields n = (if ToLower n = ''items'' then Some dec_map else None)"

definition dec_properties :: "float64 MetricPoint field_decoder" where
  "dec_properties j mp =
     (if j = JNull then Inr (mp\<lparr>mp_Properties := None\<rparr>)
      else map_sum id (\<lambda>kv. mp\<lparr>mp_Properties := Some kv\<rparr>)
        (decode_struct KeyValue_fields (case mp_Properties mp of None \<Rightarrow> \<lparr>kv_Items = fmempty\<rparr> | Some kv \<Rightarrow> kv) j))"

definition MetricPoint_fields :: "string \<Rightarrow> float64 MetricPoint field_decoder option" where
  "MetricPoint_fields n =
     (if ToLower n = ''timestamp'' then Some (dec_int (\<lambda>v mp. mp\<lparr>mp_Timestamp := v\<rparr>))
      else if ToLower n = ''value'' then Some (dec_float (\<lambda>v mp. mp\<lparr>mp_Value := v\<rparr>))
      else if ToLower n = ''isnull'' then Some (dec_bool (\<lambda>v mp. mp\<lparr>mp_IsNull := v\<rparr>))
      else if ToLower n = ''labels'' then Some (\<lambda>j mp. map_sum id (\<lambda>ls. mp\<lparr>mp_Labels := ls\<rparr>) (dec_slice dec_label j))
      else if ToLower n = ''properties'' then Some dec_properties
      else None)"

definition dec_metric :: "json \<Rightarrow> float64 MetricPoint result" where
  "dec_metric j =
     decode_struct MetricPoint_fields
       \<lparr>mp_Timestamp = 0, mp_Value = Fin 0, mp_IsNull = False, mp_Labels = [], mp_Properties = None\<rparr> j"

definition HTTPMetricRequest_fields :: "string \<Rightarrow> float64 MetricPoint list field_decoder option" where
  "HTTPMetricRequest_fields n = (if ToLower n = ''metrics'' then Some (\<lambda>j ms. dec_slice dec_metric j) else None)"

definition dec_request :: "json \<Rightarrow> float64 MetricPoint list result" where
  "dec_request j = decode_struct HTTPMetricRequest_fields [] j"

section \<open>The handler\<close>

record HTTPMetricResponse =
  hr_Success :: bool
  hr_Error :: string

definition HTTPMetricResponse_json :: "HTTPMetricResponse \<Rightarrow> json" where
  "HTTPMetricResponse_json r =
     JObject ((''success'', JBool (hr_Success r)) # (if hr_Error r = [] then [] else [(''error'', JString (hr_Error r))]))"

definition writeJSONResponse :: "nat \<Rightarrow> HTTPMetricResponse \<Rightarrow> 'p writer \<Rightarrow> 'p writer" where
  "writeJSONResponse status v w =
     (case write_chunk (CJson (HTTPMetricResponse_json v)) ((set_header ''Content-Type'' ''application/json'' w)\<lparr>wr_Code := status\<rparr>) of
        (None, w') \<Rightarrow> w'
      | (Some e, w') \<Rightarrow> snd (write_chunk (CText (''failed to encode response'' @ [CHR 0x0A])) w'))"

definition writeJSONError :: "nat \<Rightarrow> string \<Rightarrow> 'p writer \<Rightarrow> 'p writer" where
  "writeJSONError status message w = writeJSONResponse status \<lparr>hr_Success = False, hr_Error = message\<rparr> w"

text \<open>A point as it is logged; \<open>now\<close> is the clock read for it.\<close>

definition stamped :: "int \<Rightarrow> float64 MetricPoint \<Rightarrow> float64 MetricPoint" where
  "stamped now metric = (if mp_Timestamp metric = 0 then metric\<lparr>mp_Timestamp := now\<rparr> else metric)"

text \<open>The response and the points logged; \<open>clock i\<close> is read for the \<open>i\<close>-th point.\<close>

definition HandleBatchMetrics :: "(nat \<Rightarrow> int) \<Rightarrow> request \<Rightarrow> 'p writer \<Rightarrow> 'p writer \<times> float64 MetricPoint list" where
  "HandleBatchMetrics clock r w =
     (if rq_Method r \<noteq> ''POST'' then (writeJSONError 405 ''method not allowed'' w, [])
      else
     (case (case rq_Body r of Inl e \<Rightarrow> Inl e | Inr j \<Rightarrow> dec_request j) of
        Inl e \<Rightarrow> (writeJSONError 400 ''invalid request format'' w, [])
      | Inr metrics \<Rightarrow>
          (if metrics = [] then (writeJSONError 400 ''no metrics provided'' w, [])
           else (writeJSONResponse 200 \<lparr>hr_Success = True, hr_Error = []\<rparr> w,
                 map (\<lambda>i. stamped (clock i) (metrics ! i)) [0 ..< length metrics]))))"

section \<open>The client\<close>

definition HTTPMetricResponse_fields :: "string \<Rightarrow> HTTPMetricResponse field_decoder option" where
  "HTTPMetricResponse_fields n =
     (if ToLower n = ''success'' then Some (dec_bool (\<lambda>v r. r\<lparr>hr_Success := v\<rparr>))
      else if ToLower n = ''error'' then Some (dec_string (\<lambda>v r. r\<lparr>hr_Error := v\<rparr>))
      else None)"

text \<open>\<open>newRequest\<close> says whether a request for the address can be made, \<open>transport\<close> what comes back: an error,
  or what the JSON decoder reads from the body.\<close>

definition batch_request :: "json \<Rightarrow> request" where
  "batch_request body =
     \<lparr>rq_Method = ''POST'', rq_Path = ''/metrics/v1/batch'', rq_Query = [], rq_Cookies = [],
      rq_Header = [(''Content-Type'', ''application/json'')], rq_Body = Inr body\<rparr>"

definition SendMetrics ::
  "(string \<Rightarrow> goerror option) \<Rightarrow> (string \<Rightarrow> request \<Rightarrow> json result result) \<Rightarrow> string \<Rightarrow> float64 MetricPoint list \<Rightarrow> goerror option" where
  "SendMetrics newRequest transport baseURL metrics =
     (case HTTPMetricRequest_json metrics of
        Inl e \<Rightarrow> Some (Wrapf ''failed to marshal request'' e)
      | Inr body \<Rightarrow>
     (case newRequest (baseURL @ ''/metrics/v1/batch'') of
        Some e \<Rightarrow> Some (Wrapf ''failed to create request'' e)
      | None \<Rightarrow>
     (case transport baseURL (batch_request body) of
        Inl e \<Rightarrow> Some (Wrapf ''failed to send request'' e)
      | Inr resp \<Rightarrow>
     (case (case resp of Inl e \<Rightarrow> Inl e | Inr j \<Rightarrow> decode_struct HTTPMetricResponse_fields \<lparr>hr_Success = False, hr_Error = []\<rparr> j) of
        Inl e \<Rightarrow> Some (Wrapf ''failed to decode response'' e)
      | Inr r \<Rightarrow> (if \<not> hr_Success r then Some (Errorf (''server error: '' @ hr_Error r)) else None)))))"

section \<open>Points survive the JSON\<close>

lemma collect_Inr: "collect rs = Inr xs \<longleftrightarrow> rs = map Inr xs"
proof (induction rs arbitrary: xs)
  case (Cons r rs)
  then show ?case by (cases r; cases xs; cases "collect rs") auto
qed auto

lemma members_pairs: "members (map (\<lambda>x. mem_json (k x) (f x)) xs) = Inr ms \<Longrightarrow> (\<forall>x \<in> set xs. \<exists>j. f x = Inr j) \<and> ms = map (\<lambda>x. (k x, projr (f x))) xs"
  by (induction xs arbitrary: ms) (auto simp: mem_json_def split: sum.splits)


lemma lower_names [simp]:
  "ToLower ''Type'' = ''type''" "ToLower ''IntVal'' = ''intval''" "ToLower ''FloatVal'' = ''floatval''" "ToLower ''StringVal'' = ''stringval''"
  "ToLower ''ListVal'' = ''listval''" "ToLower ''Name'' = ''name''" "ToLower ''Value'' = ''value''" "ToLower ''Items'' = ''items''"
  "ToLower ''Timestamp'' = ''timestamp''" "ToLower ''IsNull'' = ''isnull''" "ToLower ''Labels'' = ''labels''"
  "ToLower ''Properties'' = ''properties''" "ToLower ''metrics'' = ''metrics''" "ToLower ''success'' = ''success''" "ToLower ''error'' = ''error''"
  by (simp_all add: ToLower_def lower_char_def char_of_def bit_0)

lemma json_object_Inr:
  "json_object [] = Inr j \<longleftrightarrow> j = JObject []"
  "json_object (mem_json n r # ms) = Inr j \<longleftrightarrow> (\<exists>x rest. r = Inr x \<and> json_object ms = Inr (JObject rest) \<and> j = JObject ((n, x) # rest))"
  by (auto simp: json_object_def mem_json_def split: sum.splits option.splits)

lemma decoded_pointer:
  "opt_json int_json i = Inr j \<Longrightarrow> (case i of None \<Rightarrow> True | Some n \<Rightarrow> int64 n) \<Longrightarrow> dec_pointer dec_int upd j st = Inr (upd i st)"
  "opt_json float_json f = Inr j \<Longrightarrow> dec_pointer dec_float updf j st = Inr (updf f st)"
  "opt_json (\<lambda>x. Inr (JString x)) s = Inr j \<Longrightarrow> dec_pointer dec_string upds j st = Inr (upds s st)"
proof -
  show "dec_pointer dec_int upd j st = Inr (upd i st)"
    if "opt_json int_json i = Inr j" "case i of None \<Rightarrow> True | Some n \<Rightarrow> int64 n"
    using that by (cases i) (auto simp: opt_json_def int_json_def dec_pointer_def)
  show "dec_pointer dec_float updf j st = Inr (updf f st)" if "opt_json float_json f = Inr j"
  proof (cases f)
    case (Some x)
    with that show ?thesis by (cases x) (auto simp: opt_json_def dec_pointer_def)
  qed (use that in \<open>auto simp: opt_json_def dec_pointer_def\<close>)
  show "dec_pointer dec_string upds j st = Inr (upds s st)" if "opt_json (\<lambda>x. Inr (JString x)) s = Inr j"
    using that by (cases s) (auto simp: opt_json_def dec_pointer_def)
qed

lemma slice_json_Inr: "slice_json (map f l) = Inr j \<longleftrightarrow> (if l = [] then j = JNull else \<exists>js. j = JArray js \<and> map f l = map Inr js)"
proof (cases "l = []")
  case False
  then show ?thesis by (cases "collect (map f l)") (auto simp: slice_json_def collect_Inr [symmetric])
qed (auto simp: slice_json_def)

lemma decoded_values: "list_all2 (\<lambda>v j. dec_value j = Inr v) l js \<Longrightarrow> dec_values js = Inr l"
  by (induction l js rule: list_all2_induct) auto

lemma map_Inr_list_all2: "map f l = map Inr js \<longleftrightarrow> list_all2 (\<lambda>v j. f v = Inr j) l js"
  by (auto simp: list_all2_conv_all_nth list_eq_iff_nth_eq)

lemma decoded_value: "Value_json v = Inr j \<Longrightarrow> value_ok v \<Longrightarrow> dec_value j = Inr v"
proof (induction v arbitrary: j)
  case (Value t i f s l)
  obtain ji jf js jl where e: "opt_json int_json i = Inr ji" "opt_json float_json f = Inr jf" "opt_json (\<lambda>x. Inr (JString x)) s = Inr js"
      "slice_json (map Value_json l) = Inr jl"
      and j: "j = JObject [(''Type'', JNum (of_int t)), (''IntVal'', ji), (''FloatVal'', jf), (''StringVal'', js), (''ListVal'', jl)]"
    using Value.prems(1) by (auto simp: json_object_Inr int_json_def)
  have "dec_value_list jl = Inr l"
  proof (cases "l = []")
    case False
    then obtain jls where jl: "jl = JArray jls" "list_all2 (\<lambda>v j. Value_json v = Inr j) l jls"
      using e(4) by (auto simp: slice_json_Inr map_Inr_list_all2)
    have "list_all2 (\<lambda>v j. dec_value j = Inr v) l jls"
      using jl(2) Value.IH Value.prems(2)
      by (auto simp: list_all2_conv_all_nth list_all_length)
    then show ?thesis by (simp add: jl(1) decoded_values)
  next
    case True
    then have "jl = JNull" using e(4) by (simp add: slice_json_def)
    with True show ?thesis by simp
  qed
  with Value.prems(2) e decoded_pointer(1) [OF e(1)] show ?case
    by (simp add: j Value_zero_def dec_int32_def decoded_pointer)
qed

lemma decoded_label: "Label_json l = Inr j \<Longrightarrow> dec_label j = Inr l"
  by (cases l) (auto simp: Label_json_def json_object_def mem_string_def dec_label_def Label_fields_def)


lemma decoded_items:
  assumes "\<And>k v. (k, v) \<in> set kvs \<Longrightarrow> value_ok v"
    and "members (map (\<lambda>(k, v). mem_json k (Value_json v)) kvs) = Inr ms"
  shows "dec_items ms m None = Inr (fold (\<lambda>(k, v). fmupd k v) kvs m)"
  using assms
proof (induction kvs arbitrary: m ms)
  case (Cons p kvs)
  obtain k v where p: "p = (k, v)" by fastforce
  obtain j ms' where j: "Value_json v = Inr j" "members (map (\<lambda>(k, v). mem_json k (Value_json v)) kvs) = Inr ms'" "ms = (k, j) # ms'"
    using Cons.prems(2) by (auto simp: p mem_json_def split: sum.splits option.splits)
  have "dec_value j = Inr v" by (rule decoded_value [OF j(1)]) (use Cons.prems(1) p in auto)
  moreover have "dec_items ms' m' None = Inr (fold (\<lambda>(k, v). fmupd k v) kvs m')" for m'
    by (rule Cons.IH) (use Cons.prems(1) j(2) in auto)
  ultimately show ?case by (simp add: j(3) p)
qed simp

lemma sorted_keys_order: "range_order (sorted_list_of_fset (fmdom m)) m"
  by (simp add: range_order_def fmdom'_alt_def sorted_list_of_fset.rep_eq)

lemma decoded_properties:
  assumes "KeyValue_json kv = Inr j" and "\<forall>v \<in> fmran' (kv_Items kv). value_ok v"
  shows "decode_struct KeyValue_fields \<lparr>kv_Items = fmempty\<rparr> j = Inr kv \<and> j \<noteq> JNull"
proof -
  let ?es = "range_entries (sorted_list_of_fset (fmdom (kv_Items kv))) (kv_Items kv)"
  obtain ms where ms: "members (map (\<lambda>(k, v). mem_json k (Value_json v)) ?es) = Inr ms" "j = JObject [(''Items'', JObject ms)]"
    using assms(1) by (cases "members (map (\<lambda>(k, v). mem_json k (Value_json v)) ?es)") (auto simp: KeyValue_json_def json_object_Inr json_object_def mem_json_def)
  have "value_ok v" if "(k, v) \<in> set ?es" for k v using that assms(2) by (auto simp: in_range_entries intro: fmran'I)
  from decoded_items [OF this ms(1)] have "dec_items ms fmempty None = Inr (kv_Items kv)"
    using fold_range_entries [OF sorted_keys_order, of "\<lambda>v. v" "kv_Items kv"] by (simp add: fmap.map_ident)
  then show ?thesis by (cases kv) (simp add: ms(2) KeyValue_fields_def)
qed

lemma decoded_labels: "slice_json (map Label_json ls) = Inr j \<Longrightarrow> dec_slice dec_label j = Inr ls"
proof -
  assume e: "slice_json (map Label_json ls) = Inr j"
  have "map dec_label js = map Inr ls" if "map Label_json ls = map Inr js" for js
    using that by (auto simp: list_eq_iff_nth_eq intro: decoded_label)
  with e show ?thesis by (auto simp: slice_json_Inr collect_Inr split: if_splits)
qed

lemma decoded_metric:
  assumes "MetricPoint_json mp = Inr j" and "metric_ok mp"
  shows "dec_metric j = Inr mp"
proof -
  obtain x jl jp where x: "mp_Value mp = Fin x" and e: "slice_json (map Label_json (mp_Labels mp)) = Inr jl" "opt_json KeyValue_json (mp_Properties mp) = Inr jp"
      and j: "j = JObject [(''Timestamp'', JNum (of_int (mp_Timestamp mp))), (''Value'', JNum x), (''IsNull'', JBool (mp_IsNull mp)),
        (''Labels'', jl), (''Properties'', jp)]"
    using assms(1) by (cases "mp_Value mp") (auto simp: MetricPoint_json_def json_object_Inr int_json_def)
  have p: "dec_properties jp m = Inr (m\<lparr>mp_Properties := mp_Properties mp\<rparr>)" if "mp_Properties m = None" for m
  proof (cases "mp_Properties mp")
    case (Some kv)
    with e(2) assms(2) decoded_properties [of kv jp] that show ?thesis by (simp add: opt_json_def metric_ok_def dec_properties_def)
  qed (use e(2) in \<open>simp add: opt_json_def dec_properties_def\<close>)
  show ?thesis
    using assms(2) x by (cases mp) (simp add: dec_metric_def j MetricPoint_fields_def decoded_labels [OF e(1)] p metric_ok_def)
qed

lemma decoded_request:
  assumes "HTTPMetricRequest_json metrics = Inr j" and "\<forall>m \<in> set metrics. metric_ok m"
  shows "dec_request j = Inr metrics"
proof -
  obtain js where e: "slice_json (map MetricPoint_json metrics) = Inr js" "j = JObject [(''metrics'', js)]"
    using assms(1) by (auto simp: HTTPMetricRequest_json_def json_object_Inr)
  have "map dec_metric l = map Inr metrics" if "map MetricPoint_json metrics = map Inr l" for l
    using that assms(2) by (auto simp: list_eq_iff_nth_eq intro: decoded_metric)
  with e(1) have "dec_slice dec_metric js = Inr metrics" by (auto simp: slice_json_Inr collect_Inr split: if_splits)
  then show ?thesis by (simp add: dec_request_def e(2) HTTPMetricRequest_fields_def)
qed


section \<open>Client and server together\<close>

text \<open>The transport that hands a request to the handler and gives back the body of its response.\<close>

definition served :: "(nat \<Rightarrow> int) \<Rightarrow> string \<Rightarrow> request \<Rightarrow> json result result" where
  "served clock url r =
     (case HandleBatchMetrics clock r (new_writer True (\<lambda>n. None) :: unit writer) of (w, _) \<Rightarrow>
        Inr (case wr_Chunks w of [CJson j] \<Rightarrow> Inr j | _ \<Rightarrow> Inl (Extern IOEOF ''EOF'')))"

lemma response_chunks:
  "wr_Chunks (writeJSONResponse status v (new_writer b (\<lambda>n. None))) = [CJson (HTTPMetricResponse_json v)]"
  by (simp add: writeJSONResponse_def write_chunk_def set_header_def new_writer_def)

lemma decoded_response:
  "decode_struct HTTPMetricResponse_fields \<lparr>hr_Success = False, hr_Error = []\<rparr> (HTTPMetricResponse_json v) = Inr v"
  by (cases v) (simp add: HTTPMetricResponse_json_def HTTPMetricResponse_fields_def)

lemma handled_batch:
  assumes "HTTPMetricRequest_json metrics = Inr body" and "\<forall>m \<in> set metrics. metric_ok m"
  shows "HandleBatchMetrics clock (batch_request body) w =
    (if metrics = [] then (writeJSONError 400 ''no metrics provided'' w, [])
     else (writeJSONResponse 200 \<lparr>hr_Success = True, hr_Error = []\<rparr> w, map (\<lambda>i. stamped (clock i) (metrics ! i)) [0 ..< length metrics]))"
  by (simp add: HandleBatchMetrics_def batch_request_def decoded_request [OF assms])

text \<open>Through the JSON interface the server sees exactly the points the client sends, with the clock
  in place of a timestamp that is zero; the client reports success exactly when it could encode the
  points and there is at least one, and an empty batch comes back as the server's error.\<close>

lemma http_batch_end_to_end:
  assumes "\<forall>m \<in> set metrics. metric_ok m" and "newRequest (baseURL @ ''/metrics/v1/batch'') = None"
  shows "SendMetrics newRequest (served clock) baseURL metrics =
      (case HTTPMetricRequest_json metrics of
         Inl e \<Rightarrow> Some (Wrapf ''failed to marshal request'' e)
       | Inr body \<Rightarrow> if metrics = [] then Some (Errorf ''server error: no metrics provided'') else None) \<and>
    (\<forall>body w. HTTPMetricRequest_json metrics = Inr body \<longrightarrow>
       snd (HandleBatchMetrics clock (batch_request body) w) = map (\<lambda>i. stamped (clock i) (metrics ! i)) [0 ..< length metrics])"
proof
  show "SendMetrics newRequest (served clock) baseURL metrics =
      (case HTTPMetricRequest_json metrics of
         Inl e \<Rightarrow> Some (Wrapf ''failed to marshal request'' e)
       | Inr body \<Rightarrow> if metrics = [] then Some (Errorf ''server error: no metrics provided'') else None)"
  proof (cases "HTTPMetricRequest_json metrics")
    case (Inr body)
    let ?resp = "if metrics = [] then \<lparr>hr_Success = False, hr_Error = ''no metrics provided''\<rparr> else \<lparr>hr_Success = True, hr_Error = []\<rparr>"
    have "served clock baseURL (batch_request body) = Inr (Inr (HTTPMetricResponse_json ?resp))"
      by (simp add: served_def handled_batch [OF Inr assms(1)] writeJSONError_def response_chunks)
    then show ?thesis by (simp add: SendMetrics_def Inr assms(2) decoded_response)
  qed (simp add: SendMetrics_def)
  show "\<forall>body w. HTTPMetricRequest_json metrics = Inr body \<longrightarrow>
       snd (HandleBatchMetrics clock (batch_request body) w) = map (\<lambda>i. stamped (clock i) (metrics ! i)) [0 ..< length metrics]"
    by (simp add: handled_batch [OF _ assms(1)])
qed

definition plain_metric :: "float64 MetricPoint" where
  "plain_metric = \<lparr>mp_Timestamp = 0, mp_Value = Fin (1 / 2), mp_IsNull = False, mp_Labels = [\<lparr>lb_Name = ''host'', lb_Value = ''a''\<rparr>], mp_Properties = None\<rparr>"

lemma http_batch_end_to_end_example:
  "SendMetrics (\<lambda>url. None) (served (\<lambda>i. 9)) ''http://localhost:8080'' [plain_metric] = None"
proof -
  have "\<forall>m \<in> set [plain_metric]. metric_ok m" by (simp add: plain_metric_def metric_ok_def)
  moreover have "\<exists>body. HTTPMetricRequest_json [plain_metric] = Inr body"
    by (simp add: HTTPMetricRequest_json_def plain_metric_def MetricPoint_json_def json_object_def mem_json_def slice_json_def int_json_def
        Label_json_def mem_string_def opt_json_def)
  ultimately show ?thesis
    using http_batch_end_to_end [of "[plain_metric]" "\<lambda>url. None" "''http://localhost:8080''" "\<lambda>i. 9"] by auto
qed

end
