(* ===== verification/Site_Bundle.thy ===== *)
theory Site_Bundle
  imports Gtfs_Regions Go_Json
begin

text \<open>
  \<open>internal/codexsites/compiler.go\<close>: writing the bundle of a static site, the catalogue of regions and
  feeds as JSON and copies of the templates.

  A file's contents are a list of pieces, texts and the JSON document, which is kept as a document.
  The templates (\<open>templates.go\<close>, constant texts) are an argument, as are the order in which the map of
  files is visited and what the file system answers. Paths are joined with a slash: the output
  directory is taken to be a clean path.
\<close>

section \<open>The catalogue\<close>

record siteRegion =
  sr_ID :: string
  sr_Label :: string
  sr_Center :: "rat \<times> rat"
  sr_Zoom :: nat
  sr_Agencies :: "string list"

record siteFeed =
  sf_Agency :: string
  sf_Region :: string
  sf_Group :: string
  sf_URL :: string

record siteConfig =
  sc_Regions :: "siteRegion list"
  sc_Feeds :: "siteFeed list"

definition site_region :: "MapRegion \<Rightarrow> siteRegion" where
  "site_region r =
     \<lparr>sr_ID = rg_ID r, sr_Label = rg_Label r, sr_Center = rg_Center r, sr_Zoom = rg_Zoom r, sr_Agencies = rg_Agencies r\<rparr>"

definition site_feed :: "Feed \<Rightarrow> siteFeed" where
  "site_feed f = \<lparr>sf_Agency = fd_Agency f, sf_Region = fd_Region f, sf_Group = fd_Group f, sf_URL = fd_URL f\<rparr>"

definition site_config :: siteConfig where
  "site_config = \<lparr>sc_Regions = map site_region AllRegions, sc_Feeds = map site_feed AllFeeds\<rparr>"

definition siteRegion_json :: "siteRegion \<Rightarrow> json" where
  "siteRegion_json r =
     JObject [(''id'', JString (sr_ID r)), (''label'', JString (sr_Label r)),
       (''center'', JArray [JNum (fst (sr_Center r)), JNum (snd (sr_Center r))]), (''zoom'', JNum (of_nat (sr_Zoom r))),
       (''agencies'', if sr_Agencies r = [] then JNull else JArray (map JString (sr_Agencies r)))]"

definition siteFeed_json :: "siteFeed \<Rightarrow> json" where
  "siteFeed_json f =
     JObject [(''agency'', JString (sf_Agency f)), (''region'', JString (sf_Region f)), (''group'', JString (sf_Group f)), (''url'', JString (sf_URL f))]"

text \<open>The slices are made and never nil; nothing in the catalogue can fail to encode.\<close>

definition siteConfig_json :: "siteConfig \<Rightarrow> json" where
  "siteConfig_json c =
     JObject [(''regions'', JArray (map siteRegion_json (sc_Regions c))), (''feeds'', JArray (map siteFeed_json (sc_Feeds c)))]"

section \<open>The files\<close>

record templates =
  tp_indexHTML :: string
  tp_replayHTML :: string
  tp_appCSS :: string
  tp_appJS :: string
  tp_replayJS :: string
  tp_schemaSQL :: string
  tp_wranglerJSONC :: string
  tp_readmeMD :: string
  tp_workerTS :: string

datatype piece = Lit string | Doc json

text \<open>The text before and after the first occurrence of \<open>pat\<close>.\<close>

fun cut :: "string \<Rightarrow> string \<Rightarrow> (string \<times> string) option" where
  "cut pat s =
     (if prefix pat s then Some ([], drop (length pat) s)
      else case s of [] \<Rightarrow> None | c # cs \<Rightarrow> map_option (map_prod (Cons c) id) (cut pat cs))"

declare cut.simps [simp del]

definition placeholder :: string where "placeholder = ''__REGIONS_JSON__''"

text \<open>\<open>strings.Replace\<close> of the first occurrence.\<close>

definition replace_first :: "string \<Rightarrow> json \<Rightarrow> piece list" where
  "replace_first s doc = (case cut placeholder s of None \<Rightarrow> [Lit s] | Some (a, b) \<Rightarrow> [Lit a, Doc doc, Lit b])"

definition bundle_list :: "templates \<Rightarrow> json \<Rightarrow> (string \<times> piece list) list" where
  "bundle_list tp doc =
       [(''public/index.html'', [Lit (tp_indexHTML tp)]), (''public/replay.html'', [Lit (tp_replayHTML tp)]),
        (''public/config.js'', [Lit ''window.SITE_CONFIG = '', Doc doc, Lit (CHR '';'' # [CHR 0x0A])]),
        (''public/app.css'', [Lit (tp_appCSS tp)]), (''public/app.js'', [Lit (tp_appJS tp)]), (''public/replay.js'', [Lit (tp_replayJS tp)]),
        (''schema.sql'', [Lit (tp_schemaSQL tp)]), (''wrangler.jsonc'', [Lit (tp_wranglerJSONC tp)]), (''README.md'', [Lit (tp_readmeMD tp)]),
        (''worker.ts'', replace_first (tp_workerTS tp) doc)]"

definition bundle_files :: "templates \<Rightarrow> json \<Rightarrow> (string, piece list) fmap" where
  "bundle_files tp doc = fmap_of_list (bundle_list tp doc)"

definition join_path :: "string \<Rightarrow> string \<Rightarrow> string" where
  "join_path out name = out @ ''/'' @ name"

definition path_dir :: "string \<Rightarrow> string" where
  "path_dir p = rev (tl (dropWhile (\<lambda>c. c \<noteq> CHR ''/'') (rev p)))"

text \<open>What the file system answers; a file whose write failed is not a file of the bundle.\<close>

record disk_env =
  dk_MkdirAll :: "string \<Rightarrow> goerror option"
  dk_WriteFile :: "string \<Rightarrow> goerror option"

type_synonym disk = "(string, piece list) fmap"

fun write_files :: "disk_env \<Rightarrow> string \<Rightarrow> (string \<times> piece list) list \<Rightarrow> disk \<Rightarrow> goerror option \<times> disk" where
  "write_files dk out [] d = (None, d)"
| "write_files dk out ((name, contents) # fs) d =
     (let path = join_path out name in
      case dk_MkdirAll dk (path_dir path) of
        Some e \<Rightarrow> (Some (Wrapf (''create directory for '' @ name) e), d)
      | None \<Rightarrow>
          (case dk_WriteFile dk path of
             Some e \<Rightarrow> (Some (Wrapf (''write '' @ name) e), fmdrop path d)
           | None \<Rightarrow> write_files dk out fs (fmupd path contents d)))"

definition Generate :: "templates \<Rightarrow> disk_env \<Rightarrow> string list \<Rightarrow> string \<Rightarrow> disk \<Rightarrow> goerror option \<times> disk" where
  "Generate tp dk ord out d =
     (let files = bundle_files tp (siteConfig_json site_config) in
      case dk_MkdirAll dk (join_path out ''public'') of
        Some e \<Rightarrow> (Some (Wrapf ''create output directory'' e), d)
      | None \<Rightarrow> write_files dk out (range_entries ord files) d)"

section \<open>What is written\<close>

lemma cut_append:
  assumes "\<And>a'. strict_prefix a' a \<Longrightarrow> \<not> prefix pat (drop (length a') (a @ pat @ b))"
  shows "cut pat (a @ pat @ b) = Some (a, b)"
  using assms
proof (induction a)
  case Nil
  then show ?case by (subst cut.simps) simp
next
  case (Cons c a)
  have "\<not> prefix pat ((c # a) @ pat @ b)" using Cons.prems [of "[]"] by simp
  moreover have "cut pat (a @ pat @ b) = Some (a, b)"
  proof (rule Cons.IH)
    show "\<not> prefix pat (drop (length a') (a @ pat @ b))" if "strict_prefix a' a" for a'
      using Cons.prems [of "c # a'"] that by simp
  qed
  ultimately show ?case by (subst cut.simps) simp
qed

lemma join_path_inj [simp]: "join_path out a = join_path out b \<longleftrightarrow> a = b"
  by (simp add: join_path_def)

text \<open>A run without an error writes every file and touches nothing else; an error names the first file
  that was not written.\<close>

lemma write_files_other:
  assumes "write_files dk out fs d = (None, d')" and "p \<notin> join_path out ` fst ` set fs"
  shows "fmlookup d' p = fmlookup d p"
  using assms
proof (induction fs arbitrary: d)
  case (Cons f fs)
  obtain name c where f: "f = (name, c)" by fastforce
  have w: "write_files dk out fs (fmupd (join_path out name) c d) = (None, d')"
    using Cons.prems(1) by (simp add: f Let_def split: option.splits)
  from Cons.IH [OF w] Cons.prems(2) show ?case by (auto simp: f)
qed simp

lemma write_files_ok:
  assumes "write_files dk out fs d = (None, d')" and "distinct (map fst fs)" and "(name, c) \<in> set fs"
  shows "fmlookup d' (join_path out name) = Some c"
  using assms
proof (induction fs arbitrary: d)
  case (Cons f fs)
  have w: "write_files dk out fs (fmupd (join_path out (fst f)) (snd f) d) = (None, d')"
    using Cons.prems(1) by (cases f) (simp add: Let_def split: option.splits)
  show ?case
  proof (cases "f = (name, c)")
    case True
    then have "join_path out name \<notin> join_path out ` fst ` set fs" using Cons.prems(2) by (auto simp: image_iff)
    from write_files_other [OF w this] True show ?thesis by simp
  next
    case False
    with Cons.IH [OF w] Cons.prems(2,3) show ?thesis by simp
  qed
qed simp

lemma write_files_all:
  assumes "\<And>p. dk_MkdirAll dk p = None" and "\<And>p. dk_WriteFile dk p = None"
  shows "\<exists>d'. write_files dk out fs d = (None, d')"
  by (induction fs arbitrary: d) (auto simp: Let_def assms)

lemma write_files_error:
  assumes "write_files dk out fs d = (Some e, d')"
  shows "\<exists>pre name c post d1 cause. fs = pre @ (name, c) # post \<and> write_files dk out pre d = (None, d1) \<and>
    (e = Wrapf (''create directory for '' @ name) cause \<and> d' = d1 \<or> e = Wrapf (''write '' @ name) cause \<and> d' = fmdrop (join_path out name) d1)"
  using assms
proof (induction fs arbitrary: d)
  case (Cons f fs)
  obtain name c where f: "f = (name, c)" by fastforce
  show ?case
  proof (cases "dk_MkdirAll dk (path_dir (join_path out name)) = None \<and> dk_WriteFile dk (join_path out name) = None")
    case True
    then have "write_files dk out fs (fmupd (join_path out name) c d) = (Some e, d')" using Cons.prems(1) by (simp add: f)
    then obtain pre name' c' post d1 cause where r: "fs = pre @ (name', c') # post"
        "write_files dk out pre (fmupd (join_path out name) c d) = (None, d1)"
        "e = Wrapf (''create directory for '' @ name') cause \<and> d' = d1 \<or> e = Wrapf (''write '' @ name') cause \<and> d' = fmdrop (join_path out name') d1"
      using Cons.IH by blast
    with True have "f # fs = (f # pre) @ (name', c') # post" "write_files dk out (f # pre) d = (None, d1)" by (simp_all add: f)
    with r(3) show ?thesis by blast
  next
    case False
    with Cons.prems(1) obtain cause where "e = Wrapf (''create directory for '' @ name) cause \<and> d' = d \<or>
        e = Wrapf (''write '' @ name) cause \<and> d' = fmdrop (join_path out name) d"
      by (auto simp: f Let_def split: option.splits)
    moreover have "f # fs = [] @ (name, c) # fs" "write_files dk out [] d = (None, d)" by (simp_all add: f)
    ultimately show ?thesis by blast
  qed
qed simp

text \<open>When generating the site succeeds, the ten files of the bundle are written with the catalogue
  and the templates, in whatever order they are visited, and nothing else changes; it succeeds when the
  file system refuses nothing; both places that carry the catalogue carry the same document, whose
  feeds are exactly those of the agencies its regions list.\<close>

lemma site_bundle_exact:
  assumes "range_order ord (bundle_files tp (siteConfig_json site_config))"
    and "tp_workerTS tp = a @ placeholder @ b" and "\<And>a'. strict_prefix a' a \<Longrightarrow> \<not> prefix placeholder (drop (length a') (a @ placeholder @ b))"
  shows "(\<forall>d'. Generate tp dk ord out d = (None, d') \<longrightarrow>
      (\<forall>name c. fmlookup (bundle_files tp (siteConfig_json site_config)) name = Some c \<longrightarrow> fmlookup d' (join_path out name) = Some c) \<and>
      (\<forall>p. p \<notin> join_path out ` fmdom' (bundle_files tp (siteConfig_json site_config)) \<longrightarrow> fmlookup d' p = fmlookup d p) \<and>
      fmlookup d' (join_path out ''worker.ts'') = Some [Lit a, Doc (siteConfig_json site_config), Lit b]) \<and>
    ((\<forall>p. dk_MkdirAll dk p = None \<and> dk_WriteFile dk p = None) \<longrightarrow> (\<exists>d'. Generate tp dk ord out d = (None, d'))) \<and>
    set (concat (map sr_Agencies (sc_Regions site_config))) = set (map sf_Agency (sc_Feeds site_config))"
proof -
  let ?files = "bundle_files tp (siteConfig_json site_config)"
  let ?es = "range_entries ord ?files"
  have keys: "distinct (map fst ?es)" using assms(1) range_keys_order [OF assms(1)] by (simp add: range_order_def)
  have worker: "fmlookup ?files ''worker.ts'' = Some [Lit a, Doc (siteConfig_json site_config), Lit b]"
    using cut_append [OF assms(3)] by (simp add: bundle_files_def bundle_list_def replace_first_def assms(2) fmlookup_of_list)
  have ok: "fmlookup d' (join_path out name) = Some c"
    if "Generate tp dk ord out d = (None, d')" "fmlookup ?files name = Some c" for d' name c
  proof -
    have "write_files dk out ?es d = (None, d')" using that(1) by (simp add: Generate_def Let_def split: option.splits)
    moreover have "(name, c) \<in> set ?es" using that(2) by (simp add: range_order_entries [OF assms(1)])
    ultimately show ?thesis using write_files_ok keys by blast
  qed
  have other: "fmlookup d' p = fmlookup d p"
    if "Generate tp dk ord out d = (None, d')" "p \<notin> join_path out ` fmdom' ?files" for d' p
  proof -
    have w: "write_files dk out ?es d = (None, d')" using that(1) by (simp add: Generate_def Let_def split: option.splits)
    have "fst ` set ?es = fmdom' ?files" using range_keys_order [OF assms(1)] assms(1) by (metis image_set range_order_def)
    with write_files_other [OF w] that(2) show ?thesis by simp
  qed
  have agencies: "set (concat (map sr_Agencies (sc_Regions site_config))) = set (map sf_Agency (sc_Feeds site_config))"
    using region_agencies_partition by (auto simp: site_config_def site_region_def site_feed_def AllRegions_def)
  show ?thesis
    using ok other ok [OF _ worker] agencies write_files_all [of dk out ?es d] by (auto simp: Generate_def Let_def)
qed

definition sample_templates :: templates where
  "sample_templates =
     \<lparr>tp_indexHTML = ''i'', tp_replayHTML = ''r'', tp_appCSS = ''c'', tp_appJS = ''a'', tp_replayJS = ''p'', tp_schemaSQL = ''s'',
      tp_wranglerJSONC = ''w'', tp_readmeMD = ''m'', tp_workerTS = placeholder @ '';''\<rparr>"

definition bundle_names :: "string list" where
  "bundle_names =
     [''public/index.html'', ''public/replay.html'', ''public/config.js'', ''public/app.css'', ''public/app.js'', ''public/replay.js'',
      ''schema.sql'', ''wrangler.jsonc'', ''README.md'', ''worker.ts'']"

lemma bundle_names_order: "range_order bundle_names (bundle_files tp doc)"
proof -
  have "map fst (bundle_list tp doc) = bundle_names" by (simp add: bundle_list_def bundle_names_def)
  then have "fmdom' (bundle_files tp doc) = set bundle_names" by (simp add: bundle_files_def fmdom'_alt_def fmdom_of_list fset_of_list.rep_eq flip: set_map)
  moreover have "distinct bundle_names" by (simp add: bundle_names_def)
  ultimately show ?thesis by (simp add: range_order_def)
qed

lemma site_bundle_exact_example:
  "\<exists>d'. Generate sample_templates \<lparr>dk_MkdirAll = (\<lambda>p. None), dk_WriteFile = (\<lambda>p. None)\<rparr> bundle_names ''dist'' fmempty = (None, d') \<and>
     fmlookup d' ''dist/worker.ts'' = Some [Lit [], Doc (siteConfig_json site_config), Lit '';'']"
proof -
  have w: "tp_workerTS sample_templates = [] @ placeholder @ '';''" by (simp add: sample_templates_def)
  have j: "join_path ''dist'' ''worker.ts'' = ''dist/worker.ts''" by (simp add: join_path_def)
  let ?dk = "\<lparr>dk_MkdirAll = (\<lambda>p. None), dk_WriteFile = (\<lambda>p. None)\<rparr>"
  have no: "\<not> prefix placeholder (drop (length a') ([] @ placeholder @ '';''))" if "strict_prefix a' []" for a' :: string using that by simp
  note all = site_bundle_exact [OF bundle_names_order w no, of ?dk "''dist''" fmempty]
  obtain d' where g: "Generate sample_templates ?dk bundle_names ''dist'' fmempty = (None, d')"
    using conjunct1 [OF conjunct2 [OF all]] by auto
  have "fmlookup d' (join_path ''dist'' ''worker.ts'') = Some [Lit [], Doc (siteConfig_json site_config), Lit '';'']"
    using conjunct1 [OF all] g by blast
  with g j show ?thesis by auto
qed

end
