(* ===== verification/Site_Proto.thy ===== *)
theory Site_Proto
  imports Proto_Wire Gtfs_Poller Site_Bundle "HOL-Library.Log_Nat"
begin

text \<open>
  The protocol-buffer reader of the generated worker (\<open>workerTS\<close> of \<open>internal/codexsites/templates.go\<close>):
  \<open>readVarint\<close>, \<open>protoFields\<close>, the field accessors and \<open>decodeGTFS\<close>, a port by hand of
  \<open>parseFeedMessage\<close> in \<open>internal/gtfs/poller.go\<close>.

  Byte arrays are strings, and the bytes still to be read stand for the offset into the array. A text of
  the program is kept as its UTF-8 bytes; \<open>TextDecoder\<close> is an argument, the identity on valid UTF-8. A
  thrown exception is \<open>Inl\<close> of its message. \<open>decodeGTFS\<close> is compared with the parser of the Go program
  on the bytes of a feed message.
\<close>

section \<open>JavaScript numbers\<close>

text \<open>The numbers the reader computes with: natural numbers, each the value of a double, and what a sum
  or product beyond the doubles gives. \<open>round_double\<close> rounds to 53 significant bits, halves to even.\<close>

datatype jsnum = Whole nat | Infinite | NotANumber

definition round_double :: "nat \<Rightarrow> jsnum" where
  "round_double n =
     (if n < 2 ^ 53 then Whole n
      else
        (let k = floorlog 2 n - 53; q = n div 2 ^ k; r = n mod 2 ^ k;
             q' = (if 2 ^ k < 2 * r \<or> 2 * r = 2 ^ k \<and> odd q then Suc q else q)
         in if q' * 2 ^ k < 2 ^ 1024 then Whole (q' * 2 ^ k) else Infinite))"

fun js_add :: "jsnum \<Rightarrow> jsnum \<Rightarrow> jsnum" where
  "js_add (Whole a) (Whole b) = round_double (a + b)"
| "js_add NotANumber b = NotANumber"
| "js_add a NotANumber = NotANumber"
| "js_add a b = Infinite"

fun js_mul :: "jsnum \<Rightarrow> jsnum \<Rightarrow> jsnum" where
  "js_mul (Whole a) (Whole b) = round_double (a * b)"
| "js_mul NotANumber b = NotANumber"
| "js_mul a NotANumber = NotANumber"
| "js_mul (Whole a) Infinite = (if a = 0 then NotANumber else Infinite)"
| "js_mul Infinite (Whole b) = (if b = 0 then NotANumber else Infinite)"
| "js_mul Infinite Infinite = Infinite"

text \<open>\<open>Math.pow(2, shift)\<close>, \<open>Math.floor(n / 8)\<close> and \<open>n & 7\<close>.\<close>

definition js_pow2 :: "nat \<Rightarrow> jsnum" where
  "js_pow2 shift = (if shift < 1024 then Whole (2 ^ shift) else Infinite)"

fun js_floor8 :: "jsnum \<Rightarrow> jsnum" where
  "js_floor8 (Whole n) = Whole (n div 8)"
| "js_floor8 n = n"

fun js_and7 :: "jsnum \<Rightarrow> nat" where
  "js_and7 (Whole n) = take_bit 3 n"
| "js_and7 n = 0"

section \<open>Reading fields\<close>

fun varint_loop :: "string \<Rightarrow> jsnum \<Rightarrow> nat \<Rightarrow> jsnum \<times> string" where
  "varint_loop [] acc shift = (acc, [])"
| "varint_loop (c # cs) acc shift =
     (let b = of_char c; acc' = js_add acc (js_mul (Whole (take_bit 7 b)) (js_pow2 shift))
      in if \<not> bit b 7 then (acc', cs) else varint_loop cs acc' (shift + 7))"

definition readVarint :: "string \<Rightarrow> jsnum \<times> string" where
  "readVarint bytes = varint_loop bytes (Whole 0) 0"

datatype proto_value = VNum jsnum | VBytes string

record proto_field =
  pf_field :: jsnum
  pf_wire :: nat
  pf_value :: proto_value

text \<open>\<open>bytes.slice(offset, offset + n)\<close> and what is left after it; a slice that ends at \<open>NaN\<close> is empty
  and the offset then ends the loop.\<close>

fun slice_num :: "jsnum \<Rightarrow> string \<Rightarrow> string \<times> string" where
  "slice_num (Whole n) bytes = (take n bytes, drop n bytes)"
| "slice_num Infinite bytes = (bytes, [])"
| "slice_num NotANumber bytes = ([], [])"

lemma varint_loop_length: "length (snd (varint_loop bytes acc shift)) \<le> length bytes - 1"
proof (induction bytes arbitrary: acc shift)
  case (Cons c cs)
  from le_trans [OF Cons.IH] show ?case by (simp add: Let_def)
qed simp

lemma readVarint_length: "readVarint bytes = (n, r) \<Longrightarrow> length r \<le> length bytes - 1"
  using varint_loop_length [of bytes "Whole 0" 0] by (simp add: readVarint_def)

lemma slice_num_length: "slice_num n bytes = (v, r) \<Longrightarrow> length r \<le> length bytes"
  by (cases n) auto

function protoFields :: "string \<Rightarrow> proto_field list" where
  "protoFields [] = []"
| "protoFields (c # cs) =
     (case readVarint (c # cs) of (tag, rest) \<Rightarrow>
        (let field = js_floor8 tag; wire = js_and7 tag in
         if wire = 0 then
           (case readVarint rest of (v, rest') \<Rightarrow> \<lparr>pf_field = field, pf_wire = wire, pf_value = VNum v\<rparr> # protoFields rest')
         else if wire = 1 then
           \<lparr>pf_field = field, pf_wire = wire, pf_value = VBytes (take 8 rest)\<rparr> # protoFields (drop 8 rest)
         else if wire = 2 then
           (case readVarint rest of (n, rest1) \<Rightarrow>
            (case slice_num n rest1 of (v, rest') \<Rightarrow> \<lparr>pf_field = field, pf_wire = wire, pf_value = VBytes v\<rparr> # protoFields rest'))
         else if wire = 5 then
           \<lparr>pf_field = field, pf_wire = wire, pf_value = VBytes (take 4 rest)\<rparr> # protoFields (drop 4 rest)
         else []))"
  by pat_completeness auto
termination
  by (relation "measure length") (fastforce dest!: readVarint_length [OF sym] slice_num_length [OF sym])+

definition find_field :: "nat \<Rightarrow> nat \<Rightarrow> proto_field list \<Rightarrow> proto_field option" where
  "find_field field wire fs = find (\<lambda>f. pf_field f = Whole field \<and> pf_wire f = wire) fs"

fun value_bytes :: "proto_value \<Rightarrow> string" where
  "value_bytes (VBytes b) = b"
| "value_bytes (VNum n) = []"

definition textField :: "(string \<Rightarrow> string) \<Rightarrow> string \<Rightarrow> nat \<Rightarrow> string" where
  "textField td bytes field =
     (case find_field field 2 (protoFields bytes) of None \<Rightarrow> [] | Some hit \<Rightarrow> td (value_bytes (pf_value hit)))"

definition bytesField :: "string \<Rightarrow> nat \<Rightarrow> string option" where
  "bytesField bytes field = map_option (\<lambda>hit. value_bytes (pf_value hit)) (find_field field 2 (protoFields bytes))"

text \<open>\<open>getFloat32\<close> of a 32-bit pattern, and a \<open>DataView\<close> on a slice that is too short.\<close>

definition float32 :: "nat \<Rightarrow> float64" where
  "float32 w =
     (let neg = bit w 31; e = take_bit 8 (drop_bit 23 w); m = take_bit 23 w;
          sgn = (if neg then -1 else 1) :: rat
      in if e = 255 then (if m \<noteq> 0 then NaN else if neg then NegInf else PosInf)
         else if e = 0 then Fin (sgn * of_nat m / 2 ^ 149)
         else Fin (sgn * of_nat (2 ^ 23 + m) * 2 ^ e / 2 ^ 150))"

type_synonym 'a js = "string + 'a"

definition floatField :: "string \<Rightarrow> nat \<Rightarrow> float64 js" where
  "floatField bytes field =
     (case find_field field 5 (protoFields bytes) of
        None \<Rightarrow> Inr (Fin 0)
      | Some hit \<Rightarrow>
          (let b = value_bytes (pf_value hit) in
           if length b < 4 then Inl ''Invalid DataView length 4'' else Inr (float32 (le_value b))))"

section \<open>Decoding a feed\<close>

text \<open>Instants are milliseconds; \<open>toISOString\<close> throws beyond \<open>8.64e15\<close> of them.\<close>

record Position =
  ps_id :: string
  ps_lat :: float64
  ps_lng :: float64
  ps_agency :: string
  ps_group :: string
  ps_route :: string
  ps_speed :: float64
  ps_bearing :: float64
  ps_timestamp :: int

fun js_date :: "jsnum \<Rightarrow> int js" where
  "js_date (Whole n) = (if n \<le> 8640000000000000 then Inr (int n) else Inl ''Invalid time acc'')"
| "js_date n = Inl ''Invalid time acc''"

definition position_time :: "int \<Rightarrow> string \<Rightarrow> int js" where
  "position_time now vehicleBytes =
     (case find_field 5 0 (protoFields vehicleBytes) of
        None \<Rightarrow> Inr now
      | Some f \<Rightarrow> (case pf_value f of VNum n \<Rightarrow> js_date (js_mul n (Whole 1000)) | VBytes b \<Rightarrow> Inl ''Invalid time acc''))"

text \<open>\<open>lat < 1 || lat > 7 || lng < 100 || lng > 119\<close>; no comparison holds of \<open>NaN\<close>.\<close>

definition out_of_bounds :: "float64 \<Rightarrow> float64 \<Rightarrow> bool" where
  "out_of_bounds lat lng \<longleftrightarrow>
     float_le lat (Fin 1) \<and> lat \<noteq> Fin 1 \<or> float_le (Fin 7) lat \<and> lat \<noteq> Fin 7 \<or>
     float_le lng (Fin 100) \<and> lng \<noteq> Fin 100 \<or> float_le (Fin 119) lng \<and> lng \<noteq> Fin 119"

definition worker_vehicle_id :: "(string \<Rightarrow> string) \<Rightarrow> string \<Rightarrow> string \<Rightarrow> string" where
  "worker_vehicle_id td entityID vehicleBytes =
     (case bytesField vehicleBytes 8 of
        None \<Rightarrow> entityID
      | Some d \<Rightarrow> (let t = textField td d 1 in if t \<noteq> [] then t else textField td d 2))"

definition build_position ::
  "(string \<Rightarrow> string) \<Rightarrow> siteFeed \<Rightarrow> int \<Rightarrow> string \<Rightarrow> float64 \<Rightarrow> float64 \<Rightarrow> string \<Rightarrow> string \<Rightarrow> Position js" where
  "build_position td feed now vehicleID lat lng vehicleBytes positionBytes =
     (case position_time now vehicleBytes of
        Inl e \<Rightarrow> Inl e
      | Inr ts \<Rightarrow>
     (case floatField positionBytes 3 of
        Inl e \<Rightarrow> Inl e
      | Inr bearing \<Rightarrow>
     (case floatField positionBytes 5 of
        Inl e \<Rightarrow> Inl e
      | Inr speed \<Rightarrow>
          Inr \<lparr>ps_id = sf_Agency feed @ '':'' @ vehicleID, ps_lat = lat, ps_lng = lng, ps_agency = sf_Agency feed,
            ps_group = sf_Group feed,
            ps_route = (case bytesField vehicleBytes 1 of None \<Rightarrow> [] | Some trip \<Rightarrow> textField td trip 5),
            ps_speed = speed, ps_bearing = bearing, ps_timestamp = ts\<rparr>)))"

text \<open>One turn of the loop: nothing, a position, or an exception; \<open>now\<close> is the clock.\<close>

definition decode_entity :: "(string \<Rightarrow> string) \<Rightarrow> siteFeed \<Rightarrow> int \<Rightarrow> string \<Rightarrow> Position option js" where
  "decode_entity td feed now entityBytes =
     (case bytesField entityBytes 4 of
        None \<Rightarrow> Inr None
      | Some vehicleBytes \<Rightarrow>
     (case bytesField vehicleBytes 2 of
        None \<Rightarrow> Inr None
      | Some positionBytes \<Rightarrow>
     (case floatField positionBytes 1 of
        Inl e \<Rightarrow> Inl e
      | Inr lat \<Rightarrow>
     (case floatField positionBytes 2 of
        Inl e \<Rightarrow> Inl e
      | Inr lng \<Rightarrow>
          (if out_of_bounds lat lng then Inr None
           else
             (let vehicleID = worker_vehicle_id td (textField td entityBytes 1) vehicleBytes in
              if vehicleID = [] then Inr None
              else map_sum id Some (build_position td feed now vehicleID lat lng vehicleBytes positionBytes)))))))"

fun decode_entities :: "(string \<Rightarrow> string) \<Rightarrow> siteFeed \<Rightarrow> (nat \<Rightarrow> int) \<Rightarrow> nat \<Rightarrow> string list \<Rightarrow> Position list js" where
  "decode_entities td feed now i [] = Inr []"
| "decode_entities td feed now i (b # bs) =
     (case decode_entity td feed (now i) b of
        Inl e \<Rightarrow> Inl e
      | Inr p \<Rightarrow>
          (case decode_entities td feed now (Suc i) bs of
             Inl e \<Rightarrow> Inl e
           | Inr ps \<Rightarrow> Inr (case p of None \<Rightarrow> ps | Some q \<Rightarrow> q # ps)))"

definition entity_fields :: "string \<Rightarrow> string list" where
  "entity_fields data = map (\<lambda>f. value_bytes (pf_value f)) (filter (\<lambda>f. pf_field f = Whole 2 \<and> pf_wire f = 2) (protoFields data))"

definition decodeGTFS :: "(string \<Rightarrow> string) \<Rightarrow> (nat \<Rightarrow> int) \<Rightarrow> string \<Rightarrow> siteFeed \<Rightarrow> Position list js" where
  "decodeGTFS td now bytes feed = decode_entities td feed now 0 (entity_fields bytes)"

section \<open>Reading back what protocol buffers write\<close>

lemma round_small: "n < 2 ^ 53 \<Longrightarrow> round_double n = Whole n"
  by (simp add: round_double_def)

lemma varint_loop_varint:
  "shift < 53 \<Longrightarrow> acc + n * 2 ^ shift < 2 ^ 53 \<Longrightarrow>
   varint_loop (varint n @ r) (Whole acc) shift = (Whole (acc + n * 2 ^ shift), r)"
proof (induction n arbitrary: acc shift rule: varint.induct)
  case (1 n)
  have step: "js_add (Whole acc) (js_mul (Whole (n mod 128)) (js_pow2 shift)) = Whole (acc + n mod 128 * 2 ^ shift)"
  proof -
    have "n mod 128 * 2 ^ shift \<le> n * 2 ^ shift" by simp
    then have "acc + n mod 128 * 2 ^ shift < 2 ^ 53" "n mod 128 * 2 ^ shift < 2 ^ 53" using "1.prems"(2) by linarith+
    then show ?thesis using "1.prems"(1) by (simp add: js_pow2_def round_small)
  qed
  show ?case
  proof (cases "n < 128")
    case True
    then show ?thesis using step
      by (simp add: varint.simps [of n] Let_def take_bit_eq_mod bit_iff_odd)
  next
    case False
    have sum: "acc + n mod 128 * 2 ^ shift + n div 128 * 2 ^ (shift + 7) = acc + n * 2 ^ shift"
    proof -
      have "n * 2 ^ shift = (n mod 128 + n div 128 * 128) * 2 ^ shift" by (simp only: mod_div_mult_eq)
      then show ?thesis by (simp only: power_add add_mult_distrib) simp
    qed
    have "(2 :: nat) ^ (shift + 7) \<le> n * 2 ^ shift" using False by (simp add: power_add)
    then have "(2 :: nat) ^ (shift + 7) < 2 ^ 53" using "1.prems"(2) by linarith
    then have "shift + 7 < 53" by (simp only: power_strict_increasing_iff)
    from "1.IH" [OF False this, of "acc + n mod 128 * 2 ^ shift"] sum "1.prems"(2)
    have "varint_loop (varint (n div 128) @ r) (Whole (acc + n mod 128 * 2 ^ shift)) (shift + 7) = (Whole (acc + n * 2 ^ shift), r)"
      by simp
    moreover have "take_bit 7 (128 + n mod 128) = n mod 128" "bit (128 + n mod 128) 7"
      by (simp_all add: take_bit_eq_mod bit_iff_odd)
    moreover have "(128 + n mod 128) mod 256 = 128 + n mod 128"
      by (simp add: mod_less)
    ultimately show ?thesis using False step
      by (subst varint.simps) (simp add: Let_def del: power_Suc)
  qed
qed

lemma readVarint_varint: "n < 2 ^ 53 \<Longrightarrow> readVarint (varint n @ r) = (Whole n, r)"
  using varint_loop_varint [of 0 0 n r] by (simp add: readVarint_def)

text \<open>The bytes of a field, and the field the reader makes of them.\<close>

fun item_bytes :: "wire_field \<Rightarrow> string" where
  "item_bytes (WVarint f n) = varint (8 * f) @ varint n"
| "item_bytes (WFixed64 f n) = varint (8 * f + 1) @ le_bytes 8 n"
| "item_bytes (WBytes f b) = varint (8 * f + 2) @ varint (length b) @ b"
| "item_bytes (WFixed32 f n) = varint (8 * f + 5) @ le_bytes 4 n"

fun item_field :: "wire_field \<Rightarrow> proto_field" where
  "item_field (WVarint f n) = \<lparr>pf_field = Whole f, pf_wire = 0, pf_value = VNum (Whole n)\<rparr>"
| "item_field (WFixed64 f n) = \<lparr>pf_field = Whole f, pf_wire = 1, pf_value = VBytes (le_bytes 8 n)\<rparr>"
| "item_field (WBytes f b) = \<lparr>pf_field = Whole f, pf_wire = 2, pf_value = VBytes b\<rparr>"
| "item_field (WFixed32 f n) = \<lparr>pf_field = Whole f, pf_wire = 5, pf_value = VBytes (le_bytes 4 n)\<rparr>"

fun item_ok :: "wire_field \<Rightarrow> bool" where
  "item_ok (WVarint f n) \<longleftrightarrow> f < 2 ^ 29 \<and> n < 2 ^ 53"
| "item_ok (WFixed64 f n) \<longleftrightarrow> f < 2 ^ 29"
| "item_ok (WBytes f b) \<longleftrightarrow> f < 2 ^ 29 \<and> length b < 2 ^ 53"
| "item_ok (WFixed32 f n) \<longleftrightarrow> f < 2 ^ 29"

definition message :: "wire_field list \<Rightarrow> string" where
  "message items = concat (map item_bytes items)"

lemma protoFields_nonempty:
  "bytes \<noteq> [] \<Longrightarrow> protoFields bytes =
     (case readVarint bytes of (tag, rest) \<Rightarrow>
        (let field = js_floor8 tag; wire = js_and7 tag in
         if wire = 0 then
           (case readVarint rest of (v, rest') \<Rightarrow> \<lparr>pf_field = field, pf_wire = wire, pf_value = VNum v\<rparr> # protoFields rest')
         else if wire = 1 then
           \<lparr>pf_field = field, pf_wire = wire, pf_value = VBytes (take 8 rest)\<rparr> # protoFields (drop 8 rest)
         else if wire = 2 then
           (case readVarint rest of (n, rest1) \<Rightarrow>
            (case slice_num n rest1 of (v, rest') \<Rightarrow> \<lparr>pf_field = field, pf_wire = wire, pf_value = VBytes v\<rparr> # protoFields rest'))
         else if wire = 5 then
           \<lparr>pf_field = field, pf_wire = wire, pf_value = VBytes (take 4 rest)\<rparr> # protoFields (drop 4 rest)
         else []))"
  by (cases bytes) simp_all

lemma read_tag: "f < 2 ^ 29 \<Longrightarrow> k < 8 \<Longrightarrow> readVarint (varint (8 * f + k) @ r) = (Whole (8 * f + k), r)"
  by (rule readVarint_varint) simp

lemma protoFields_item:
  assumes "item_ok x"
  shows "protoFields (item_bytes x @ r) = item_field x # protoFields r"
proof (cases x)
  case (WVarint f n)
  with assms read_tag [of f 0 "varint n @ r"] show ?thesis
    by (simp add: protoFields_nonempty varint_nonempty readVarint_varint take_bit_eq_mod Let_def)
next
  case (WFixed64 f n)
  with assms read_tag [of f 1 "le_bytes 8 n @ r"] show ?thesis
    by (simp add: protoFields_nonempty varint_nonempty take_bit_eq_mod Let_def del: le_bytes.simps)
next
  case (WBytes f b)
  with assms read_tag [of f 2 "varint (length b) @ b @ r"] show ?thesis
    by (simp add: protoFields_nonempty varint_nonempty readVarint_varint take_bit_eq_mod Let_def del: add_2_eq_Suc')
next
  case (WFixed32 f n)
  with assms read_tag [of f 5 "le_bytes 4 n @ r"] show ?thesis
    by (simp add: protoFields_nonempty varint_nonempty take_bit_eq_mod Let_def del: le_bytes.simps)
qed

text \<open>Whatever fields a message has, the reader gives them back in order.\<close>

lemma protoFields_message: "list_all item_ok items \<Longrightarrow> protoFields (message items) = map item_field items"
  by (induction items) (simp_all add: message_def protoFields_item)

section \<open>The bytes of a feed message\<close>

text \<open>A vehicle position as a feed publishes it, with the field numbers of GTFS-Realtime; a floating-point
  field is its 32-bit pattern.\<close>

record wire_position =
  wp_lat :: "32 word"
  wp_lng :: "32 word"
  wp_bearing :: "32 word option"
  wp_speed :: "32 word option"

record wire_vehicle =
  wv_trip :: "(string \<times> string) option"
  wv_position :: "wire_position option"
  wv_timestamp :: "nat option"
  wv_descriptor :: "(string \<times> string) option"

record wire_entity =
  wn_id :: string
  wn_vehicle :: "wire_vehicle option"

definition opt_item :: "('a \<Rightarrow> wire_field) \<Rightarrow> 'a option \<Rightarrow> wire_field list" where
  "opt_item f x = (case x of None \<Rightarrow> [] | Some v \<Rightarrow> [f v])"

definition position_items :: "wire_position \<Rightarrow> wire_field list" where
  "position_items p =
     [WFixed32 1 (unat (wp_lat p)), WFixed32 2 (unat (wp_lng p))] @
     opt_item (\<lambda>w. WFixed32 3 (unat w)) (wp_bearing p) @ opt_item (\<lambda>w. WFixed32 5 (unat w)) (wp_speed p)"

definition vehicle_items :: "wire_vehicle \<Rightarrow> wire_field list" where
  "vehicle_items v =
     opt_item (\<lambda>(t, r). WBytes 1 (message [WBytes 1 t, WBytes 5 r])) (wv_trip v) @
     opt_item (\<lambda>p. WBytes 2 (message (position_items p))) (wv_position v) @
     opt_item (WVarint 5) (wv_timestamp v) @
     opt_item (\<lambda>(i, l). WBytes 8 (message [WBytes 1 i, WBytes 2 l])) (wv_descriptor v)"

definition entity_items :: "wire_entity \<Rightarrow> wire_field list" where
  "entity_items e = WBytes 1 (wn_id e) # opt_item (\<lambda>v. WBytes 4 (message (vehicle_items v))) (wn_vehicle e)"

definition feed_message :: "string \<Rightarrow> wire_entity list \<Rightarrow> string" where
  "feed_message header es = message (WBytes 1 header # map (\<lambda>e. WBytes 2 (message (entity_items e))) es)"

text \<open>What the Go program's decoder makes of it.\<close>

definition opt_float :: "32 word option \<Rightarrow> float64" where
  "opt_float x = (case x of None \<Rightarrow> Fin 0 | Some w \<Rightarrow> float32 (unat w))"

definition pb_position :: "wire_position \<Rightarrow> PbPosition" where
  "pb_position p = \<lparr>pb_Latitude = float32 (unat (wp_lat p)), pb_Longitude = float32 (unat (wp_lng p)),
     pb_Bearing = opt_float (wp_bearing p), pb_Speed = opt_float (wp_speed p)\<rparr>"

definition pb_vehicle :: "wire_vehicle \<Rightarrow> PbVehicle" where
  "pb_vehicle v = \<lparr>pv_Trip = wv_trip v, pv_Descriptor = wv_descriptor v, pv_Position = map_option pb_position (wv_position v),
     pv_Timestamp = map_option int (wv_timestamp v)\<rparr>"

definition pb_entity :: "wire_entity \<Rightarrow> Entity" where
  "pb_entity e = \<lparr>en_Id = wn_id e, en_Vehicle = map_option pb_vehicle (wn_vehicle e)\<rparr>"

text \<open>The conditions under which both read the same: the message has a length a double can hold, its texts
  decode to themselves, its timestamps are dates, no coordinate is NaN, and a vehicle descriptor
  names the vehicle.\<close>

definition vehicle_texts :: "wire_vehicle \<Rightarrow> string list" where
  "vehicle_texts v =
     (case wv_trip v of None \<Rightarrow> [] | Some (t, r) \<Rightarrow> [r]) @ (case wv_descriptor v of None \<Rightarrow> [] | Some (i, l) \<Rightarrow> [i, l])"

definition dated :: "wire_vehicle \<Rightarrow> bool" where
  "dated v \<longleftrightarrow> (case wv_timestamp v of None \<Rightarrow> True | Some n \<Rightarrow> n \<le> 8640000000000)"

definition plain_vehicle :: "wire_vehicle \<Rightarrow> bool" where
  "plain_vehicle v \<longleftrightarrow> dated v \<and>
     (case wv_position v of None \<Rightarrow> True | Some p \<Rightarrow> float32 (unat (wp_lat p)) \<noteq> NaN \<and> float32 (unat (wp_lng p)) \<noteq> NaN) \<and>
     wv_descriptor v \<noteq> Some ([], [])"

definition entity_texts :: "wire_entity \<Rightarrow> string list" where
  "entity_texts e = wn_id e # (case wn_vehicle e of None \<Rightarrow> [] | Some v \<Rightarrow> vehicle_texts v)"

definition plain_entity :: "wire_entity \<Rightarrow> bool" where
  "plain_entity e \<longleftrightarrow> (case wn_vehicle e of None \<Rightarrow> True | Some v \<Rightarrow> plain_vehicle v)"

definition site_position :: "Feed \<Rightarrow> VehiclePosition \<Rightarrow> Position" where
  "site_position feed p =
     \<lparr>ps_id = vp_Agency p @ '':'' @ vp_VehicleID p, ps_lat = vp_Lat p, ps_lng = vp_Lng p, ps_agency = vp_Agency p,
      ps_group = fd_Group feed, ps_route = vp_Route p, ps_speed = vp_Speed p, ps_bearing = vp_Bearing p,
      ps_timestamp = vp_Timestamp p div 1000000\<rparr>"

lemma pb_simps [simp]:
  "en_Id (pb_entity e) = wn_id e" "en_Vehicle (pb_entity e) = map_option pb_vehicle (wn_vehicle e)"
  "pv_Trip (pb_vehicle v) = wv_trip v" "pv_Descriptor (pb_vehicle v) = wv_descriptor v"
  "pv_Position (pb_vehicle v) = map_option pb_position (wv_position v)" "pv_Timestamp (pb_vehicle v) = map_option int (wv_timestamp v)"
  "pb_Latitude (pb_position p) = float32 (unat (wp_lat p))" "pb_Longitude (pb_position p) = float32 (unat (wp_lng p))"
  "pb_Bearing (pb_position p) = opt_float (wp_bearing p)" "pb_Speed (pb_position p) = opt_float (wp_speed p)"
  by (simp_all add: pb_entity_def pb_vehicle_def pb_position_def)

lemma item_in_message: "x \<in> set items \<Longrightarrow> length (item_bytes x) \<le> length (message items)"
  by (induction items) (auto simp: message_def)

lemma nested_shorter: "WBytes f b \<in> set items \<Longrightarrow> length (message items) < n \<Longrightarrow> length b < n"
  using item_in_message [of "WBytes f b" items] by simp

lemma bounds_agree:
  "lat \<noteq> NaN \<Longrightarrow> lng \<noteq> NaN \<Longrightarrow> out_of_bounds lat lng \<longleftrightarrow> \<not> ValidMalaysiaBounds lat lng"
  by (cases lat; cases lng) (auto simp: out_of_bounds_def ValidMalaysiaBounds_def minLat_def maxLat_def minLng_def maxLng_def)

lemma float_bytes [simp]: "float32 (le_value (le_bytes 4 (unat (w :: 32 word)))) = float32 (unat w)"
proof -
  have "unat w < 256 ^ 4" using unsigned_less [of w, where ?'a = nat] by simp
  then show ?thesis by (simp only: le_value_bytes mod_less)
qed

lemma find_field_simps [simp]:
  "find_field f k [] = None"
  "find_field f k (x # xs) = (if pf_field x = Whole f \<and> pf_wire x = k then Some x else find_field f k xs)"
  by (simp_all add: find_field_def)

lemma position_fields: "protoFields (message (position_items p)) = map item_field (position_items p)"
  by (rule protoFields_message) (simp add: position_items_def opt_item_def split: option.splits)

lemma position_floats:
  "floatField (message (position_items p)) 1 = Inr (float32 (unat (wp_lat p)))"
  "floatField (message (position_items p)) 2 = Inr (float32 (unat (wp_lng p)))"
  "floatField (message (position_items p)) 3 = Inr (opt_float (wp_bearing p))"
  "floatField (message (position_items p)) 5 = Inr (opt_float (wp_speed p))"
  unfolding floatField_def position_fields
  by (cases "wp_bearing p"; cases "wp_speed p"; simp add: position_items_def opt_item_def opt_float_def Let_def del: le_bytes.simps)+

lemma pair_texts:
  assumes "length (message [WBytes 1 a, WBytes f b]) < 2 ^ 53" "f < 2 ^ 29" "f \<noteq> 1"
  shows "textField td (message [WBytes 1 a, WBytes f b]) 1 = td a" "textField td (message [WBytes 1 a, WBytes f b]) f = td b"
proof -
  have "list_all item_ok [WBytes 1 a, WBytes f b]"
    using assms nested_shorter [of 1 a "[WBytes 1 a, WBytes f b]"] nested_shorter [of f b "[WBytes 1 a, WBytes f b]"] by simp
  from protoFields_message [OF this]
  show "textField td (message [WBytes 1 a, WBytes f b]) 1 = td a" "textField td (message [WBytes 1 a, WBytes f b]) f = td b"
    using assms(3) by (simp_all add: textField_def)
qed

lemma vehicle_fields:
  assumes "length (message (vehicle_items v)) < 2 ^ 53" "dated v"
  shows "protoFields (message (vehicle_items v)) = map item_field (vehicle_items v)"
proof (rule protoFields_message)
  have len: "length b < 2 ^ 53" if "WBytes f b \<in> set (vehicle_items v)" for f b
    using nested_shorter [OF that assms(1)] .
  have "item_ok x" if x: "x \<in> set (vehicle_items v)" for x
  proof (cases x)
    case (WBytes f b)
    with x len [of f b] show ?thesis by (auto simp: vehicle_items_def opt_item_def split: option.splits)
  qed (use x assms(2) in \<open>auto simp: vehicle_items_def opt_item_def dated_def split: option.splits\<close>)
  then show "list_all item_ok (vehicle_items v)" by (simp add: list_all_iff)
qed

lemma vehicle_parts:
  assumes "length (message (vehicle_items v)) < 2 ^ 53" "dated v"
  shows "bytesField (message (vehicle_items v)) 1 = map_option (\<lambda>(t, r). message [WBytes 1 t, WBytes 5 r]) (wv_trip v)"
    "bytesField (message (vehicle_items v)) 2 = map_option (\<lambda>p. message (position_items p)) (wv_position v)"
    "bytesField (message (vehicle_items v)) 8 = map_option (\<lambda>(i, l). message [WBytes 1 i, WBytes 2 l]) (wv_descriptor v)"
    "position_time now (message (vehicle_items v)) = Inr (case wv_timestamp v of None \<Rightarrow> now | Some n \<Rightarrow> 1000 * int n)"
  unfolding bytesField_def position_time_def vehicle_fields [OF assms]
  using assms(2) by (auto simp: vehicle_items_def opt_item_def dated_def round_small split: option.splits)

lemma vehicle_id_agrees:
  assumes "length (message (vehicle_items v)) < 2 ^ 53" "dated v" "wv_descriptor v \<noteq> Some ([], [])" "\<forall>s\<in>set (vehicle_texts v). td s = s"
  shows "worker_vehicle_id td (wn_id e) (message (vehicle_items v)) = entity_vehicle_id (pb_entity e) (pb_vehicle v)"
proof (cases "wv_descriptor v")
  case (Some d)
  obtain i l where d: "d = (i, l)" by fastforce
  have "length (message [WBytes 1 i, WBytes 2 l]) < 2 ^ 53"
    by (rule nested_shorter [OF _ assms(1), of 8]) (simp add: vehicle_items_def opt_item_def Some d)
  from pair_texts [OF this] vehicle_parts(3) [OF assms(1,2)] assms(3,4) show ?thesis
    by (auto simp: worker_vehicle_id_def entity_vehicle_id_def vehicle_texts_def Some d Let_def)
qed (use vehicle_parts(3) [OF assms(1,2)] in \<open>simp add: worker_vehicle_id_def entity_vehicle_id_def\<close>)

lemma route_agrees:
  assumes "length (message (vehicle_items v)) < 2 ^ 53" "dated v" "\<forall>s\<in>set (vehicle_texts v). td s = s"
  shows "(case bytesField (message (vehicle_items v)) 1 of None \<Rightarrow> [] | Some trip \<Rightarrow> textField td trip 5) =
    (case wv_trip v of None \<Rightarrow> [] | Some (t, r) \<Rightarrow> r)"
proof (cases "wv_trip v")
  case (Some d)
  obtain t r where d: "d = (t, r)" by fastforce
  have "length (message [WBytes 1 t, WBytes 5 r]) < 2 ^ 53"
    by (rule nested_shorter [OF _ assms(1), of 1]) (simp add: vehicle_items_def opt_item_def Some d)
  from pair_texts [OF this] vehicle_parts(1) [OF assms(1,2)] assms(3) show ?thesis
    by (simp add: vehicle_texts_def Some d)
qed (use vehicle_parts(1) [OF assms(1,2)] in simp)

lemma entity_parts:
  assumes "length (message (entity_items e)) < 2 ^ 53"
  shows "textField td (message (entity_items e)) 1 = td (wn_id e)"
    "bytesField (message (entity_items e)) 4 = map_option (\<lambda>v. message (vehicle_items v)) (wn_vehicle e)"
proof -
  have "item_ok x" if x: "x \<in> set (entity_items e)" for x
  proof (cases x)
    case (WBytes f b)
    with x nested_shorter [of f b, OF _ assms] show ?thesis by (auto simp: entity_items_def opt_item_def split: option.splits)
  qed (use x in \<open>auto simp: entity_items_def opt_item_def split: option.splits\<close>)
  then have "protoFields (message (entity_items e)) = map item_field (entity_items e)"
    by (intro protoFields_message) (simp add: list_all_iff)
  then show "textField td (message (entity_items e)) 1 = td (wn_id e)"
    "bytesField (message (entity_items e)) 4 = map_option (\<lambda>v. message (vehicle_items v)) (wn_vehicle e)"
    by (simp_all add: textField_def bytesField_def entity_items_def opt_item_def split: option.splits)
qed

text \<open>The position the Go program makes of one entity, if it makes one.\<close>

definition go_entity :: "Feed \<Rightarrow> time \<Rightarrow> Entity \<Rightarrow> VehiclePosition option" where
  "go_entity feed now en =
     (case en_Vehicle en of None \<Rightarrow> None
      | Some vp \<Rightarrow> (case pv_Position vp of None \<Rightarrow> None
        | Some pos \<Rightarrow>
            (if \<not> ValidMalaysiaBounds (pb_Latitude pos) (pb_Longitude pos) \<or> entity_vehicle_id en vp = [] then None
             else Some (entity_position feed now en vp pos))))"

lemma parse_entities_Cons:
  "fst (parse_entities feed now i (en # ens)) =
     (case go_entity feed (now i) en of None \<Rightarrow> id | Some p \<Rightarrow> Cons p) (fst (parse_entities feed now (Suc i) ens))"
  by (auto simp: go_entity_def Let_def case_prod_beta split: option.splits)

lemma build_agrees:
  assumes "length (message (vehicle_items v)) < 2 ^ 53" "dated v" "\<forall>s\<in>set (vehicle_texts v). td s = s"
  shows "build_position td (site_feed feed) now (entity_vehicle_id (pb_entity e) (pb_vehicle v))
      (float32 (unat (wp_lat p))) (float32 (unat (wp_lng p))) (message (vehicle_items v)) (message (position_items p)) =
    Inr (site_position feed (entity_position feed (1000000 * now) (pb_entity e) (pb_vehicle v) (pb_position p)))"
proof -
  have time: "(case wv_timestamp v of None \<Rightarrow> now | Some n \<Rightarrow> 1000 * int n) = entity_time (1000000 * now) (pb_vehicle v) div 1000000"
    using assms(2) by (auto simp: entity_time_def dated_def time_Unix_def wrap64_small go_consts split: option.splits)
  show ?thesis
    unfolding build_position_def route_agrees [OF assms]
    unfolding vehicle_parts [OF assms(1,2)] position_floats time
    by (simp add: site_position_def entity_position_def site_feed_def)
qed

lemma decode_entity_agrees:
  assumes len: "length (message (entity_items e)) < 2 ^ 53" and ok: "plain_entity e" and td: "\<forall>s\<in>set (entity_texts e). td s = s"
  shows "decode_entity td (site_feed feed) now (message (entity_items e)) =
    Inr (map_option (site_position feed) (go_entity feed (1000000 * now) (pb_entity e)))"
proof (cases "wn_vehicle e")
  case None
  then show ?thesis by (simp add: decode_entity_def entity_parts [OF len] go_entity_def)
next
  case (Some v)
  have vlen: "length (message (vehicle_items v)) < 2 ^ 53"
    by (rule nested_shorter [OF _ len, of 4]) (simp add: entity_items_def opt_item_def Some)
  have vok: "dated v" "plain_vehicle v" and vtd: "\<forall>s\<in>set (vehicle_texts v). td s = s" and id: "td (wn_id e) = wn_id e"
    using ok td by (auto simp: plain_entity_def entity_texts_def plain_vehicle_def Some)
  have "wv_descriptor v \<noteq> Some ([], [])" using vok by (simp add: plain_vehicle_def)
  note parts = entity_parts [OF len] vehicle_parts [OF vlen vok(1)] position_floats vehicle_id_agrees [OF vlen vok(1) this vtd] id
  show ?thesis
  proof (cases "wv_position v")
    case None
    then show ?thesis by (simp add: decode_entity_def parts Some go_entity_def)
  next
    case (Some p)
    have nan: "float32 (unat (wp_lat p)) \<noteq> NaN" "float32 (unat (wp_lng p)) \<noteq> NaN"
      using vok(2) by (simp_all add: plain_vehicle_def Some)
    show ?thesis
      using Some \<open>wn_vehicle e = Some v\<close> nan build_agrees [OF vlen vok(1) vtd]
      by (simp add: decode_entity_def parts go_entity_def bounds_agree del: One_nat_def)
  qed
qed

lemma feed_entities:
  assumes "length (feed_message header es) < 2 ^ 53"
  shows "entity_fields (feed_message header es) = map (\<lambda>e. message (entity_items e)) es"
proof -
  let ?items = "WBytes 1 header # map (\<lambda>e. WBytes 2 (message (entity_items e))) es"
  have "item_ok x" if x: "x \<in> set ?items" for x
  proof (cases x)
    case (WBytes f b)
    with x nested_shorter [of f b ?items, OF _ assms [unfolded feed_message_def]] show ?thesis by auto
  qed (use x in auto)
  then have "protoFields (feed_message header es) = map item_field ?items"
    unfolding feed_message_def by (intro protoFields_message) (simp only: list_all_iff, blast)
  then show ?thesis by (simp add: entity_fields_def filter_map o_def)
qed

lemma decode_entities_agree:
  assumes "\<forall>e\<in>set es. length (message (entity_items e)) < 2 ^ 53 \<and> plain_entity e \<and> (\<forall>s\<in>set (entity_texts e). td s = s)"
  shows "decode_entities td (site_feed feed) now i (map (\<lambda>e. message (entity_items e)) es) =
    Inr (map (site_position feed) (fst (parse_entities feed (\<lambda>i. 1000000 * now i) i (map pb_entity es))))"
  using assms
proof (induction es arbitrary: i)
  case (Cons e es)
  then show ?case
    unfolding list.map parse_entities_Cons
    by (auto simp: decode_entity_agrees split: option.splits)
qed simp

text \<open>C12: on the bytes of a feed message whose texts are valid, whose timestamps are dates, which has no
  coordinate that is NaN and no vehicle descriptor without id and label, the worker's hand-written reader
  returns exactly the positions of the Go parser, in order, with the same identifiers, coordinates, routes and
  instants to the millisecond.\<close>

theorem worker_decoder_agrees:
  assumes "length (feed_message header es) < 2 ^ 53"
    and "\<forall>e\<in>set es. plain_entity e \<and> (\<forall>s\<in>set (entity_texts e). td s = s)"
    and "decode (feed_message header es) = Inr (map pb_entity es)"
  shows "\<exists>ps sk. parseFeedMessage decode (\<lambda>i. 1000000 * now i) feed (feed_message header es) = Inr (ps, sk) \<and>
    decodeGTFS td now (feed_message header es) (site_feed feed) = Inr (map (site_position feed) ps)"
proof -
  have "length (message (entity_items e)) < 2 ^ 53" if "e \<in> set es" for e
    by (rule nested_shorter [OF _ assms(1) [unfolded feed_message_def], of 2]) (use that in auto)
  with assms(2) have "\<forall>e\<in>set es. length (message (entity_items e)) < 2 ^ 53 \<and> plain_entity e \<and> (\<forall>s\<in>set (entity_texts e). td s = s)"
    by blast
  from decode_entities_agree [OF this, of feed now 0] show ?thesis
    using assms(3) by (auto simp: decodeGTFS_def feed_entities [OF assms(1)] parseFeedMessage_def) (metis fst_conv surj_pair)
qed

text \<open>An entity at longitude 101 with a given latitude and descriptor.\<close>

definition sample_site_entity :: "32 word \<Rightarrow> (string \<times> string) option \<Rightarrow> wire_entity" where
  "sample_site_entity lat d = \<lparr>wn_id = ''e1'', wn_vehicle = Some \<lparr>wv_trip = Some (''t'', ''r''),
     wv_position = Some \<lparr>wp_lat = lat, wp_lng = 0x42CA0000, wp_bearing = None, wp_speed = None\<rparr>,
     wv_timestamp = Some 1, wv_descriptor = d\<rparr>\<rparr>"

definition sample_site_feed :: Feed where
  "sample_site_feed = \<lparr>fd_Agency = ''ktmb'', fd_URL = [], fd_Category = [], fd_Type = [], fd_Region = [], fd_Group = ''ktmb'', fd_BucketID = []\<rparr>"

lemma float32_samples [simp]: "float32 0x40400000 = Fin 3" "float32 0x42CA0000 = Fin 101"
  by (simp_all add: float32_def bit_iff_odd take_bit_eq_mod drop_bit_eq_div Let_def)

lemma sample_site_entity_plain: "plain_entity (sample_site_entity 0x40400000 (Some (''v'', [])))"
  by (simp add: plain_entity_def plain_vehicle_def dated_def sample_site_entity_def)

lemma sample_message_short: "length (feed_message ''h'' [sample_site_entity 0x40400000 (Some (''v'', []))]) < 2 ^ 53"
  by (simp add: feed_message_def message_def entity_items_def vehicle_items_def position_items_def opt_item_def sample_site_entity_def
      varint.simps [of 0] varint.simps [of "numeral k" for k] varint.simps [of "Suc k" for k] del: le_bytes.simps)

theorem worker_decoder_agrees_witness:
  "\<exists>ps sk. parseFeedMessage (\<lambda>b. Inr [pb_entity (sample_site_entity 0x40400000 (Some (''v'', [])))]) (\<lambda>i. 0) sample_site_feed
       (feed_message ''h'' [sample_site_entity 0x40400000 (Some (''v'', []))]) = Inr (ps, sk) \<and> length ps = 1 \<and>
     decodeGTFS (\<lambda>s. s) (\<lambda>i. 0) (feed_message ''h'' [sample_site_entity 0x40400000 (Some (''v'', []))]) (site_feed sample_site_feed) =
       Inr (map (site_position sample_site_feed) ps)"
proof -
  have "length (fst (parse_entities sample_site_feed (\<lambda>i. 0) 0 [pb_entity (sample_site_entity 0x40400000 (Some (''v'', [])))])) = 1"
    unfolding parse_entities_Cons
    by (simp add: go_entity_def sample_site_entity_def entity_vehicle_id_def ValidMalaysiaBounds_def minLat_def maxLat_def minLng_def maxLng_def)
  then show ?thesis
    using worker_decoder_agrees [of "''h''" "[sample_site_entity 0x40400000 (Some (''v'', []))]" "\<lambda>s. s"
        "\<lambda>b. Inr [pb_entity (sample_site_entity 0x40400000 (Some (''v'', [])))]" "\<lambda>i. 0" sample_site_feed]
      sample_message_short sample_site_entity_plain
    by (auto simp: parseFeedMessage_def)
qed

text \<open>Where the two differ: a NaN latitude is outside Malaysia for the Go parser and accepted by the
  worker; a vehicle with an empty descriptor is named after its entity by the Go parser and dropped by
  the worker.\<close>

lemma worker_accepts_nan:
  assumes "length (message (entity_items e)) < 2 ^ 53" "\<forall>s\<in>set (entity_texts e). td s = s"
    and "wn_vehicle e = Some v" "dated v" "wv_descriptor v \<noteq> Some ([], [])" "entity_vehicle_id (pb_entity e) (pb_vehicle v) \<noteq> []"
    and "wv_position v = Some p" "float32 (unat (wp_lat p)) = NaN" "float32 (unat (wp_lng p)) = Fin 101"
  shows "go_entity feed t (pb_entity e) = None"
    "\<exists>q. decode_entity td (site_feed feed) now (message (entity_items e)) = Inr (Some q) \<and> ps_lat q = NaN"
proof -
  show "go_entity feed t (pb_entity e) = None"
    using assms by (simp add: go_entity_def ValidMalaysiaBounds_def minLat_def)
  have vlen: "length (message (vehicle_items v)) < 2 ^ 53"
    by (rule nested_shorter [OF _ assms(1), of 4]) (simp add: entity_items_def opt_item_def assms(3))
  have td: "\<forall>s\<in>set (vehicle_texts v). td s = s" "td (wn_id e) = wn_id e"
    using assms(2,3) by (auto simp: entity_texts_def)
  show "\<exists>q. decode_entity td (site_feed feed) now (message (entity_items e)) = Inr (Some q) \<and> ps_lat q = NaN"
    using assms(3-9) build_agrees [OF vlen assms(4) td(1), of feed now e p] td(2)
    by (simp add: decode_entity_def entity_parts [OF assms(1)] vehicle_parts [OF vlen assms(4)] position_floats
        vehicle_id_agrees [OF vlen assms(4,5) td(1)] out_of_bounds_def site_position_def entity_position_def del: One_nat_def)
qed

lemma worker_drops_unnamed:
  assumes "length (message (entity_items e)) < 2 ^ 53" "wn_vehicle e = Some v" "dated v" "wv_descriptor v = Some ([], [])" "td [] = []"
    and "wn_id e \<noteq> []" "wv_position v = Some p" "ValidMalaysiaBounds (float32 (unat (wp_lat p))) (float32 (unat (wp_lng p)))"
  shows "map_option vp_VehicleID (go_entity feed t (pb_entity e)) = Some (wn_id e)"
    "decode_entity td (site_feed feed) now (message (entity_items e)) = Inr None"
proof -
  show "map_option vp_VehicleID (go_entity feed t (pb_entity e)) = Some (wn_id e)"
    using assms by (simp add: go_entity_def entity_vehicle_id_def entity_position_def)
  have vlen: "length (message (vehicle_items v)) < 2 ^ 53"
    by (rule nested_shorter [OF _ assms(1), of 4]) (simp add: entity_items_def opt_item_def assms(2))
  have "length (message [WBytes 1 [], WBytes 2 []]) < 2 ^ 53"
    by (rule nested_shorter [OF _ vlen, of 8]) (simp add: vehicle_items_def opt_item_def assms(4))
  from pair_texts [OF this] have "worker_vehicle_id td i (message (vehicle_items v)) = []" for i
    using assms(4,5) vehicle_parts(3) [OF vlen assms(3)] by (simp add: worker_vehicle_id_def Let_def)
  then show "decode_entity td (site_feed feed) now (message (entity_items e)) = Inr None"
    using assms(2,7) by (simp add: decode_entity_def entity_parts [OF assms(1)] vehicle_parts [OF vlen assms(3)] position_floats del: One_nat_def)
qed

end
