(* ===== verification/Site_Worker.thy ===== *)
theory Site_Worker
  imports Site_Proto Demo_Session "HOL-Library.AList"
begin

text \<open>
  The generated worker (\<open>workerTS\<close> and \<open>schemaSQL\<close> of \<open>internal/codexsites/templates.go\<close>): its database and
  bucket, claiming a poll of a region, fetching feeds, storing a batch, the session of a request, the
  queries of the pages, the replay stream and the routes.

  The tables of the schema are finite maps by primary key; a statement that violates a key fails, and a
  batch of statements is a transaction. An exception is \<open>Inl\<close> of its message. The clock, the random
  identifiers, what a fetch answers and the order in which the database visits rows that its \<open>ORDER BY\<close>
  leaves open are arguments. Instants are milliseconds. The database and the bucket do not fail otherwise,
  and the positions of a batch carry a number or \<open>null\<close> where a number is expected.
\<close>

section \<open>The catalogue\<close>

definition REGIONS :: "siteRegion list" where "REGIONS = sc_Regions site_config"
definition FEEDS :: "siteFeed list" where "FEEDS = sc_Feeds site_config"
definition ALLOWED_POLL :: "int list" where "ALLOWED_POLL = [10, 20, 30]"
definition DEFAULT_POLL :: int where "DEFAULT_POLL = 10"
definition FRESH_MS :: int where "FRESH_MS = 5 * 60 * 1000"
definition VISIBLE_MS :: int where "VISIBLE_MS = 30 * 60 * 1000"
definition UPSTREAM_REFRESH_MS :: int where "UPSTREAM_REFRESH_MS = 30000"
definition MAX_POLL_ATTEMPTS :: nat where "MAX_POLL_ATTEMPTS = 6"

definition knownRegion :: "string \<Rightarrow> siteRegion option" where
  "knownRegion rid = List.find (\<lambda>r. sr_ID r = rid) REGIONS"

definition regionByID :: "string \<Rightarrow> siteRegion" where
  "regionByID rid = (case knownRegion rid of None \<Rightarrow> hd REGIONS | Some r \<Rightarrow> r)"

text \<open>\<open>[...new Set(xs)]\<close>.\<close>

definition js_set :: "'a list \<Rightarrow> 'a list" where
  "js_set xs = rev (remdups (rev xs))"

lemma set_js_set [simp]: "set (js_set xs) = set xs" "distinct (js_set xs)"
  by (simp_all add: js_set_def)

definition agenciesFor :: "string \<Rightarrow> string list" where
  "agenciesFor rid = js_set (sr_Agencies (regionByID rid))"

definition feedsFor :: "string \<Rightarrow> (string \<times> string) list" where
  "feedsFor rid = map (\<lambda>f. (sf_Agency f, sf_Region f)) (filter (\<lambda>f. sf_Agency f \<in> set (agenciesFor rid)) FEEDS)"

definition gtfsFeedsFor :: "string \<Rightarrow> siteFeed list" where
  "gtfsFeedsFor rid =
     (let allowed = (case knownRegion rid of None \<Rightarrow> [] | Some r \<Rightarrow> sr_Agencies r)
      in filter (\<lambda>f. sf_Agency f \<in> set allowed) FEEDS)"

fun normalizePoll :: "float64 \<Rightarrow> int" where
  "normalizePoll (Fin x) = (if x \<in> of_int ` set ALLOWED_POLL then \<lfloor>x\<rfloor> else 0)"
| "normalizePoll x = 0"

section \<open>The database and the bucket\<close>

record session_row =
  sw_region :: string
  sw_poll :: int
  sw_updated :: int

record position_row =
  pw_agency :: string
  pw_vehicle :: string
  pw_region :: string
  pw_lat :: rat
  pw_lng :: rat
  pw_route :: string
  pw_speed :: rat
  pw_bearing :: rat
  pw_group :: string
  pw_timestamp :: int
  pw_updated :: int

record event_row =
  ew_agency :: string
  ew_region :: string
  ew_vehicle :: string
  ew_lat :: rat
  ew_lng :: rat
  ew_occurred :: int
  ew_created :: int

record snapshot_row =
  nw_agency :: string
  nw_region :: string
  nw_source :: string
  nw_key :: string
  nw_at :: int
  nw_watermark :: jsnum

record d1 =
  d1_sessions :: "(string, session_row) fmap"
  d1_positions :: "(string, position_row) fmap"
  d1_events :: "(string, event_row) fmap"
  d1_snapshots :: "(string, snapshot_row) fmap"
  d1_poll :: "(int \<times> int) option"         \<comment> \<open>the row of \<open>poll_state\<close>: last poll, number of events\<close>
  d1_regionPoll :: "(string, int) fmap"

text \<open>A position as it is in a JSON body; \<open>None\<close> is \<open>null\<close>, for an instant a missing one.\<close>

record body_position =
  bp_id :: string
  bp_agency :: string
  bp_group :: string
  bp_lat :: "rat option"
  bp_lng :: "rat option"
  bp_route :: string
  bp_speed :: "rat option"
  bp_bearing :: "rat option"
  bp_timestamp :: "int option"

record r2_batch =
  rb_at :: int
  rb_positions :: "body_position list"
  rb_agencies :: "string list"

record worker =
  wk_db :: d1
  wk_events :: "(string, r2_batch) fmap"   \<comment> \<open>the objects of the bucket\<close>

text \<open>\<open>JSON.stringify\<close> writes \<open>null\<close> for a number that is not finite; \<open>Number(null)\<close> and \<open>x || 0\<close> give 0.\<close>

fun stringify_num :: "float64 \<Rightarrow> rat option" where
  "stringify_num (Fin x) = Some x"
| "stringify_num x = None"

definition stringify_position :: "Position \<Rightarrow> body_position" where
  "stringify_position p =
     \<lparr>bp_id = ps_id p, bp_agency = ps_agency p, bp_group = ps_group p, bp_lat = stringify_num (ps_lat p), bp_lng = stringify_num (ps_lng p),
      bp_route = ps_route p, bp_speed = stringify_num (ps_speed p), bp_bearing = stringify_num (ps_bearing p), bp_timestamp = Some (ps_timestamp p)\<rparr>"

definition js_Number :: "rat option \<Rightarrow> rat" where
  "js_Number x = (case x of None \<Rightarrow> 0 | Some r \<Rightarrow> r)"

section \<open>Fetching a feed\<close>

definition backoffMs :: "nat \<Rightarrow> rat" where
  "backoffMs attempt = (let d = 1000 * 2 ^ attempt in if d > 30000 then 30000 else d)"

text \<open>The argument is \<open>Number\<close> of the header, \<open>None\<close> when it is absent or empty.\<close>

definition retryAfterMs :: "float64 option \<Rightarrow> rat option" where
  "retryAfterMs header =
     (case header of Some (Fin seconds) \<Rightarrow> (if seconds \<ge> 0 then Some (seconds * 1000) else None) | _ \<Rightarrow> None)"

record fetch_reply =
  fy_status :: nat
  fy_retryAfter :: "float64 option"
  fy_body :: "string js"        \<comment> \<open>what \<open>arrayBuffer\<close> gives\<close>

record fetch_result =
  fr_feed :: siteFeed
  fr_positions :: "Position list"
  fr_error :: string

text \<open>The loop with \<open>n\<close> attempts left, with the waits it asks for.\<close>

fun fetch_loop ::
  "(string \<Rightarrow> string) \<Rightarrow> (nat \<Rightarrow> nat \<Rightarrow> int) \<Rightarrow> (nat \<Rightarrow> fetch_reply js) \<Rightarrow> siteFeed \<Rightarrow> nat \<Rightarrow> string \<Rightarrow> fetch_result \<times> rat list" where
  "fetch_loop td clock reply feed 0 lastError = (\<lparr>fr_feed = feed, fr_positions = [], fr_error = lastError\<rparr>, [])"
| "fetch_loop td clock reply feed (Suc n) lastError =
     (let attempt = MAX_POLL_ATTEMPTS - Suc n in
      case reply attempt of
        Inl msg \<Rightarrow> (\<lparr>fr_feed = feed, fr_positions = [], fr_error = msg\<rparr>, [])
      | Inr response \<Rightarrow>
          (if fy_status response = 429 then
             (if n = 0 then (\<lparr>fr_feed = feed, fr_positions = [], fr_error = ''HTTP 429''\<rparr>, [])
              else
                (let wait = (case retryAfterMs (fy_retryAfter response) of None \<Rightarrow> backoffMs attempt | Some w \<Rightarrow> w)
                 in map_prod id (Cons (min wait 30000)) (fetch_loop td clock reply feed n ''HTTP 429'')))
           else if fy_status response < 200 \<or> 300 \<le> fy_status response then
             (\<lparr>fr_feed = feed, fr_positions = [], fr_error = ''HTTP '' @ fmt_int (int (fy_status response))\<rparr>, [])
           else
             (case fy_body response of
                Inl msg \<Rightarrow> (\<lparr>fr_feed = feed, fr_positions = [], fr_error = msg\<rparr>, [])
              | Inr bytes \<Rightarrow>
                  (case decodeGTFS td (clock attempt) bytes feed of
                     Inl msg \<Rightarrow> (\<lparr>fr_feed = feed, fr_positions = [], fr_error = msg\<rparr>, [])
                   | Inr ps \<Rightarrow> (\<lparr>fr_feed = feed, fr_positions = ps, fr_error = []\<rparr>, [])))))"

definition fetchFeed ::
  "(string \<Rightarrow> string) \<Rightarrow> (nat \<Rightarrow> nat \<Rightarrow> int) \<Rightarrow> (nat \<Rightarrow> fetch_reply js) \<Rightarrow> siteFeed \<Rightarrow> fetch_result \<times> rat list" where
  "fetchFeed td clock reply feed = fetch_loop td clock reply feed MAX_POLL_ATTEMPTS []"

definition pollFeedsSequential ::
  "(string \<Rightarrow> string) \<Rightarrow> (nat \<Rightarrow> nat \<Rightarrow> nat \<Rightarrow> int) \<Rightarrow> (nat \<Rightarrow> nat \<Rightarrow> fetch_reply js) \<Rightarrow> siteFeed list \<Rightarrow> fetch_result list" where
  "pollFeedsSequential td clock reply feeds =
     map (\<lambda>(i, feed). fst (fetchFeed td (clock i) (reply i) feed)) (enumerate 0 feeds)"

section \<open>Claiming a poll\<close>

text \<open>The upsert with its \<open>WHERE\<close> is one statement; it changes a row or it does not. \<open>t\<close> is the instant read
  before the statement is sent: the database runs the statement later, perhaps after one that was sent after it.\<close>

definition claimRegionPoll :: "int \<Rightarrow> string \<Rightarrow> bool \<Rightarrow> int \<Rightarrow> d1 \<Rightarrow> bool \<times> d1" where
  "claimRegionPoll t regionID force pollSeconds db =
     (let gap = (if force then 2000 else max (pollSeconds * 1000) UPSTREAM_REFRESH_MS) in
      case fmlookup (d1_regionPoll db) regionID of
        None \<Rightarrow> (True, db\<lparr>d1_regionPoll := fmupd regionID t (d1_regionPoll db)\<rparr>)
      | Some prev \<Rightarrow>
          (if t - prev \<ge> gap then (True, db\<lparr>d1_regionPoll := fmupd regionID t (d1_regionPoll db)\<rparr>) else (False, db)))"

text \<open>The end of a poll writes the instant it read, whatever the row holds: it may replace a later one.\<close>

definition finish_region_poll :: "int \<Rightarrow> string \<Rightarrow> d1 \<Rightarrow> d1" where
  "finish_region_poll t regionID db = db\<lparr>d1_regionPoll := fmupd regionID t (d1_regionPoll db)\<rparr>"

section \<open>Storing a batch\<close>

datatype statement =
    UpsertPosition string position_row
  | InsertEvent string event_row
  | InsertSnapshot string snapshot_row
  | UpsertPollState int int

text \<open>A conflict of \<open>vehicle_positions\<close> updates some columns; one of the other tables is an error.\<close>

fun run_statement :: "statement \<Rightarrow> d1 \<Rightarrow> d1 option" where
  "run_statement (UpsertPosition k row) db =
     Some (db\<lparr>d1_positions := fmupd k
       (case fmlookup (d1_positions db) k of
          None \<Rightarrow> row
        | Some old \<Rightarrow> old\<lparr>pw_lat := pw_lat row, pw_lng := pw_lng row, pw_route := pw_route row, pw_speed := pw_speed row,
            pw_bearing := pw_bearing row, pw_timestamp := pw_timestamp row, pw_updated := pw_updated row\<rparr>) (d1_positions db)\<rparr>)"
| "run_statement (InsertEvent k row) db =
     (if fmlookup (d1_events db) k \<noteq> None then None else Some (db\<lparr>d1_events := fmupd k row (d1_events db)\<rparr>))"
| "run_statement (InsertSnapshot k row) db =
     (if fmlookup (d1_snapshots db) k \<noteq> None then None else Some (db\<lparr>d1_snapshots := fmupd k row (d1_snapshots db)\<rparr>))"
| "run_statement (UpsertPollState t n) db =
     Some (db\<lparr>d1_poll := Some (case d1_poll db of None \<Rightarrow> (t, n) | Some (_, events) \<Rightarrow> (t, events + n))\<rparr>)"

fun run_statements :: "statement list \<Rightarrow> d1 \<Rightarrow> d1 option" where
  "run_statements [] db = Some db"
| "run_statements (s # ss) db = (case run_statement s db of None \<Rightarrow> None | Some db' \<Rightarrow> run_statements ss db')"

text \<open>Batches of ninety; the ones before a failing one stay.\<close>

definition constraint_error :: string where "constraint_error = ''D1_ERROR: UNIQUE constraint failed''"

fun run_batches :: "statement list \<Rightarrow> d1 \<Rightarrow> string option \<times> d1" where
  "run_batches ss db =
     (if ss = [] then (None, db)
      else (case run_statements (take 90 ss) db of None \<Rightarrow> (Some constraint_error, db) | Some db' \<Rightarrow> run_batches (drop 90 ss) db'))"

declare run_batches.simps [simp del]

text \<open>\<open>id.split(':').slice(1).join(':') || id\<close>.\<close>

definition vehicle_of_id :: "string \<Rightarrow> string" where
  "vehicle_of_id k = (let r = tl (dropWhile (\<lambda>c. c \<noteq> CHR '':'') k) in if r \<noteq> [] then r else k)"

definition region_of :: "body_position \<Rightarrow> siteRegion option" where
  "region_of v = (if bp_id v = [] then None else List.find (\<lambda>x. bp_agency v \<in> set (sr_Agencies x)) REGIONS)"

definition position_row_of :: "int \<Rightarrow> int \<Rightarrow> siteRegion \<Rightarrow> body_position \<Rightarrow> position_row" where
  "position_row_of ts now r v =
     \<lparr>pw_agency = bp_agency v, pw_vehicle = vehicle_of_id (bp_id v), pw_region = sr_ID r, pw_lat = js_Number (bp_lat v), pw_lng = js_Number (bp_lng v),
      pw_route = bp_route v, pw_speed = js_Number (bp_speed v), pw_bearing = js_Number (bp_bearing v), pw_group = bp_group v,
      pw_timestamp = ts, pw_updated = now\<rparr>"

definition position_statements :: "int \<Rightarrow> string \<Rightarrow> int \<Rightarrow> int \<Rightarrow> body_position \<Rightarrow> statement list" where
  "position_statements at_ms batchID now1 now2 v =
     (case region_of v of
        None \<Rightarrow> []
      | Some r \<Rightarrow>
          (let ts = (case bp_timestamp v of None \<Rightarrow> at_ms | Some t \<Rightarrow> t) in
           [UpsertPosition (bp_id v) (position_row_of ts now1 r v),
            InsertEvent (batchID @ '':'' @ bp_id v)
              \<lparr>ew_agency = bp_agency v, ew_region = sr_ID r, ew_vehicle = bp_id v, ew_lat = js_Number (bp_lat v), ew_lng = js_Number (bp_lng v),
               ew_occurred = ts, ew_created = now2\<rparr>]))"

text \<open>The agencies of the batch by region, both in the order of their first occurrence.\<close>

definition add_agency :: "body_position \<Rightarrow> (string \<times> string list) list \<Rightarrow> (string \<times> string list) list" where
  "add_agency v m =
     (case region_of v of
        None \<Rightarrow> m
      | Some r \<Rightarrow>
          (let as = (case map_of m (sr_ID r) of None \<Rightarrow> [] | Some as \<Rightarrow> as)
           in AList.update (sr_ID r) (if bp_agency v \<in> set as then as else as @ [bp_agency v]) m))"

definition snapshot_statements :: "int \<Rightarrow> string \<Rightarrow> string \<Rightarrow> (string \<times> string list) list \<Rightarrow> statement list" where
  "snapshot_statements at_ms batchID r2Key m =
     concat (map (\<lambda>(rid, as). map (\<lambda>agency. InsertSnapshot (batchID @ '':'' @ agency)
       \<lparr>nw_agency = agency, nw_region = rid, nw_source = ''r2'', nw_key = r2Key, nw_at = at_ms, nw_watermark = js_mul (Whole (nat at_ms)) (Whole 1000000)\<rparr>) as) m)"

record ingest_body =
  ib_at :: "int option"
  ib_positions :: "body_position list"
  ib_agencies :: "string list"

text \<open>\<open>now i\<close> is the \<open>i\<close>th reading of the clock.\<close>

definition ingest_statements :: "(nat \<Rightarrow> int) \<Rightarrow> int \<Rightarrow> string \<Rightarrow> string \<Rightarrow> body_position list \<Rightarrow> statement list" where
  "ingest_statements now at_ms batchID r2Key positions =
     concat (map (\<lambda>(i, v). position_statements at_ms batchID (now (2 * i + 1)) (now (2 * i + 2)) v) (enumerate 0 positions)) @
     snapshot_statements at_ms batchID r2Key (fold add_agency positions []) @
     [UpsertPollState at_ms (int (length positions))]"

datatype response =
    JsonReply nat json
  | StreamReply "(string \<times> json) list"
  | AssetReply string

definition ingest ::
  "string \<Rightarrow> string option \<Rightarrow> ingest_body js \<Rightarrow> (nat \<Rightarrow> int) \<Rightarrow> string \<Rightarrow> worker \<Rightarrow> response js \<times> worker" where
  "ingest token auth body now uuid w =
     (if token \<noteq> [] \<and> auth \<noteq> Some (''Bearer '' @ token) then (Inr (JsonReply 401 (JObject [(''error'', JString ''unauthorized'')])), w)
      else case body of
        Inl msg \<Rightarrow> (Inl msg, w)
      | Inr b \<Rightarrow>
          (let at_ms = (case ib_at b of None \<Rightarrow> now 0 | Some t \<Rightarrow> t);
               batchID = fmt_int at_ms @ ''-'' @ uuid;
               r2Key = ''events/'' @ batchID @ ''.json'';
               w1 = w\<lparr>wk_events := fmupd r2Key \<lparr>rb_at = at_ms, rb_positions = ib_positions b, rb_agencies = ib_agencies b\<rparr> (wk_events w)\<rparr>
           in case run_batches (ingest_statements now at_ms batchID r2Key (ib_positions b)) (wk_db w1) of
                (Some msg, db) \<Rightarrow> (Inl msg, w1\<lparr>wk_db := db\<rparr>)
              | (None, db) \<Rightarrow>
                  (Inr (JsonReply 200 (JObject [(''accepted'', JNum (of_nat (length (ib_positions b)))), (''r2Key'', JString r2Key)])), w1\<lparr>wk_db := db\<rparr>)))"

section \<open>Polling a region\<close>

definition json_error :: "nat \<Rightarrow> string \<Rightarrow> response" where
  "json_error code msg = JsonReply code (JObject [(''error'', JString msg)])"

record poll_input =
  pi_Claim :: int                                 \<comment> \<open>the clock when the claim is made\<close>
  pi_TD :: "string \<Rightarrow> string"
  pi_Clock :: "nat \<Rightarrow> nat \<Rightarrow> nat \<Rightarrow> int"
  pi_Reply :: "nat \<Rightarrow> nat \<Rightarrow> fetch_reply js"        \<comment> \<open>by feed and attempt\<close>
  pi_At :: int
  pi_Ingest :: "nat \<Rightarrow> int"
  pi_UUID :: string
  pi_Done :: int

text \<open>The member \<open>r2Key\<close> of the reply of \<open>ingest\<close>; \<open>undefined\<close> members are left out.\<close>

definition reply_key :: "response \<Rightarrow> (string \<times> json) list" where
  "reply_key r =
     (case r of JsonReply _ (JObject ms) \<Rightarrow> (case map_of ms ''r2Key'' of None \<Rightarrow> [] | Some k \<Rightarrow> [(''r2Key'', k)]) | _ \<Rightarrow> [])"

definition worker_pollGTFS :: "string \<Rightarrow> poll_input \<Rightarrow> string \<Rightarrow> bool \<Rightarrow> int \<Rightarrow> worker \<Rightarrow> response js \<times> worker" where
  "worker_pollGTFS token inp regionID force pollSeconds w =
     (if knownRegion regionID = None then (Inr (json_error 400 ''unknown region''), w)
      else case claimRegionPoll (pi_Claim inp) regionID force pollSeconds (wk_db w) of
        (False, db) \<Rightarrow>
          (Inr (JsonReply 200 (JObject [(''accepted'', JNum 0), (''feeds'', JNum 0), (''skipped'', JBool True), (''r2Key'', JNull), (''errors'', JArray []),
             (''pollSeconds'', JNum (of_int pollSeconds))])), w\<lparr>wk_db := db\<rparr>)
      | (True, db) \<Rightarrow>
          (let feeds = gtfsFeedsFor regionID;
               results = pollFeedsSequential (pi_TD inp) (pi_Clock inp) (pi_Reply inp) feeds;
               positions = concat (map fr_positions results);
               body = \<lparr>ib_at = Some (pi_At inp), ib_positions = map stringify_position positions, ib_agencies = map sf_Agency feeds\<rparr>
           in case ingest token (if token = [] then None else Some (''Bearer '' @ token)) (Inr body) (pi_Ingest inp) (pi_UUID inp) (w\<lparr>wk_db := db\<rparr>) of
                (Inl msg, w1) \<Rightarrow> (Inl msg, w1)
              | (Inr stored, w1) \<Rightarrow>
                  (Inr (JsonReply 200 (JObject ([(''accepted'', JNum (of_nat (length positions))), (''feeds'', JNum (of_nat (length feeds)))] @ reply_key stored @
                     [(''errors'', JArray (map (\<lambda>r. JObject [(''agency'', JString (sf_Agency (fr_feed r))), (''error'', JString (fr_error r))])
                        (filter (\<lambda>r. fr_error r \<noteq> []) results))), (''pollSeconds'', JNum (of_int pollSeconds)), (''skipped'', JBool False)]))),
                   w1\<lparr>wk_db := finish_region_poll (pi_Done inp) regionID (wk_db w1)\<rparr>)))"

section \<open>Sessions\<close>

text \<open>\<open>ensureSchema\<close> changes nothing in a database that has the schema.\<close>

definition worker_session :: "string option \<Rightarrow> string \<Rightarrow> int \<Rightarrow> d1 \<Rightarrow> (string \<times> string \<times> int) \<times> d1" where
  "worker_session cookie uuid now db =
     (let sid = (case cookie of None \<Rightarrow> uuid | Some c \<Rightarrow> c);
          row = fmlookup (d1_sessions db) sid;
          regionID = (case row of None \<Rightarrow> sr_ID (hd REGIONS) | Some r \<Rightarrow> (if sw_region r = [] then sr_ID (hd REGIONS) else sw_region r));
          n = (case row of None \<Rightarrow> normalizePoll (Fin 0) | Some r \<Rightarrow> normalizePoll (Fin (of_int (sw_poll r))));
          pollSeconds = (if n = 0 then DEFAULT_POLL else n);
          row' = (case row of None \<Rightarrow> \<lparr>sw_region = regionID, sw_poll = pollSeconds, sw_updated = now\<rparr> | Some r \<Rightarrow> r\<lparr>sw_updated := now\<rparr>)
      in ((sid, regionID, pollSeconds), db\<lparr>d1_sessions := fmupd sid row' (d1_sessions db)\<rparr>))"

definition update_session :: "string \<Rightarrow> (session_row \<Rightarrow> session_row) \<Rightarrow> worker \<Rightarrow> worker" where
  "update_session sid f w =
     (case fmlookup (d1_sessions (wk_db w)) sid of
        None \<Rightarrow> w
      | Some row \<Rightarrow> w\<lparr>wk_db := (wk_db w)\<lparr>d1_sessions := fmupd sid (f row) (d1_sessions (wk_db w))\<rparr>\<rparr>)"

section \<open>Queries\<close>

text \<open>\<open>latest\<close>: the rows of the region's agencies in the visible window, by key.\<close>

definition visible_row :: "string list \<Rightarrow> int \<Rightarrow> position_row \<Rightarrow> bool" where
  "visible_row ids cutoff row \<longleftrightarrow> pw_agency row \<in> set ids \<and> pw_timestamp row \<ge> cutoff"

definition site_latest :: "int \<Rightarrow> int \<Rightarrow> d1 \<Rightarrow> string \<Rightarrow> (string \<times> position_row \<times> bool) list" where
  "site_latest now now2 db regionID =
     (let ids = agenciesFor regionID in
      if ids = [] then []
      else map (\<lambda>(k, row). (k, row, now2 - pw_timestamp row > FRESH_MS))
        (filter (\<lambda>(k, row). visible_row ids (now - VISIBLE_MS) row) (sorted_list_of_fmap (d1_positions db))))"

definition latest_json :: "(string \<times> position_row \<times> bool) list \<Rightarrow> json" where
  "latest_json rows = JArray (map (\<lambda>(k, row, stale). JObject
     [(''id'', JString k), (''lat'', JNum (pw_lat row)), (''lng'', JNum (pw_lng row)), (''agency'', JString (pw_agency row)),
      (''group'', JString (pw_group row)), (''route'', JString (pw_route row)), (''speed'', JNum (pw_speed row)), (''bearing'', JNum (pw_bearing row)),
      (''timestamp'', JTime (1000000 * pw_timestamp row)), (''stale'', JBool stale)]) rows)"

text \<open>\<open>stats\<close>; for a region without agencies the source's last operand is an expression that throws.\<close>

definition recent_events :: "string list \<Rightarrow> d1 \<Rightarrow> string \<Rightarrow> event_row list" where
  "recent_events ord db regionID =
     take 10 (sort_key (\<lambda>r. - ew_created r) (filter (\<lambda>r. ew_region r = regionID) (map snd (range_entries ord (d1_events db)))))"

definition site_stats :: "int \<Rightarrow> string list \<Rightarrow> d1 \<Rightarrow> string \<Rightarrow> int \<Rightarrow> json js" where
  "site_stats now ord db regionID pollSeconds =
     (let ids = agenciesFor regionID; records = recent_events ord db regionID in
      if ids = [] then Inl ''number is not defined''
      else Inr (JObject
        [(''vehicleCount'', JNum (of_nat (length (filter (\<lambda>(k, row). visible_row ids (now - VISIBLE_MS) row) (sorted_list_of_fmap (d1_positions db)))))),
         (''lastUpdate'', case d1_poll db of Some (t, _) \<Rightarrow> (if t \<noteq> 0 then JTime (1000000 * t) else JNull) | None \<Rightarrow> JNull),
         (''eventCount'', case d1_poll db of Some (_, n) \<Rightarrow> JNum (of_int n) | None \<Rightarrow> JNum 0),
         (''pollSeconds'', JNum (of_int pollSeconds)), (''activeLabel'', JString (sr_Label (regionByID regionID))),
         (''polledAgencies'', JArray (map JString (js_set (map ew_agency records)))),
         (''records'', JArray (map (\<lambda>r. JObject [(''agency'', JString (ew_agency r)), (''vehicle'', JString (ew_vehicle r)), (''lat'', JNum (ew_lat r)),
            (''lng'', JNum (ew_lng r)), (''at'', if ew_occurred r \<noteq> 0 then JTime (1000000 * ew_occurred r) else JString [char_of (0xE2 :: nat), char_of (0x80 :: nat), char_of (0x94 :: nat)])]) records))]))"

text \<open>The snapshots of a region, newest first; \<open>ord\<close> is an order of the table's rows.\<close>

definition region_snapshots :: "string list \<Rightarrow> d1 \<Rightarrow> string \<Rightarrow> (string \<times> snapshot_row) list" where
  "region_snapshots ord db regionID = filter (\<lambda>(k, r). nw_region r = regionID) (range_entries ord (d1_snapshots db))"

definition site_catalog :: "string list \<Rightarrow> d1 \<Rightarrow> string \<Rightarrow> response" where
  "site_catalog ord db regionID =
     (case knownRegion regionID of
        None \<Rightarrow> json_error 400 ''unknown region''
      | Some r \<Rightarrow>
          (let rows = sort_key (\<lambda>(k, row). - nw_at row) (region_snapshots ord db regionID);
               grouped = (\<lambda>agency. filter (\<lambda>(k, row). nw_agency row = agency) rows);
               total = sum_list (map (\<lambda>agency. length (grouped agency)) (sr_Agencies r))
           in JsonReply 200 (JObject ([(''regionId'', JString regionID), (''label'', JString (sr_Label r)), (''empty'', JBool (total = 0))] @
                (if total = 0 then [(''message'', JString ''No snapshot data for this region.'')] else []) @
                [(''total'', JNum (of_nat total)),
                 (''agencies'', JArray (map (\<lambda>agency. JObject [(''agency'', JString agency), (''count'', JNum (of_nat (length (grouped agency)))),
                    (''snapshots'', JArray (map (\<lambda>(k, row). JObject [(''agency'', JString (nw_agency row)), (''id'', JString k), (''source'', JString (nw_source row)),
                       (''s3Key'', JString (nw_key row)), (''at'', if nw_at row \<noteq> 0 then JTime (1000000 * nw_at row) else JNull),
                       (''watermarkNS'', case nw_watermark row of Whole n \<Rightarrow> JNum (of_nat n) | _ \<Rightarrow> JNull)]) (grouped agency)))]) (sr_Agencies r))),
                 (''notes'', JArray [JString ''Snapshots are immutable R2 ingest batches indexed by D1.''])]))))"

section \<open>The replay stream\<close>

definition body_position_json :: "body_position \<Rightarrow> json" where
  "body_position_json v =
     (let num = (\<lambda>x. case x of None \<Rightarrow> JNull | Some r \<Rightarrow> JNum r) in
      JObject ([(''id'', JString (bp_id v)), (''lat'', num (bp_lat v)), (''lng'', num (bp_lng v)), (''agency'', JString (bp_agency v)),
        (''group'', JString (bp_group v)), (''route'', JString (bp_route v)), (''speed'', num (bp_speed v)), (''bearing'', num (bp_bearing v))] @
        (case bp_timestamp v of None \<Rightarrow> [] | Some t \<Rightarrow> [(''timestamp'', JTime (1000000 * t))])))"

text \<open>\<open>merged.set(p.id, p)\<close> keeps the place of a key that is there.\<close>

definition merge_batch :: "r2_batch option \<Rightarrow> (string \<times> body_position) list \<Rightarrow> (string \<times> body_position) list" where
  "merge_batch obj m = (case obj of None \<Rightarrow> m | Some b \<Rightarrow> fold (\<lambda>p. AList.update (bp_id p) p) (rb_positions b) m)"

fun replay_frames ::
  "(string, r2_batch) fmap \<Rightarrow> string list \<Rightarrow> nat \<Rightarrow> nat \<Rightarrow> (string \<times> int) list \<Rightarrow> (string \<times> body_position) list \<Rightarrow> (string \<times> json) list" where
  "replay_frames objects agencies cnt i [] merged = []"
| "replay_frames objects agencies cnt i ((key, at_ms) # rows) merged =
     (let merged' = merge_batch (fmlookup objects key) merged in
      [(''vehicles'', JArray (map body_position_json (filter (\<lambda>p. bp_agency p \<in> set agencies) (map snd merged')))),
       (''progress'', JObject [(''frame'', JNum (of_nat (Suc i))), (''total'', JNum (of_nat cnt)),
          (''at'', if at_ms \<noteq> 0 then JTime (1000000 * at_ms) else JNull), (''status'', JString ''playing'')])] @
      replay_frames objects agencies cnt (Suc i) rows merged')"

definition replay_rows :: "string list \<Rightarrow> d1 \<Rightarrow> string \<Rightarrow> (string \<times> int) list" where
  "replay_rows ord db regionID = sort_key snd (remdups (map (\<lambda>(k, r). (nw_key r, nw_at r)) (region_snapshots ord db regionID)))"

definition site_replayStream :: "string list \<Rightarrow> worker \<Rightarrow> string \<Rightarrow> response" where
  "site_replayStream ord w regionID =
     (case knownRegion regionID of
        None \<Rightarrow> json_error 400 ''unknown region''
      | Some r \<Rightarrow>
          (let rows = replay_rows ord (wk_db w) regionID in
           StreamReply ([(''progress'', JObject [(''frame'', JNum 0), (''total'', JNum (of_nat (length rows))), (''status'', JString ''starting'')])] @
             replay_frames (wk_events w) (agenciesFor regionID) (length rows) 0 rows [] @ [(''done'', JObject [(''status'', JString ''complete'')])])))"

section \<open>Routes\<close>

datatype site_body = NoJson string | IngestBody ingest_body | SecondsBody float64 | IdBody string

record site_request =
  wq_method :: string
  wq_path :: string
  wq_query :: "(string \<times> string) list"
  wq_cookie :: "string option"
  wq_auth :: "string option"
  wq_body :: site_body

record site_env =
  se_Token :: string
  se_UUID :: string
  se_Now :: "nat \<Rightarrow> int"
  se_BatchUUID :: string
  se_Poll :: poll_input
  se_Order :: "string list"

text \<open>\<open>url.searchParams.get(k) || d\<close>.\<close>

definition param_or :: "site_request \<Rightarrow> string \<Rightarrow> string \<Rightarrow> string" where
  "param_or r k d = (case map_of (wq_query r) k of None \<Rightarrow> d | Some v \<Rightarrow> (if v = [] then d else v))"

definition regionPayload :: "string \<Rightarrow> (string \<times> json) list" where
  "regionPayload rid =
     (let r = regionByID rid in
      [(''id'', JString (sr_ID r)), (''label'', JString (sr_Label r)), (''center'', JArray [JNum (fst (sr_Center r)), JNum (snd (sr_Center r))]),
       (''zoom'', JNum (of_nat (sr_Zoom r))), (''agencies'', if sr_Agencies r = [] then JNull else JArray (map JString (sr_Agencies r)))])"

definition region_reply :: "string \<Rightarrow> int \<Rightarrow> response" where
  "region_reply rid pollSeconds = JsonReply 200 (JObject
     [(''region'', JObject (regionPayload rid)),
      (''feeds'', JArray (map (\<lambda>(a, r). JObject [(''agency'', JString a), (''region'', JString r)]) (feedsFor rid))),
      (''pollSeconds'', JNum (of_int pollSeconds))])"

definition interval_reply :: "int \<Rightarrow> response" where
  "interval_reply n = JsonReply 200 (JObject [(''seconds'', JNum (of_int n)), (''options'', JArray (map (\<lambda>n. JNum (of_int n)) ALLOWED_POLL))])"

definition site_poll_interval :: "site_env \<Rightarrow> site_request \<Rightarrow> string \<Rightarrow> int \<Rightarrow> worker \<Rightarrow> response js \<times> worker" where
  "site_poll_interval se r sid pollSeconds w =
     (if wq_method r = ''POST'' then
        (case wq_body r of
           NoJson msg \<Rightarrow> (Inl msg, w)
         | body \<Rightarrow>
             (let n = normalizePoll (case body of SecondsBody s \<Rightarrow> s | _ \<Rightarrow> NaN) in
              if n = 0 then (Inr (json_error 400 ''poll interval must be 10, 20, or 30 seconds''), w)
              else (Inr (interval_reply n), update_session sid (\<lambda>row. row\<lparr>sw_poll := n, sw_updated := se_Now se 1\<rparr>) w)))
      else if wq_method r \<noteq> ''GET'' then (Inr (json_error 405 ''method not allowed''), w)
      else (Inr (interval_reply pollSeconds), w))"

definition site_region_route :: "site_env \<Rightarrow> site_request \<Rightarrow> string \<Rightarrow> string \<Rightarrow> int \<Rightarrow> worker \<Rightarrow> response js \<times> worker" where
  "site_region_route se r sid regionID pollSeconds w =
     (if wq_method r = ''POST'' then
        (case wq_body r of
           NoJson msg \<Rightarrow> (Inl msg, w)
         | IdBody rid \<Rightarrow>
             (if knownRegion rid = None then (Inr (json_error 400 ''unknown region''), w)
              else (Inr (region_reply rid pollSeconds), update_session sid (\<lambda>row. row\<lparr>sw_region := rid, sw_updated := se_Now se 1\<rparr>) w))
         | _ \<Rightarrow> (Inr (json_error 400 ''unknown region''), w))
      else (Inr (region_reply regionID pollSeconds), w))"

definition site_route :: "site_env \<Rightarrow> site_request \<Rightarrow> string \<Rightarrow> string \<Rightarrow> int \<Rightarrow> worker \<Rightarrow> response js \<times> worker" where
  "site_route se r sid regionID pollSeconds w =
     (if wq_path r = ''/api/poll'' \<and> wq_method r = ''POST'' then
        worker_pollGTFS (se_Token se) (se_Poll se) (param_or r ''region'' regionID) (map_of (wq_query r) ''force'' = Some ''1'') pollSeconds w
      else if wq_path r = ''/api/poll-interval'' then site_poll_interval se r sid pollSeconds w
      else if wq_path r = ''/api/regions'' then
        (Inr (JsonReply 200 (JObject [(''active'', JString regionID),
           (''regions'', JArray (map (\<lambda>x. JObject (regionPayload (sr_ID x) @ [(''active'', JBool (sr_ID x = regionID))])) REGIONS))])), w)
      else if wq_path r = ''/api/region'' then site_region_route se r sid regionID pollSeconds w
      else if wq_path r = ''/api/vehicles'' then (Inr (JsonReply 200 (latest_json (site_latest (se_Now se 1) (se_Now se 2) (wk_db w) regionID))), w)
      else if wq_path r = ''/api/status'' then
        (map_sum id (JsonReply 200) (site_stats (se_Now se 1) (se_Order se) (wk_db w) regionID pollSeconds), w)
      else if wq_path r = ''/api/replay/catalog'' then (Inr (site_catalog (se_Order se) (wk_db w) (param_or r ''region'' regionID)), w)
      else if wq_path r = ''/api/replay/stream'' then (Inr (site_replayStream (se_Order se) w (param_or r ''region'' regionID)), w)
      else (Inr (AssetReply (if wq_path r = ''/'' then ''/index.html'' else if wq_path r = ''/replay'' then ''/replay.html'' else wq_path r)), w))"

text \<open>The refusals of \<open>/api/region\<close> and \<open>/api/poll-interval\<close> are returned without the cookie.\<close>

definition sets_cookie :: "site_request \<Rightarrow> response \<Rightarrow> bool" where
  "sets_cookie r reply \<longleftrightarrow>
     (case reply of JsonReply code _ \<Rightarrow> code = 200 \<or> wq_path r \<notin> {''/api/region'', ''/api/poll-interval''} | _ \<Rightarrow> True)"

text \<open>The answer to a request and the cookie it sets. An exception of a route is answered with status 500;
  the promise of \<open>ingest\<close> is returned without being awaited, so its exceptions pass the handler.\<close>

definition site_fetch :: "site_env \<Rightarrow> site_request \<Rightarrow> worker \<Rightarrow> (response \<times> string option) js \<times> worker" where
  "site_fetch se r w =
     (if wq_path r = ''/api/ingest'' \<and> wq_method r = ''POST'' then
        map_prod (map_sum id (\<lambda>reply. (reply, None))) id (ingest (se_Token se) (wq_auth r)
           (case wq_body r of NoJson msg \<Rightarrow> Inl msg | IngestBody b \<Rightarrow> Inr b | _ \<Rightarrow> Inr \<lparr>ib_at = None, ib_positions = [], ib_agencies = []\<rparr>)
           (se_Now se) (se_BatchUUID se) w)
      else
        (case worker_session (wq_cookie r) (se_UUID se) (se_Now se 0) (wk_db w) of ((sid, regionID, pollSeconds), db) \<Rightarrow>
           (case site_route se r sid regionID pollSeconds (w\<lparr>wk_db := db\<rparr>) of
              (Inl msg, w1) \<Rightarrow> (Inr (json_error 500 msg, None), w1)
            | (Inr (AssetReply a), w1) \<Rightarrow> (Inr (AssetReply a, None), w1)
            | (Inr reply, w1) \<Rightarrow> (Inr (reply, if sets_cookie r reply then Some sid else None), w1))))"

end
