(* ===== verification/Site_Worker_Correct.thy ===== *)
theory Site_Worker_Correct
  imports Site_Worker
begin

text \<open>
  What the generated worker guarantees: how far apart the polls of a region are, which batches are stored
  and what of them is shown, and that its sessions stay well formed.
\<close>

section \<open>Polls of a region\<close>

text \<open>Requests interleave between their awaited calls. Of a poll two statements concern the table of
  polls: the claim and the final update. Each reads the clock, then sends its statement and awaits it, so a statement has
  two instants: \<open>t\<close>, which the code has read and writes into the table, and the later \<open>e\<close> at which the database executes it. The
  database executes statements one after another, in the order of \<open>e\<close>; the instants \<open>t\<close> need not be in that order.\<close>

datatype poll_step = ClaimStep int int string bool int | FinishStep int int string

fun step_read :: "poll_step \<Rightarrow> int" where
  "step_read (ClaimStep t e rid force n) = t"
| "step_read (FinishStep t e rid) = t"

fun step_exec :: "poll_step \<Rightarrow> int" where
  "step_exec (ClaimStep t e rid force n) = e"
| "step_exec (FinishStep t e rid) = e"

text \<open>A run of statements, each executed at most \<open>delay\<close> after its clock was read.\<close>

definition executed_within :: "int \<Rightarrow> poll_step list \<Rightarrow> bool" where
  "executed_within delay ss \<longleftrightarrow> sorted (map step_exec ss) \<and> (\<forall>s\<in>set ss. step_read s \<le> step_exec s \<and> step_exec s \<le> step_read s + delay)"

text \<open>The claims that succeed, with their two instants and whether they were forced.\<close>

fun claims :: "poll_step list \<Rightarrow> d1 \<Rightarrow> (string \<times> int \<times> int \<times> bool) list" where
  "claims [] db = []"
| "claims (ClaimStep t e rid force n # ss) db =
     (case claimRegionPoll t rid force n db of (ok, db') \<Rightarrow> (if ok then [(rid, t, e, force)] else []) @ claims ss db')"
| "claims (FinishStep t e rid # ss) db = claims ss (finish_region_poll t rid db)"

definition claim_gap :: "bool \<Rightarrow> int" where
  "claim_gap force = (if force then 2000 else 30000)"

lemma claims_after:
  assumes "fmlookup (d1_regionPoll db) rid = Some p" "T \<le> p" "\<forall>s\<in>set ss. T \<le> step_read s"
    and "(rid, t, e, force) \<in> set (claims ss db)"
  shows "claim_gap force \<le> t - T"
  using assms
proof (induction ss db arbitrary: p rule: claims.induct)
  case (2 t' e' rid' force' n ss db)
  obtain ok db' where c: "claimRegionPoll t' rid' force' n db = (ok, db')" by fastforce
  have keep: "\<exists>p'. fmlookup (d1_regionPoll db') rid = Some p' \<and> T \<le> p'"
    using c "2.prems"(1-3) by (auto simp: claimRegionPoll_def Let_def split: option.splits if_splits)
  show ?case
  proof (cases "ok \<and> (rid, t, e, force) = (rid', t', e', force')")
    case True
    then show ?thesis
      using c "2.prems"(1,2) by (auto simp: claimRegionPoll_def Let_def claim_gap_def UPSTREAM_REFRESH_MS_def split: if_splits)
  next
    case False
    then have "(rid, t, e, force) \<in> set (claims ss db')" using "2.prems"(4) c by (auto split: if_splits)
    moreover from keep obtain p' where "fmlookup (d1_regionPoll db') rid = Some p'" "T \<le> p'" by blast
    ultimately show ?thesis using "2.IH" [OF c [symmetric], of p'] "2.prems"(3) by simp
  qed
next
  case (3 t' e' rid' ss db)
  have "\<exists>p'. fmlookup (d1_regionPoll (finish_region_poll t' rid' db)) rid = Some p' \<and> T \<le> p'"
    using "3.prems"(1-3) by (auto simp: finish_region_poll_def)
  then show ?case using "3.IH" "3.prems"(3,4) by auto
qed simp

lemma claims_exec: "(rid, t, e, force) \<in> set (claims ss db) \<Longrightarrow> \<exists>n. ClaimStep t e rid force n \<in> set ss"
  by (induction ss db rule: claims.induct) (fastforce split: prod.splits if_splits)+

text \<open>What is written after a claim is at most the delay older than its execution.\<close>

lemma claim_spaced:
  assumes run: "executed_within delay (ClaimStep t1 e1 rid force1 n # ss)"
    and c: "claimRegionPoll t1 rid force1 n db = (True, db')" and later: "(rid, t2, e2, force2) \<in> set (claims ss db')"
  shows "claim_gap force2 - delay \<le> t2 - t1 \<and> claim_gap force2 - delay \<le> e2 - e1"
proof -
  have steps: "e1 - delay \<le> step_read s" if "s \<in> set ss" for s
    using run that by (fastforce simp: executed_within_def)
  have e1: "t1 \<le> e1" "e1 - delay \<le> t1" using run by (auto simp: executed_within_def)
  have "t2 \<le> e2" using run claims_exec [OF later] by (fastforce simp: executed_within_def)
  moreover have "fmlookup (d1_regionPoll db') rid = Some t1"
    using c by (auto simp: claimRegionPoll_def Let_def split: option.splits if_splits)
  from claims_after [OF this e1(2) _ later] steps have "claim_gap force2 \<le> t2 - (e1 - delay)" by blast
  ultimately show ?thesis using e1(1) by simp
qed

text \<open>C17: however the statements of a worker's requests interleave, if the database executes each of them at most \<open>delay\<close> milliseconds
  after the request read the clock, two successful claims of a poll of the same region, by the instants they read as by those of their
  execution, are at least two seconds less \<open>delay\<close> apart, and a claim that is not forced comes at least
  thirty seconds, the publishing interval of the feeds, less \<open>delay\<close> after the one before.\<close>

theorem worker_polls_spaced:
  assumes "executed_within delay ss" "i < j" "j < length (claims ss db)"
    and "claims ss db ! i = (rid, t1, e1, force1)" "claims ss db ! j = (rid, t2, e2, force2)"
  shows "(if force2 then 2000 else 30000) - delay \<le> t2 - t1 \<and> (if force2 then 2000 else 30000) - delay \<le> e2 - e1"
  using assms
proof (induction ss db arbitrary: i j rule: claims.induct)
  case (2 t e rid' force n ss db)
  obtain ok db' where c: "claimRegionPoll t rid' force n db = (ok, db')" by fastforce
  have rest: "executed_within delay ss" using "2.prems"(1) by (simp add: executed_within_def)
  show ?case
  proof (cases ok)
    case False
    then show ?thesis using "2.IH" [OF c [symmetric] rest, of i j] "2.prems" c by simp
  next
    case ok: True
    show ?thesis
    proof (cases i)
      case 0
      then have eq: "rid = rid'" "t1 = t" "e1 = e" using "2.prems"(4) c ok by simp_all
      have "(rid, t2, e2, force2) \<in> set (claims ss db')"
        using "2.prems"(2,3,5) c ok 0 by (cases j) (auto simp: in_set_conv_nth)
      then show ?thesis using claim_spaced [of delay t e rid force n ss db db' t2 e2 force2] "2.prems"(1) c ok by (simp add: eq claim_gap_def)
    next
      case (Suc i')
      then obtain j' where "j = Suc j'" using "2.prems"(2) by (cases j) auto
      then show ?thesis using "2.IH" [OF c [symmetric] rest, of i' j'] "2.prems" c ok Suc by simp
    qed
  qed
qed (auto simp: executed_within_def)

definition sample_db :: d1 where
  "sample_db = \<lparr>d1_sessions = fmempty, d1_positions = fmempty, d1_events = fmempty, d1_snapshots = fmempty, d1_poll = Some (0, 0), d1_regionPoll = fmempty\<rparr>"

text \<open>The delay counts: the final update of a poll reads the clock at 30900, but is executed only after the next claim at 31000, whose instant it
  replaces by the older one. A third claim at 60900 then succeeds 29.9 seconds after the second.\<close>

definition late_finish :: "poll_step list" where
  "late_finish = [ClaimStep 1000 1000 ''northern'' False 10, ClaimStep 31000 31000 ''northern'' False 10,
     FinishStep 30900 31001 ''northern'', ClaimStep 60900 60900 ''northern'' False 10]"

lemma late_finish_claims:
  "claims late_finish sample_db = [(''northern'', 1000, 1000, False), (''northern'', 31000, 31000, False), (''northern'', 60900, 60900, False)]"
  by (simp add: late_finish_def claimRegionPoll_def finish_region_poll_def sample_db_def UPSTREAM_REFRESH_MS_def)

theorem worker_polls_spaced_witness:
  "claims late_finish sample_db ! 1 = (''northern'', 31000, 31000, False) \<and> claims late_finish sample_db ! 2 = (''northern'', 60900, 60900, False) \<and>
   (30000 :: int) - 101 \<le> 60900 - 31000"
proof -
  have run: "executed_within 101 late_finish" by (simp add: executed_within_def late_finish_def)
  have "(if False then 2000 else 30000) - 101 \<le> (60900 :: int) - 31000 \<and> (if False then 2000 else 30000) - 101 \<le> (60900 :: int) - 31000"
    by (rule worker_polls_spaced [OF run, of 1 2 sample_db "''northern''" 31000 31000 False 60900 60900 False]) (simp_all add: late_finish_claims)
  then show ?thesis by (simp add: late_finish_claims)
qed

section \<open>Running statements\<close>





fun upserts :: "statement list \<Rightarrow> (string \<times> position_row) list" where
  "upserts [] = []"
| "upserts (UpsertPosition k row # ss) = (k, row) # upserts ss"
| "upserts (s # ss) = upserts ss"

definition upsert_row :: "position_row option \<Rightarrow> position_row \<Rightarrow> position_row" where
  "upsert_row old row =
     (case old of None \<Rightarrow> row
      | Some old \<Rightarrow> old\<lparr>pw_lat := pw_lat row, pw_lng := pw_lng row, pw_route := pw_route row, pw_speed := pw_speed row,
            pw_bearing := pw_bearing row, pw_timestamp := pw_timestamp row, pw_updated := pw_updated row\<rparr>)"

definition upsert :: "string \<times> position_row \<Rightarrow> (string, position_row) fmap \<Rightarrow> (string, position_row) fmap" where
  "upsert kr m = fmupd (fst kr) (upsert_row (fmlookup m (fst kr)) (snd kr)) m"










lemma run_statements_positions:
  "run_statements ss db = Some db' \<Longrightarrow> d1_positions db' = fold upsert (upserts ss) (d1_positions db) \<and> d1_sessions db' = d1_sessions db \<and>
     d1_regionPoll db' = d1_regionPoll db"
proof (induction ss arbitrary: db)
  case (Cons s ss)
  then show ?case by (cases s) (auto simp: upsert_def upsert_row_def split: option.splits if_splits)
qed simp



section \<open>The statements of a batch\<close>














section \<open>Storing a batch\<close>























definition sample_reading :: "string \<Rightarrow> rat option \<Rightarrow> body_position" where
  "sample_reading k lat = \<lparr>bp_id = k, bp_agency = ''ktmb'', bp_group = ''ktmb'', bp_lat = lat, bp_lng = Some 101, bp_route = [], bp_speed = None,
     bp_bearing = None, bp_timestamp = None\<rparr>"


lemma sample_reading_id [simp]: "bp_id (sample_reading k lat) = k"
  by (simp add: sample_reading_def)



section \<open>Sessions\<close>

definition site_sessions_ok :: "d1 \<Rightarrow> bool" where
  "site_sessions_ok db \<longleftrightarrow>
     (\<forall>sid row. fmlookup (d1_sessions db) sid = Some row \<longrightarrow> knownRegion (sw_region row) \<noteq> None \<and> sw_poll row \<in> set ALLOWED_POLL)"

lemma first_region_known: "knownRegion (sr_ID (hd REGIONS)) \<noteq> None"
  by (simp add: knownRegion_def find_None_iff REGIONS_def site_config_def AllRegions_def mapRegions_def)

lemma normalizePoll_allowed: "normalizePoll x \<noteq> 0 \<Longrightarrow> normalizePoll x \<in> set ALLOWED_POLL"
  by (cases x) (auto simp: ALLOWED_POLL_def split: if_splits)

lemma sessions_ok_upd:
  "site_sessions_ok db \<Longrightarrow> knownRegion (sw_region row) \<noteq> None \<Longrightarrow> sw_poll row \<in> set ALLOWED_POLL \<Longrightarrow>
   site_sessions_ok (db\<lparr>d1_sessions := fmupd sid row (d1_sessions db)\<rparr>)"
  by (auto simp: site_sessions_ok_def)

text \<open>A session's region is known and its interval allowed, whatever its row held.\<close>

lemma worker_session_ok:
  assumes "site_sessions_ok db" "worker_session cookie uuid now db = ((sid, rid, n), db')"
  shows "site_sessions_ok db' \<and> knownRegion rid \<noteq> None \<and> n \<in> set ALLOWED_POLL"
proof -
  define s0 where "s0 = (case cookie of None \<Rightarrow> uuid | Some c \<Rightarrow> c)"
  show ?thesis
  proof (cases "fmlookup (d1_sessions db) s0")
    case None
    then show ?thesis
      using assms first_region_known by (auto simp: worker_session_def s0_def [symmetric] Let_def DEFAULT_POLL_def ALLOWED_POLL_def intro!: sessions_ok_upd)
  next
    case (Some row)
    have row: "knownRegion (sw_region row) \<noteq> None" "sw_poll row \<in> set ALLOWED_POLL"
      using assms(1) Some by (auto simp: site_sessions_ok_def)
    have n: "n = (if normalizePoll (Fin (of_int (sw_poll row))) = 0 then DEFAULT_POLL else normalizePoll (Fin (of_int (sw_poll row))))"
      using assms(2) Some by (auto simp: worker_session_def s0_def [symmetric] Let_def simp del: normalizePoll.simps)
    have "n \<in> set ALLOWED_POLL" unfolding n using normalizePoll_allowed by (simp add: DEFAULT_POLL_def ALLOWED_POLL_def)
    moreover have "site_sessions_ok db'"
      using assms Some row by (auto simp: worker_session_def s0_def [symmetric] Let_def intro!: sessions_ok_upd)
    moreover have "knownRegion rid \<noteq> None"
      using assms(2) Some row(1) first_region_known by (auto simp: worker_session_def s0_def [symmetric] Let_def)
    ultimately show ?thesis by blast
  qed
qed

lemma run_batches_sessions: "d1_sessions (snd (run_batches ss db)) = d1_sessions db"
proof (induction ss db rule: run_batches.induct)
  case (1 ss db)
  then show ?case
    by (subst run_batches.simps) (auto split: option.splits dest: run_statements_positions)
qed

lemma sessions_ok_cong: "d1_sessions db' = d1_sessions db \<Longrightarrow> site_sessions_ok db' = site_sessions_ok db"
  by (simp add: site_sessions_ok_def)

lemma ingest_sessions: "d1_sessions (wk_db (snd (ingest token auth body now uuid w))) = d1_sessions (wk_db w)"
proof -
  have "d1_sessions db = d1_sessions (wk_db w)" if "run_batches ss (wk_db w) = (e, db)" for ss e db
    using run_batches_sessions [of ss "wk_db w"] that by simp
  then show ?thesis by (auto simp: ingest_def Let_def split: sum.splits prod.splits option.splits)
qed

lemma poll_sessions: "d1_sessions (wk_db (snd (worker_pollGTFS token inp rid force n w))) = d1_sessions (wk_db w)"
proof -
  have claim: "d1_sessions db = d1_sessions (wk_db w)" if "claimRegionPoll t rid force n (wk_db w) = (ok, db)" for t ok db
    using that by (auto simp: claimRegionPoll_def Let_def split: option.splits if_splits)
  have "d1_sessions (wk_db w') = d1_sessions db" if "ingest token auth body now uuid (w\<lparr>wk_db := db\<rparr>) = (res, w')" for auth body now uuid db res w'
    using ingest_sessions [of token auth body now uuid "w\<lparr>wk_db := db\<rparr>"] that by simp
  then show ?thesis
    by (auto simp: worker_pollGTFS_def finish_region_poll_def Let_def claim split: prod.splits bool.splits sum.splits)
qed

lemma update_session_ok:
  "site_sessions_ok (wk_db w) \<Longrightarrow>
   (\<And>row. knownRegion (sw_region row) \<noteq> None \<Longrightarrow> sw_poll row \<in> set ALLOWED_POLL \<Longrightarrow> knownRegion (sw_region (f row)) \<noteq> None \<and> sw_poll (f row) \<in> set ALLOWED_POLL) \<Longrightarrow>
   site_sessions_ok (wk_db (update_session sid f w))"
  by (auto simp: update_session_def site_sessions_ok_def split: option.splits)

lemma route_sessions_ok:
  assumes "site_sessions_ok (wk_db w)"
  shows "site_sessions_ok (wk_db (snd (site_route se r sid rid n w)))"
proof -
  have "site_sessions_ok (wk_db (snd (worker_pollGTFS token inp rid' force n' w)))" for token inp rid' force n'
    using assms sessions_ok_cong [OF poll_sessions] by blast
  moreover have "site_sessions_ok (wk_db (snd (site_poll_interval se r sid n w)))"
    using assms normalizePoll_allowed
    by (auto simp: site_poll_interval_def Let_def intro!: update_session_ok split: site_body.splits)
  moreover have "site_sessions_ok (wk_db (snd (site_region_route se r sid rid n w)))"
    using assms by (auto simp: site_region_route_def intro!: update_session_ok split: site_body.splits)
  ultimately show ?thesis using assms by (simp add: site_route_def)
qed

text \<open>Whatever is asked, a request leaves every session with a region of the catalogue and an allowed interval.\<close>

lemma site_fetch_sessions_ok:
  assumes "site_sessions_ok (wk_db w)"
  shows "site_sessions_ok (wk_db (snd (site_fetch se r w)))"
proof (cases "wq_path r = ''/api/ingest'' \<and> wq_method r = ''POST''")
  case True
  then show ?thesis using assms sessions_ok_cong [OF ingest_sessions] by (simp add: site_fetch_def)
next
  case False
  obtain sid rid n db where s: "worker_session (wq_cookie r) (se_UUID se) (se_Now se 0) (wk_db w) = ((sid, rid, n), db)" by (metis surj_pair)
  have "site_sessions_ok (wk_db (snd (site_route se r sid rid n (w\<lparr>wk_db := db\<rparr>))))"
    using worker_session_ok [OF assms s] by (intro route_sessions_ok) simp
  then show ?thesis
    unfolding site_fetch_def if_not_P [OF False] s by (auto split: sum.splits prod.splits response.splits)
qed

section \<open>Fetching and replaying\<close>

text \<open>A fetch waits at most five times, each time between nothing and thirty seconds.\<close>

lemma fetch_loop_waits:
  "length (snd (fetch_loop td clock reply feed n err)) \<le> n - 1 \<and> (\<forall>x\<in>set (snd (fetch_loop td clock reply feed n err)). 0 \<le> x \<and> x \<le> 30000)"
proof (induction n arbitrary: err)
  case (Suc n)
  have "0 \<le> backoffMs a" for a by (simp add: backoffMs_def Let_def)
  moreover have "retryAfterMs h = Some x \<Longrightarrow> 0 \<le> x" for h x
    by (auto simp: retryAfterMs_def split: option.splits float64.splits if_splits)
  ultimately have w: "0 \<le> (case retryAfterMs h of None \<Rightarrow> backoffMs a | Some x \<Rightarrow> x)" for h a
    by (simp split: option.splits)
  have "0 < n \<Longrightarrow> Suc (length (snd (fetch_loop td clock reply feed n e))) \<le> n" for e
    using Suc.IH [of e] by linarith
  then show ?case using Suc.IH w by (auto simp: Let_def split: sum.splits)
qed simp

lemma fetchFeed_waits: "length (snd (fetchFeed td clock reply feed)) \<le> 5 \<and> (\<forall>x\<in>set (snd (fetchFeed td clock reply feed)). 0 \<le> x \<and> x \<le> 30000)"
  using fetch_loop_waits [of td clock reply feed MAX_POLL_ATTEMPTS "[]"] by (simp add: fetchFeed_def MAX_POLL_ATTEMPTS_def)

text \<open>What a replay has merged after some batches: of every vehicle the last position in them.\<close>

definition batch_positions :: "(string, r2_batch) fmap \<Rightarrow> (string \<times> int) list \<Rightarrow> body_position list" where
  "batch_positions objects rows = concat (map (\<lambda>(key, _). case fmlookup objects key of None \<Rightarrow> [] | Some b \<Rightarrow> rb_positions b) rows)"

definition merge_rows :: "(string, r2_batch) fmap \<Rightarrow> (string \<times> int) list \<Rightarrow> (string \<times> body_position) list \<Rightarrow> (string \<times> body_position) list" where
  "merge_rows objects rows m = fold (\<lambda>(key, _). merge_batch (fmlookup objects key)) rows m"

lemma merge_positions_lookup:
  "map_of (fold (\<lambda>p. AList.update (bp_id p) p) ps m) k =
     (case List.find (\<lambda>p. bp_id p = k) (rev ps) of None \<Rightarrow> map_of m k | Some p \<Rightarrow> Some p)"
proof (induction ps rule: rev_induct)
  case (snoc p ps)
  then show ?case by (simp add: update_conv')
qed simp

lemma merge_rows_fold: "merge_rows objects rows m = fold (\<lambda>p. AList.update (bp_id p) p) (batch_positions objects rows) m"
  by (induction rows arbitrary: m) (auto simp: merge_rows_def batch_positions_def merge_batch_def split: option.splits)

lemma merge_rows_lookup: "map_of (merge_rows objects rows []) k = List.find (\<lambda>p. bp_id p = k) (rev (batch_positions objects rows))"
  unfolding merge_rows_fold merge_positions_lookup by (simp split: option.splits)

text \<open>The frames of a replay, one for each batch, each with the vehicles of the region merged so far.\<close>

lemma replay_frames_nth:
  assumes "j < length rows"
  shows "replay_frames objects agencies cnt i rows m ! (2 * j) =
      (''vehicles'', JArray (map body_position_json (filter (\<lambda>p. bp_agency p \<in> set agencies) (map snd (merge_rows objects (take (Suc j) rows) m)))))"
    "length (replay_frames objects agencies cnt i rows m) = 2 * length rows"
proof -
  have "length (replay_frames objects agencies cnt i rows m) = 2 * length rows" for i rows m
    by (induction rows arbitrary: i m) (auto simp: Let_def)
  then show "length (replay_frames objects agencies cnt i rows m) = 2 * length rows" .
  show "replay_frames objects agencies cnt i rows m ! (2 * j) =
      (''vehicles'', JArray (map body_position_json (filter (\<lambda>p. bp_agency p \<in> set agencies) (map snd (merge_rows objects (take (Suc j) rows) m)))))"
    using assms
  proof (induction rows arbitrary: i j m)
    case (Cons row rows)
    obtain key t where row: "row = (key, t)" by fastforce
    show ?case
    proof (cases j)
      case 0
      then show ?thesis by (simp add: row merge_rows_def Let_def)
    next
      case (Suc j')
      then show ?thesis using Cons.IH [of j' "Suc i" "merge_batch (fmlookup objects key) m"] Cons.prems
        by (simp add: row merge_rows_def Let_def)
    qed
  qed simp
qed

end
