(* ===== verification/Demo_Replay.thy ===== *)
theory Demo_Replay
  imports Demo_Write
begin

text \<open>
  \<open>internal/demo/replay.go\<close> and \<open>internal/demo/snapshots.go\<close>: playing the change feeds of a
  region back as a sequence of frames, and the catalogue of what they hold.

  \<open>sort.Slice\<close> is not stable: it may return any permutation that is sorted for the comparison, so
  the sorting function is an argument and \<open>slice_sort\<close> says what \<open>sort.Slice\<close> promises. The context,
  the timer and the order in which the map is ranged over are the fields of \<open>replay_env\<close>; the
  callback is an action on a state of its own.
\<close>

section \<open>Data\<close>

definition replayFrameInterval :: duration where [go_consts]: "replayFrameInterval = second"

record ReplayOptions =
  ro_RegionID :: string
  ro_Speed :: int
  ro_From :: time
  ro_To :: time

record ReplayProgress =
  rp_Frame :: nat
  rp_Total :: nat
  rp_At :: time

record replayMutation =
  rm_at :: time
  rm_pos :: VehiclePosition

record replayFrameBucket =
  rf_at :: time
  rf_mutations :: "replayMutation list"

type_synonym 'a ReplayFrameFunc = "VehiclePosition list \<Rightarrow> ReplayProgress \<Rightarrow> 'a action"

record replay_env =
  re_CtxErr :: "nat \<Rightarrow> goerror option"
  re_Timer :: "nat \<Rightarrow> duration \<Rightarrow> goerror option"
  re_Range :: "(string, VehiclePosition) fmap \<Rightarrow> string list"

section \<open>Building frames\<close>

text \<open>The function given to \<open>DrainChangeFeed\<close>, which appends to \<open>mutations\<close>.\<close>

definition collect_mutation :: "ReplayOptions \<Rightarrow> Change \<Rightarrow> replayMutation list action" where
  "collect_mutation opts ch ms =
     (if ch_Operation ch \<noteq> ChangePut then (None, ms)
      else case ParseVehiclePosition (ch_Value ch) of
        Inl _ \<Rightarrow> (None, ms)
      | Inr pos \<Rightarrow>
          (if \<not> time_IsZero (ro_To opts) \<and> vp_Timestamp pos > ro_To opts then (None, ms)
           else (None, ms @ [\<lparr>rm_at = time_Truncate (vp_Timestamp pos) second, rm_pos = pos\<rparr>])))"

fun collect_agencies ::
  "('s, 'c) isle \<Rightarrow> ReplayOptions \<Rightarrow> string list \<Rightarrow> replayMutation list \<Rightarrow> 's DemoPipeline \<Rightarrow>
   (replayMutation list result \<times> 's DemoPipeline) option" where
  "collect_agencies ops opts [] ms p = Some (Inr ms, p)"
| "collect_agencies ops opts (agencyID # ids) ms p =
     (case fmlookup (dp_agencies p) agencyID of
        None \<Rightarrow> collect_agencies ops opts ids ms p
      | Some aw \<Rightarrow>
          (case RefreshReader ops (pd_Reader aw) (pd_State aw) of
             (Some e, s') \<Rightarrow> Some (Inl e, set_agency agencyID (aw\<lparr>pd_State := s'\<rparr>) p)
           | (None, s') \<Rightarrow>
               (case DrainChangeFeed ops s' (collect_mutation opts) ms of
                  None \<Rightarrow> None
                | Some (Some e, _) \<Rightarrow>
                    Some (Inl (Wrapf (''change feed '' @ agencyID) e), set_agency agencyID (aw\<lparr>pd_State := s'\<rparr>) p)
                | Some (None, (n, ms')) \<Rightarrow>
                    collect_agencies ops opts ids ms' (set_agency agencyID (aw\<lparr>pd_State := s'\<rparr>) p))))"

definition mutation_less :: "replayMutation \<Rightarrow> replayMutation \<Rightarrow> bool" where
  "mutation_less a b =
     (if rm_at a \<noteq> rm_at b then rm_at a < rm_at b
      else if vp_Agency (rm_pos a) \<noteq> vp_Agency (rm_pos b) then vp_Agency (rm_pos a) < vp_Agency (rm_pos b)
      else vp_VehicleID (rm_pos a) < vp_VehicleID (rm_pos b))"

text \<open>The loop that cuts the sorted mutations into frames; \<open>current\<close> and \<open>buckets\<close> are its variables.\<close>

fun bucket_loop :: "replayMutation list \<Rightarrow> replayFrameBucket \<Rightarrow> replayFrameBucket list \<Rightarrow> replayFrameBucket list" where
  "bucket_loop [] current buckets = (if rf_mutations current \<noteq> [] then buckets @ [current] else buckets)"
| "bucket_loop (mut # muts) current buckets =
     (let (current1, buckets1) =
        (if rf_mutations current = [] \<or> rf_at current \<noteq> rm_at mut
         then (\<lparr>rf_at = rm_at mut, rf_mutations = []\<rparr>, if rf_mutations current \<noteq> [] then buckets @ [current] else buckets)
         else (current, buckets))
      in bucket_loop muts (current1\<lparr>rf_mutations := rf_mutations current1 @ [mut]\<rparr>) buckets1)"

definition buildReplayFrames ::
  "('s, 'c) isle \<Rightarrow> (replayMutation list \<Rightarrow> replayMutation list) \<Rightarrow> ReplayOptions \<Rightarrow> 's DemoPipeline \<Rightarrow>
   (replayFrameBucket list result \<times> 's DemoPipeline) option" where
  "buildReplayFrames ops sort_slice opts p =
     (case RegionByID (ro_RegionID opts) of
        Inl e \<Rightarrow> Some (Inl e, p)
      | Inr region \<Rightarrow>
          (case collect_agencies ops opts (rg_Agencies region) [] p of
             None \<Rightarrow> None
           | Some (Inl e, p') \<Rightarrow> Some (Inl e, p')
           | Some (Inr ms, p') \<Rightarrow>
               (let mutations = sort_slice ms in
                if mutations = [] then Some (Inr [], p')
                else Some (Inr (bucket_loop mutations \<lparr>rf_at = time_zero, rf_mutations = []\<rparr> []), p'))))"

section \<open>Playing frames\<close>

definition sleepCtx :: "goerror option \<Rightarrow> duration \<Rightarrow> goerror option" where
  "sleepCtx answer d = (if d \<le> 0 then None else answer)"

definition merge_mutations :: "replayMutation list \<Rightarrow> (string, VehiclePosition) fmap \<Rightarrow> (string, VehiclePosition) fmap" where
  "merge_mutations ms m = fold (\<lambda>mut. fmupd (vehicle_key (rm_pos mut)) (rm_pos mut)) ms m"

text \<open>The frames before \<open>From\<close> are folded into \<open>merged\<close> silently.\<close>

fun skip_frames ::
  "time \<Rightarrow> replayFrameBucket list \<Rightarrow> (string, VehiclePosition) fmap \<Rightarrow> replayFrameBucket list \<times> (string, VehiclePosition) fmap" where
  "skip_frames fromt [] merged = ([], merged)"
| "skip_frames fromt (fr # frs) merged =
     (if \<not> time_IsZero fromt \<and> rf_at fr < fromt then skip_frames fromt frs (merge_mutations (rf_mutations fr) merged)
      else (fr # frs, merged))"

fun play_frames ::
  "replay_env \<Rightarrow> string set \<Rightarrow> duration \<Rightarrow> 'a ReplayFrameFunc \<Rightarrow> nat \<Rightarrow> nat \<Rightarrow> replayFrameBucket list \<Rightarrow>
   (string, VehiclePosition) fmap \<Rightarrow> 'a action" where
  "play_frames env agencySet delay onFrame n i [] merged a = (None, a)"
| "play_frames env agencySet delay onFrame n i (frame # frames) merged a =
     (case re_CtxErr env i of
        Some e \<Rightarrow> (Some e, a)
      | None \<Rightarrow>
          (let merged1 = merge_mutations (rf_mutations frame) merged;
               out = filter (\<lambda>pos. vp_Agency pos \<in> agencySet) (range_values (re_Range env merged1) merged1);
               prog = \<lparr>rp_Frame = i + 1, rp_Total = n, rp_At = rf_at frame\<rparr>
           in case onFrame out prog a of
                (Some e, a') \<Rightarrow> (Some e, a')
              | (None, a') \<Rightarrow>
                  (if i + 1 < n
                   then (case sleepCtx (re_Timer env i delay) delay of
                           Some e \<Rightarrow> (Some e, a')
                         | None \<Rightarrow> play_frames env agencySet delay onFrame n (i + 1) frames merged1 a')
                   else play_frames env agencySet delay onFrame n (i + 1) frames merged1 a')))"

definition RunReplay ::
  "('s, 'c) isle \<Rightarrow> (replayMutation list \<Rightarrow> replayMutation list) \<Rightarrow> replay_env \<Rightarrow> ReplayOptions \<Rightarrow> 'a ReplayFrameFunc \<Rightarrow>
   's DemoPipeline \<Rightarrow> 'a \<Rightarrow> ((goerror option \<times> 'a) \<times> 's DemoPipeline) option" where
  "RunReplay ops sort_slice env opts0 onFrame p a =
     (let opts = (if ro_Speed opts0 \<le> 0 then opts0\<lparr>ro_Speed := 1\<rparr> else opts0) in
      case buildReplayFrames ops sort_slice opts p of
        None \<Rightarrow> None
      | Some (Inl e, p') \<Rightarrow> Some ((Some e, a), p')
      | Some (Inr allFrames, p') \<Rightarrow>
          (if allFrames = [] then Some ((None, a), p')
           else case RegionByID (ro_RegionID opts) of
             Inl e \<Rightarrow> Some ((Some e, a), p')
           | Inr region \<Rightarrow>
               (case skip_frames (ro_From opts) allFrames fmempty of
                  (frames, merged) \<Rightarrow>
                    (if frames = [] then Some ((None, a), p')
                     else Some (play_frames env (set (rg_Agencies region)) (replayFrameInterval div ro_Speed opts) onFrame
                                  (length frames) 0 frames merged a, p')))))"

section \<open>The catalogue\<close>

record FeedEntry =
  fe_Agency :: string
  fe_ChangeCount :: nat
  fe_From :: time
  fe_To :: time

record AgencyCatalog =
  ac_Agency :: string
  ac_Count :: nat
  ac_Entries :: "FeedEntry list"

record RegionCatalog =
  rc_RegionID :: string
  rc_Label :: string
  rc_Empty :: bool
  rc_Message :: string
  rc_Total :: nat
  rc_Agencies :: "AgencyCatalog list"
  rc_Notes :: "string list"

definition agencyTimestampNS :: "string \<Rightarrow> int" where
  "agencyTimestampNS key = TimestampNSFromKey key"

definition summarizeAgencyFeed :: "('s, 'c) isle \<Rightarrow> 's PrefixDB \<Rightarrow> FeedEntry result option" where
  "summarizeAgencyFeed ops aw =
     (case SummarizeChangeFeed ops (pd_State aw) (Some agencyTimestampNS) of
        None \<Rightarrow> None
      | Some (Some e, _) \<Rightarrow> Some (Inl e)
      | Some (None, sm) \<Rightarrow> Some (Inr
          \<lparr>fe_Agency = pd_ID aw, fe_ChangeCount = cs_ChangeCount sm,
           fe_From = (if cs_From sm > 0 then time_Unix 0 (cs_From sm) else time_zero),
           fe_To = (if cs_To sm > 0 then time_Unix 0 (cs_To sm) else time_zero)\<rparr>))"

fun catalog_agencies ::
  "('s, 'c) isle \<Rightarrow> 's DemoPipeline \<Rightarrow> string list \<Rightarrow> RegionCatalog \<Rightarrow> RegionCatalog result option" where
  "catalog_agencies ops p [] cat = Some (Inr cat)"
| "catalog_agencies ops p (agencyID # ids) cat =
     (case fmlookup (dp_agencies p) agencyID of
        None \<Rightarrow> catalog_agencies ops p ids
          (cat\<lparr>rc_Agencies := rc_Agencies cat @ [\<lparr>ac_Agency = agencyID, ac_Count = 0, ac_Entries = []\<rparr>]\<rparr>)
      | Some aw \<Rightarrow>
          (case summarizeAgencyFeed ops aw of
             None \<Rightarrow> None
           | Some (Inl e) \<Rightarrow> Some (Inl (Wrapf (''agency '' @ agencyID) e))
           | Some (Inr entry) \<Rightarrow> catalog_agencies ops p ids
               (cat\<lparr>rc_Agencies := rc_Agencies cat @
                      [\<lparr>ac_Agency = agencyID, ac_Count = fe_ChangeCount entry, ac_Entries = [entry]\<rparr>],
                    rc_Total := rc_Total cat + fe_ChangeCount entry\<rparr>)))"

definition empty_catalog :: "MapRegion \<Rightarrow> RegionCatalog" where
  "empty_catalog rgn = \<lparr>rc_RegionID = rg_ID rgn, rc_Label = rg_Label rgn, rc_Empty = False, rc_Message = [], rc_Total = 0,
     rc_Agencies = [], rc_Notes =
       [''Catalog summarizes IsleDB change-feed history (full PUT values).'',
        ''Playback walks committed mutations in writer order and dedupes to latest per vehicle.'']\<rparr>"

definition CatalogForRegion :: "('s, 'c) isle \<Rightarrow> 's DemoPipeline \<Rightarrow> string \<Rightarrow> RegionCatalog result option" where
  "CatalogForRegion ops p regionID =
     (case RegionByID regionID of
        Inl e \<Rightarrow> Some (Inl e)
      | Inr rgn \<Rightarrow>
          (case catalog_agencies ops p (rg_Agencies rgn) (empty_catalog rgn) of
             None \<Rightarrow> None
           | Some (Inl e) \<Rightarrow> Some (Inl e)
           | Some (Inr cat) \<Rightarrow> Some (Inr
               (if rc_Total cat = 0
                then cat\<lparr>rc_Empty := True, rc_Message := ''No change-feed history for '' @ rg_Label rgn @
                  ''. Poll this region on the live map and wait for writer flush (~5s).''\<rparr>
                else cat))))"

end
