(* ===== verification/Demo_Web.thy ===== *)
theory Demo_Web
  imports Demo_App Demo_Replay Go_Http
begin

text \<open>
  \<open>internal/web/demo/server.go\<close>, \<open>replay.go\<close>, \<open>session.go\<close> and \<open>sse.go\<close>: the HTTP server of the
  demo, with its session middleware, its routes, the JSON views and the two event streams.

  A handler takes the request, the session id and what it gets from outside, and acts on the state of
  the process and a response writer. The HTML templates are data outside the model: a page is the
  data given to its template. The redirects with which \<open>ServeMux\<close> answers a path that is not clean
  are left out. The calls of one handler to the session store read the clock one after the other:
  \<open>calls i\<close> is the clock and what the file system answers at the \<open>i\<close>-th of them, the middleware's
  being the first.
\<close>

section \<open>Environment and pages\<close>

record session_call =
  cl_Persist :: persist_env
  cl_Now :: time

record handler_env =
  he_Calls :: "nat \<Rightarrow> session_call"
  he_Now :: time                        \<comment> \<open>the handler's own reading of the clock\<close>
  he_StatsNow :: time                   \<comment> \<open>the clock read for the statistics\<close>
  he_Order :: "string list"             \<comment> \<open>the order of the latest positions\<close>
  he_Zone :: int                        \<comment> \<open>the offset of the local time zone, in seconds\<close>

record indexData =
  id_Regions :: "MapRegion list"
  id_ActiveRegion :: MapRegion
  id_Feeds :: "Feed list"
  id_PollSeconds :: int
  id_PollOptions :: "int list"

datatype page = IndexPage indexData | ReplayPage indexData

type_synonym writer = "page Go_Http.writer"

section \<open>Writing JSON and events\<close>

text \<open>The encoder writes nothing when the value cannot be encoded.\<close>

definition writeJSON :: "json result \<Rightarrow> writer \<Rightarrow> writer" where
  "writeJSON v w =
     (let w1 = set_header ''Content-Type'' ''application/json'' w
      in case v of Inl e \<Rightarrow> w1 | Inr j \<Rightarrow> snd (write_chunk (CJson j) w1))"

definition writeSSE :: "string \<Rightarrow> json result \<Rightarrow> writer action" where
  "writeSSE event payload w =
     (if \<not> wr_Flusher w then (Some (Errorf ''streaming not supported''), w)
      else case payload of
        Inl e \<Rightarrow> (Some e, w)
      | Inr b \<Rightarrow> write_chunk (CEvent event b) w)"

definition initSSE :: "writer \<Rightarrow> writer" where
  "initSSE w = set_header ''Connection'' ''keep-alive'' (set_header ''Cache-Control'' ''no-cache'' (set_header ''Content-Type'' ''text/event-stream'' w))"

section \<open>Views\<close>

definition agencyGroup :: "string \<Rightarrow> string" where
  "agencyGroup agency =
     (if agency = ''ktmb'' then ''ktmb'' else if prefix ''prasarana'' agency then ''prasarana'' else ''mybas'')"

record vehicleView =
  vv_ID :: string
  vv_VehicleID :: string
  vv_Lat :: float64
  vv_Lng :: float64
  vv_Agency :: string
  vv_Group :: string
  vv_Route :: string
  vv_Speed :: float64
  vv_Bearing :: float64
  vv_Stale :: bool

record regionView =
  rv_ID :: string
  rv_Label :: string
  rv_Center :: "rat \<times> rat"
  rv_Zoom :: int
  rv_Agencies :: "string list"
  rv_Active :: bool

definition regionView_of :: "MapRegion \<Rightarrow> bool \<Rightarrow> regionView" where
  "regionView_of r active = \<lparr>rv_ID = rg_ID r, rv_Label = rg_Label r, rv_Center = rg_Center r, rv_Zoom = rg_Zoom r,
     rv_Agencies = rg_Agencies r, rv_Active = active\<rparr>"

definition regionViews :: "MapRegion list \<Rightarrow> string \<Rightarrow> regionView list" where
  "regionViews regions activeID = map (\<lambda>r. regionView_of r (rg_ID r = activeID)) regions"

definition feedViews :: "Feed list \<Rightarrow> (string \<times> string) list" where
  "feedViews feeds = map (\<lambda>f. (fd_Agency f, fd_Region f)) feeds"

definition toView :: "VehiclePosition \<Rightarrow> vehicleView" where
  "toView pos = \<lparr>vv_ID = vp_Agency pos @ '':'' @ vp_VehicleID pos, vv_VehicleID = vp_VehicleID pos, vv_Lat = vp_Lat pos,
     vv_Lng = vp_Lng pos, vv_Agency = vp_Agency pos, vv_Group = agencyGroup (vp_Agency pos), vv_Route = vp_Route pos,
     vv_Speed = vp_Speed pos, vv_Bearing = vp_Bearing pos, vv_Stale = False\<rparr>"

definition liveViews :: "VehiclePosition list \<Rightarrow> time \<Rightarrow> vehicleView list" where
  "liveViews positions now =
     map (\<lambda>pos. (toView pos)\<lparr>vv_Stale := time_Sub now (vp_Timestamp pos) > LiveMapFreshWindow\<rparr>) positions"

definition replayViews :: "VehiclePosition list \<Rightarrow> vehicleView list" where
  "replayViews positions = map toView positions"

text \<open>Their JSON texts. A nil slice is \<open>null\<close>; the members of a map come in the order of their names.\<close>

definition nil_strings :: "string list \<Rightarrow> json" where
  "nil_strings xs = (if xs = [] then JNull else JArray (map JString xs))"

fun json_array :: "json result list \<Rightarrow> json result" where
  "json_array [] = Inr (JArray [])"
| "json_array (r # rs) =
     (case r of Inl e \<Rightarrow> Inl e
      | Inr j \<Rightarrow> (case json_array rs of Inr (JArray js) \<Rightarrow> Inr (JArray (j # js)) | Inr j' \<Rightarrow> Inr j' | Inl e \<Rightarrow> Inl e))"

definition mem_value :: "string \<Rightarrow> json \<Rightarrow> member" where
  "mem_value n j = Inr (Some (n, j))"

definition vehicleView_json :: "vehicleView \<Rightarrow> json result" where
  "vehicleView_json v = json_object
     [mem_string ''id'' (vv_ID v), mem_string ''vehicle_id'' (vv_VehicleID v), mem_float ''lat'' (vv_Lat v),
      mem_float ''lng'' (vv_Lng v), mem_string ''agency'' (vv_Agency v), mem_string ''group'' (vv_Group v),
      mem_string ''route'' (vv_Route v), mem_float ''speed'' (vv_Speed v), mem_float ''bearing'' (vv_Bearing v),
      mem_value ''stale'' (JBool (vv_Stale v))]"

definition vehicleViews_json :: "vehicleView list \<Rightarrow> json result" where
  "vehicleViews_json vs = json_array (map vehicleView_json vs)"

definition regionView_json :: "regionView \<Rightarrow> json result" where
  "regionView_json v = json_object
     [mem_string ''id'' (rv_ID v), mem_string ''label'' (rv_Label v),
      mem_value ''center'' (JArray [JNum (fst (rv_Center v)), JNum (snd (rv_Center v))]),
      mem_value ''zoom'' (JNum (of_int (rv_Zoom v))), mem_value ''agencies'' (nil_strings (rv_Agencies v)),
      mem_bool_omit ''active'' (rv_Active v)]"

definition feedViews_json :: "(string \<times> string) list \<Rightarrow> json" where
  "feedViews_json fs = JArray (map (\<lambda>(a, r). JObject [(''agency'', JString a), (''region'', JString r)]) fs)"

text \<open>\<open>t.Format("15:04:05")\<close> at an offset from UTC, or a dash for the zero time.\<close>

definition two_digits :: "int \<Rightarrow> string" where
  "two_digits n = [digit_char (nat (n div 10)), digit_char (nat (n mod 10))]"

definition clock_text :: "int \<Rightarrow> time \<Rightarrow> string" where
  "clock_text zone t =
     (if time_IsZero t then em_dash
      else let s = (t div second + zone) mod 86400
           in two_digits (s div 3600) @ '':'' @ two_digits (s div 60 mod 60) @ '':'' @ two_digits (s mod 60))"

section \<open>Sessions\<close>

definition hex_digit :: "nat \<Rightarrow> char" where
  "hex_digit n = ''0123456789abcdef'' ! n"

definition hex_EncodeToString :: "string \<Rightarrow> string" where
  "hex_EncodeToString b = concat (map (\<lambda>c. [hex_digit (of_char c div 16), hex_digit (of_char c mod 16)]) b)"

text \<open>\<open>rand\<close> is what the random source answers when asked for sixteen bytes.\<close>

definition newSessionID :: "string result \<Rightarrow> string result" where
  "newSessionID rand = map_sum id hex_EncodeToString rand"

definition session_cookie :: "string \<Rightarrow> http_cookie" where
  "session_cookie sid = \<lparr>ck_Name = SessionCookieName, ck_Value = sid, ck_Path = ''/'', ck_HttpOnly = True, ck_SameSiteLax = True\<rparr>"

definition touch_session :: "handler_env \<Rightarrow> nat \<Rightarrow> string \<Rightarrow> 's demo_app \<Rightarrow> 's demo_app" where
  "touch_session he i sid app = app\<lparr>da_Sessions := Touch (cl_Persist (he_Calls he i)) (cl_Now (he_Calls he i)) sid (da_Sessions app)\<rparr>"

definition withSession ::
  "(request \<Rightarrow> string \<Rightarrow> 's demo_app \<Rightarrow> writer \<Rightarrow> ('s demo_app \<times> writer) option) \<Rightarrow> handler_env \<Rightarrow> string result \<Rightarrow> request \<Rightarrow>
   's demo_app \<Rightarrow> writer \<Rightarrow> ('s demo_app \<times> writer) option" where
  "withSession handler he rand r app w =
     (let sid = (case map_of (rq_Cookies r) SessionCookieName of None \<Rightarrow> [] | Some v \<Rightarrow> v) in
      if sid = [] then
        (case newSessionID rand of
           Inl e \<Rightarrow> Some (app, http_Error ''session init failed'' 500 w)
         | Inr new \<Rightarrow> handler r new (touch_session he 0 new app) (w\<lparr>wr_Cookies := wr_Cookies w @ [session_cookie new]\<rparr>))
      else handler r sid (touch_session he 0 sid app) w)"

text \<open>A call of a session operation that also gives a value.\<close>

definition session_get ::
  "handler_env \<Rightarrow> nat \<Rightarrow> (persist_env \<Rightarrow> time \<Rightarrow> string \<Rightarrow> SessionStore \<Rightarrow> 'a \<times> SessionStore) \<Rightarrow> string \<Rightarrow> 's demo_app \<Rightarrow> 'a \<times> 's demo_app" where
  "session_get he i operation sid app =
     (case operation (cl_Persist (he_Calls he i)) (cl_Now (he_Calls he i)) sid (da_Sessions app) of
        (x, s) \<Rightarrow> (x, app\<lparr>da_Sessions := s\<rparr>))"

section \<open>Pages and regions\<close>

definition html_page :: "writer \<Rightarrow> writer" where
  "html_page w = set_header ''Cache-Control'' ''no-cache, no-store, must-revalidate'' (set_header ''Content-Type'' ''text/html; charset=utf-8'' w)"

definition handleIndex :: "handler_env \<Rightarrow> request \<Rightarrow> string \<Rightarrow> 's demo_app \<Rightarrow> writer \<Rightarrow> 's demo_app \<times> writer" where
  "handleIndex he r sid app w =
     (if rq_Path r \<noteq> ''/'' then (app, http_NotFound w)
      else
        (case session_get he 1 ActiveRegion sid app of (active, app1) \<Rightarrow>
        (case session_get he 2 ActiveFeeds sid app1 of (feeds, app2) \<Rightarrow>
        (case session_get he 3 SessionStore_PollSeconds sid app2 of (secs, app3) \<Rightarrow>
           (app3, snd (write_chunk (CPage (IndexPage
              \<lparr>id_Regions = AllRegions, id_ActiveRegion = active, id_Feeds = (case feeds of Inl e \<Rightarrow> [] | Inr fs \<Rightarrow> fs),
               id_PollSeconds = secs, id_PollOptions = AllowedPollSeconds\<rparr>)) (html_page w)))))))"

definition handleRegions :: "handler_env \<Rightarrow> request \<Rightarrow> string \<Rightarrow> 's demo_app \<Rightarrow> writer \<Rightarrow> 's demo_app \<times> writer" where
  "handleRegions he r sid app w =
     (if rq_Method r \<noteq> ''GET'' then (app, method_not_allowed w)
      else
        (case session_get he 1 SessionStore_Region sid app of (active, app1) \<Rightarrow>
        (case session_get he 2 SessionStore_Region sid app1 of (activeID, app2) \<Rightarrow>
           (app2, writeJSON (json_object
              [mem_string ''active'' active,
               mem_json ''regions'' (json_array (map regionView_json (regionViews AllRegions activeID)))]) w))))"

definition activeRegionPayload :: "handler_env \<Rightarrow> nat \<Rightarrow> string \<Rightarrow> 's demo_app \<Rightarrow> (regionView \<times> Feed list) result \<times> 's demo_app" where
  "activeRegionPayload he i sid app =
     (case session_get he i ActiveRegion sid app of (rgn, app1) \<Rightarrow>
     (case session_get he (i + 1) ActiveFeeds sid app1 of
        (Inl e, app2) \<Rightarrow> (Inl e, app2)
      | (Inr feeds, app2) \<Rightarrow> (Inr (regionView_of rgn False, feeds), app2)))"

definition writeRegionPayload ::
  "handler_env \<Rightarrow> nat \<Rightarrow> string \<Rightarrow> regionView \<Rightarrow> Feed list \<Rightarrow> 's demo_app \<Rightarrow> writer \<Rightarrow> 's demo_app \<times> writer" where
  "writeRegionPayload he i sid region feeds app w =
     (case session_get he i SessionStore_PollSeconds sid app of (secs, app1) \<Rightarrow>
        (app1, writeJSON (json_object
           [mem_value ''feeds'' (feedViews_json (feedViews feeds)), mem_value ''pollSeconds'' (JNum (of_int secs)),
            mem_json ''region'' (regionView_json region)]) w))"

definition region_payload :: "handler_env \<Rightarrow> nat \<Rightarrow> string \<Rightarrow> 's demo_app \<Rightarrow> writer \<Rightarrow> 's demo_app \<times> writer" where
  "region_payload he i sid app w =
     (case activeRegionPayload he i sid app of
        (Inl e, app1) \<Rightarrow> (app1, http_Error (error_text e) 500 w)
      | (Inr (region, feeds), app1) \<Rightarrow> writeRegionPayload he (i + 2) sid region feeds app1 w)"

definition getRegion :: "handler_env \<Rightarrow> string \<Rightarrow> 's demo_app \<Rightarrow> writer \<Rightarrow> 's demo_app \<times> writer" where
  "getRegion he sid app w = region_payload he 1 sid app w"

definition setRegionRequest_fields :: "string \<Rightarrow> string field_decoder option" where
  "setRegionRequest_fields n = (if n = ''id'' then Some (dec_string (\<lambda>x _. x)) else None)"

definition decode_body :: "(string \<Rightarrow> 'a field_decoder option) \<Rightarrow> 'a \<Rightarrow> request \<Rightarrow> 'a result" where
  "decode_body fs zero r = (case rq_Body r of Inl e \<Rightarrow> Inl e | Inr j \<Rightarrow> decode_struct fs zero j)"

text \<open>The callback of the server, when there is one.\<close>

type_synonym 's RegionChangeFunc = "string \<Rightarrow> 's demo_app \<Rightarrow> 's demo_app"

definition region_changed :: "'s RegionChangeFunc option \<Rightarrow> string \<Rightarrow> 's demo_app \<Rightarrow> 's demo_app" where
  "region_changed cb rid app = (case cb of None \<Rightarrow> app | Some f \<Rightarrow> f rid app)"

definition postRegion ::
  "'s RegionChangeFunc option \<Rightarrow> handler_env \<Rightarrow> request \<Rightarrow> string \<Rightarrow> 's demo_app \<Rightarrow> writer \<Rightarrow> 's demo_app \<times> writer" where
  "postRegion cb he r sid app w =
     (case decode_body setRegionRequest_fields [] r of
        Inl e \<Rightarrow> (app, http_Error ''invalid json'' 400 w)
      | Inr rid \<Rightarrow>
          (case session_get he 1 (\<lambda>pe now sid. SetRegion pe now sid rid) sid app of
             (Some e, app1) \<Rightarrow> (app1, http_Error (error_text e) 400 w)
           | (None, app1) \<Rightarrow> region_payload he 2 sid (region_changed cb rid app1) w))"

definition handleRegion ::
  "'s RegionChangeFunc option \<Rightarrow> handler_env \<Rightarrow> request \<Rightarrow> string \<Rightarrow> 's demo_app \<Rightarrow> writer \<Rightarrow> 's demo_app \<times> writer" where
  "handleRegion cb he r sid app w =
     (if rq_Method r = ''POST'' then postRegion cb he r sid app w
      else if rq_Method r = ''GET'' then getRegion he sid app w
      else (app, method_not_allowed w))"

section \<open>The poll interval\<close>

definition writePollInterval :: "handler_env \<Rightarrow> nat \<Rightarrow> string \<Rightarrow> 's demo_app \<Rightarrow> writer \<Rightarrow> 's demo_app \<times> writer" where
  "writePollInterval he i sid app w =
     (case session_get he i SessionStore_PollSeconds sid app of (secs, app1) \<Rightarrow>
        (app1, writeJSON (json_object
           [mem_value ''options'' (JArray (map (\<lambda>n. JNum (of_int n)) AllowedPollSeconds)),
            mem_value ''seconds'' (JNum (of_int secs))]) w))"

definition setPollIntervalRequest_fields :: "string \<Rightarrow> int field_decoder option" where
  "setPollIntervalRequest_fields n = (if n = ''seconds'' then Some (dec_int (\<lambda>x _. x)) else None)"

definition postPollInterval ::
  "'s RegionChangeFunc option \<Rightarrow> handler_env \<Rightarrow> request \<Rightarrow> string \<Rightarrow> 's demo_app \<Rightarrow> writer \<Rightarrow> 's demo_app \<times> writer" where
  "postPollInterval cb he r sid app w =
     (case decode_body setPollIntervalRequest_fields 0 r of
        Inl e \<Rightarrow> (app, http_Error ''invalid json'' 400 w)
      | Inr secs \<Rightarrow>
          (case session_get he 1 (\<lambda>pe now sid. SetPollSeconds pe now sid secs) sid app of
             (Some e, app1) \<Rightarrow> (app1, http_Error (error_text e) 400 w)
           | (None, app1) \<Rightarrow>
               (case cb of
                  None \<Rightarrow> writePollInterval he 3 sid app1 w
                | Some f \<Rightarrow>
                    (case session_get he 2 SessionStore_Region sid app1 of
                       (rid, app2) \<Rightarrow> writePollInterval he 3 sid (f rid app2) w))))"

definition handlePollInterval ::
  "'s RegionChangeFunc option \<Rightarrow> handler_env \<Rightarrow> request \<Rightarrow> string \<Rightarrow> 's demo_app \<Rightarrow> writer \<Rightarrow> 's demo_app \<times> writer" where
  "handlePollInterval cb he r sid app w =
     (if rq_Method r = ''GET'' then writePollInterval he 1 sid app w
      else if rq_Method r = ''POST'' then postPollInterval cb he r sid app w
      else (app, method_not_allowed w))"

section \<open>Vehicles\<close>

definition handleVehicles :: "handler_env \<Rightarrow> request \<Rightarrow> string \<Rightarrow> 's demo_app \<Rightarrow> writer \<Rightarrow> 's demo_app \<times> writer" where
  "handleVehicles he r sid app w =
     (if rq_Method r \<noteq> ''GET'' then (app, method_not_allowed w)
      else
        (case session_get he 1 ActiveAgencies sid app of
           (Inl e, app1) \<Rightarrow> (app1, http_Error (error_text e) 500 w)
         | (Inr agencies, app1) \<Rightarrow>
             (app1, writeJSON (vehicleViews_json (liveViews (LivePositionsFor agencies (he_Now he) (he_Order he) (da_Pipe app1)) (he_Now he))) w)))"

text \<open>The three events of a snapshot; \<open>i\<close> is the first of its calls to the session store.\<close>

definition pushStats :: "handler_env \<Rightarrow> nat \<Rightarrow> string set \<Rightarrow> string \<Rightarrow> 's demo_app \<Rightarrow> writer \<Rightarrow> goerror option \<times> 's demo_app \<times> writer" where
  "pushStats he i agencies sid app w =
     (case StatsFor agencies (he_StatsNow he) (he_Order he) (da_Pipe app) of (cnt, lastPoll, events) \<Rightarrow>
     (case session_get he i SessionStore_Region sid app of (rid, app1) \<Rightarrow>
     (case writeSSE ''stats'' (Inr (JObject
        [(''activeRegion'', JString rid), (''eventCount'', JNum (of_int events)),
         (''lastUpdate'', JString (clock_text (he_Zone he) lastPoll)), (''vehicleCount'', JNum (of_nat cnt))])) w of
        (e, w1) \<Rightarrow> (e, app1, w1))))"

definition ingest_row :: "IngestRecord \<Rightarrow> json result" where
  "ingest_row rec = json_object
     [mem_string ''agency'' (ir_Agency rec), mem_string ''at'' (clock_text 0 (ir_At rec)), mem_float ''lat'' (ir_Lat rec),
      mem_float ''lng'' (ir_Lng rec), mem_string ''vehicle'' (ir_VehicleID rec)]"

definition pushIngest :: "handler_env \<Rightarrow> nat \<Rightarrow> string \<Rightarrow> 's demo_app \<Rightarrow> writer \<Rightarrow> goerror option \<times> 's demo_app \<times> writer" where
  "pushIngest he i sid app w =
     (case session_get he i SessionStore_Region sid app of (rid, app1) \<Rightarrow>
     (case session_get he (i + 1) ActiveRegion sid app1 of (active, app2) \<Rightarrow>
     (case session_get he (i + 2) ActiveAgencies sid app2 of
        (Inl e, app3) \<Rightarrow> (Some e, app3, w)
      | (Inr agencies, app3) \<Rightarrow>
          (case writeSSE ''ingest'' (json_object
             [mem_string ''activeLabel'' (rg_Label active), mem_string ''activeRegion'' rid,
              mem_value ''polledAgencies'' (nil_strings (filter (\<lambda>agency. agency \<in> agencies) (LastPolledAgencies (da_Pipe app3)))),
              mem_json ''records'' (json_array (map ingest_row (RecentIngestForRegion rid (da_Pipe app3))))]) w of
             (e, w1) \<Rightarrow> (e, app3, w1)))))"

definition pushSnapshot :: "handler_env \<Rightarrow> nat \<Rightarrow> string set \<Rightarrow> string \<Rightarrow> 's demo_app \<Rightarrow> writer \<Rightarrow> goerror option \<times> 's demo_app \<times> writer" where
  "pushSnapshot he i agencies sid app w =
     (case writeSSE ''vehicles'' (vehicleViews_json
        (liveViews (LivePositionsFor agencies (he_Now he) (he_Order he) (da_Pipe app)) (he_Now he))) w of
        (Some e, w1) \<Rightarrow> (Some e, app, w1)
      | (None, w1) \<Rightarrow>
          (case pushStats he i agencies sid app w1 of
             (Some e, app1, w2) \<Rightarrow> (Some e, app1, w2)
           | (None, app1, w2) \<Rightarrow> pushIngest he (i + 1) sid app1 w2))"

section \<open>The live stream\<close>

text \<open>What the \<open>select\<close> takes next, and what the rest of the process has done since the last turn.\<close>

datatype stream_event = StreamDone | Heartbeat | PollSignal bool

record 's stream_tick =
  sk_World :: "'s demo_app \<Rightarrow> 's demo_app"
  sk_Event :: stream_event
  sk_Env :: handler_env

text \<open>The loop; the result tells whether it has returned. The call \<open>0\<close> of a turn is its \<open>Touch\<close>.\<close>

fun stream_loop ::
  "nat \<Rightarrow> string set \<Rightarrow> string \<Rightarrow> 's stream_tick list \<Rightarrow> 's demo_app \<Rightarrow> writer \<Rightarrow> bool \<times> 's demo_app \<times> writer" where
  "stream_loop ch agencies sid [] app w = (False, app, w)"
| "stream_loop ch agencies sid (tick # ticks) app w =
     (let app1 = sk_World tick app; he = sk_Env tick in
      case sk_Event tick of
        StreamDone \<Rightarrow> (True, app1, w)
      | Heartbeat \<Rightarrow> stream_loop ch agencies sid ticks (touch_session he 0 sid app1) w
      | PollSignal ok \<Rightarrow>
          (let app2 = app1\<lparr>da_Notify := receive ch (da_Notify app1)\<rparr> in
           if \<not> ok then (True, app2, w)
           else
             (case pushSnapshot he 1 agencies sid (touch_session he 0 sid app2) w of
                (Some e, app3, w1) \<Rightarrow> (True, app3, w1)
              | (None, app3, w1) \<Rightarrow> stream_loop ch agencies sid ticks app3 w1)))"

definition acquire_live :: "string \<Rightarrow> 's demo_app \<Rightarrow> 's demo_app" where
  "acquire_live sid app = app\<lparr>da_Sessions := AcquireLive sid (da_Sessions app)\<rparr>"

definition release_live :: "string \<Rightarrow> 's demo_app \<Rightarrow> 's demo_app" where
  "release_live sid app = app\<lparr>da_Sessions := ReleaseLive sid (da_Sessions app)\<rparr>"

text \<open>What runs between the acquisition and the deferred release.\<close>

definition stream_body ::
  "nat \<Rightarrow> 's stream_tick list \<Rightarrow> handler_env \<Rightarrow> string \<Rightarrow> 's demo_app \<Rightarrow> writer \<Rightarrow> bool \<times> 's demo_app \<times> writer" where
  "stream_body ch ticks he sid app w =
     (let w1 = initSSE w in
      case session_get he 1 ActiveAgencies sid app of
        (Inl e, app1) \<Rightarrow> (True, app1, w1)
      | (Inr agencies, app1) \<Rightarrow>
          (case pushSnapshot he 2 agencies sid (app1\<lparr>da_Notify := SubscribePolls ch (da_Notify app1)\<rparr>) w1 of
             (Some e, app2, w2) \<Rightarrow> (True, app2, w2)
           | (None, app2, w2) \<Rightarrow> stream_loop ch agencies sid ticks app2 w2))"

definition handleVehicleStream ::
  "nat \<Rightarrow> 's stream_tick list \<Rightarrow> handler_env \<Rightarrow> string \<Rightarrow> 's demo_app \<Rightarrow> writer \<Rightarrow> bool \<times> 's demo_app \<times> writer" where
  "handleVehicleStream ch ticks he sid app w =
     (case stream_body ch ticks he sid (acquire_live sid app) w of
        (returned, app1, w1) \<Rightarrow> (returned, if returned then release_live sid app1 else app1, w1))"

section \<open>Replay\<close>

definition handleReplayIndex :: "handler_env \<Rightarrow> request \<Rightarrow> string \<Rightarrow> 's demo_app \<Rightarrow> writer \<Rightarrow> 's demo_app \<times> writer" where
  "handleReplayIndex he r sid app w =
     (if rq_Path r \<noteq> ''/replay'' then (app, http_NotFound w)
      else
        (case session_get he 1 ActiveRegion sid app of (active, app1) \<Rightarrow>
           (app1, snd (write_chunk (CPage (ReplayPage
              \<lparr>id_Regions = AllRegions, id_ActiveRegion = active, id_Feeds = [], id_PollSeconds = 0, id_PollOptions = []\<rparr>)) (html_page w)))))"

definition requested_region :: "handler_env \<Rightarrow> request \<Rightarrow> string \<Rightarrow> 's demo_app \<Rightarrow> string \<times> 's demo_app" where
  "requested_region he r sid app =
     (let rid = query_get r ''region'' in if rid = [] then session_get he 1 SessionStore_Region sid app else (rid, app))"

definition FeedEntry_json :: "FeedEntry \<Rightarrow> json result" where
  "FeedEntry_json en = json_object
     [mem_string ''agency'' (fe_Agency en), mem_value ''changeCount'' (JNum (of_nat (fe_ChangeCount en))),
      mem_time ''from'' (fe_From en), mem_time ''to'' (fe_To en)]"

text \<open>An agency without a database has no entries; its slice is nil.\<close>

definition AgencyCatalog_json :: "AgencyCatalog \<Rightarrow> json result" where
  "AgencyCatalog_json ac = json_object
     [mem_string ''agency'' (ac_Agency ac), mem_value ''count'' (JNum (of_nat (ac_Count ac))),
      mem_json ''entries'' (if ac_Entries ac = [] then Inr JNull else json_array (map FeedEntry_json (ac_Entries ac)))]"

definition RegionCatalog_json :: "RegionCatalog \<Rightarrow> json result" where
  "RegionCatalog_json c = json_object
     [mem_string ''regionId'' (rc_RegionID c), mem_string ''label'' (rc_Label c), mem_value ''empty'' (JBool (rc_Empty c)),
      mem_string_omit ''message'' (rc_Message c), mem_value ''total'' (JNum (of_nat (rc_Total c))),
      mem_json ''agencies'' (if rc_Agencies c = [] then Inr JNull else json_array (map AgencyCatalog_json (rc_Agencies c))),
      Inr (if rc_Notes c = [] then None else Some (''notes'', JArray (map JString (rc_Notes c))))]"

text \<open>\<open>replay = None\<close> is a server without a replay source; the result \<open>None\<close> is a handler that never returns.\<close>

definition handleReplayCatalog ::
  "('s, 'c) isle option \<Rightarrow> handler_env \<Rightarrow> request \<Rightarrow> string \<Rightarrow> 's demo_app \<Rightarrow> writer \<Rightarrow> ('s demo_app \<times> writer) option" where
  "handleReplayCatalog replay he r sid app w =
     (if rq_Method r \<noteq> ''GET'' then Some (app, method_not_allowed w)
      else case replay of
        None \<Rightarrow> Some (app, http_Error ''replay not configured'' 503 w)
      | Some ops \<Rightarrow>
        (case requested_region he r sid app of (rid, app1) \<Rightarrow>
        (case CatalogForRegion ops (da_Pipe app1) rid of
           None \<Rightarrow> None
         | Some (Inl e) \<Rightarrow> Some (app1, http_Error (error_text e) 400 w)
         | Some (Inr cat) \<Rightarrow> Some (app1, writeJSON (RegionCatalog_json cat) w))))"

text \<open>The text of \<open>formatReplayTime\<close> is the instant to the second, or a dash.\<close>

definition formatReplayTime :: "time \<Rightarrow> json" where
  "formatReplayTime t = (if time_IsZero t then JString em_dash else JTime (time_Truncate t second))"

definition replay_frame :: "writer ReplayFrameFunc" where
  "replay_frame positions prog w =
     (case writeSSE ''vehicles'' (vehicleViews_json (replayViews positions)) w of
        (Some e, w1) \<Rightarrow> (Some e, w1)
      | (None, w1) \<Rightarrow>
          writeSSE ''progress'' (Inr (JObject
            [(''at'', formatReplayTime (rp_At prog)), (''frame'', JNum (of_nat (rp_Frame prog))),
             (''status'', JString ''playing''), (''total'', JNum (of_nat (rp_Total prog)))])) w1)"

text \<open>An optional instant of the query; \<open>parse\<close> is \<open>time.Parse(time.RFC3339, \<dots>)\<close>.\<close>

definition query_time :: "(string \<Rightarrow> time result) \<Rightarrow> request \<Rightarrow> string \<Rightarrow> time result" where
  "query_time parse r k = (let v = query_get r k in if v = [] then Inr time_zero else parse v)"

definition query_speed :: "request \<Rightarrow> int" where
  "query_speed r = (case parse_int64 (query_get r ''speed'') of (speed, _) \<Rightarrow> if speed \<le> 0 then 1 else speed)"

text \<open>What follows the first event: the frames, and the event that ends the stream.\<close>

definition replay_finish :: "goerror option \<Rightarrow> writer \<Rightarrow> writer" where
  "replay_finish err w =
     (case err of
        Some e \<Rightarrow>
          (if errors_Is e CtxCanceled \<or> errors_Is e IOEOF then w
           else snd (writeSSE ''error'' (Inr (JObject [(''message'', JString (error_text e))])) w))
      | None \<Rightarrow> snd (writeSSE ''done'' (Inr (JObject [(''status'', JString ''complete'')])) w))"

definition handleReplayStream ::
  "('s, 'c) isle option \<Rightarrow> (replayMutation list \<Rightarrow> replayMutation list) \<Rightarrow> replay_env \<Rightarrow> (string \<Rightarrow> time result) \<Rightarrow> handler_env \<Rightarrow> request \<Rightarrow>
   string \<Rightarrow> 's demo_app \<Rightarrow> writer \<Rightarrow> ('s demo_app \<times> writer) option" where
  "handleReplayStream replay sort_slice env parse he r sid app w =
     (case replay of
        None \<Rightarrow> Some (app, http_Error ''replay not configured'' 503 w)
      | Some ops \<Rightarrow>
     (case requested_region he r sid app of (rid, app1) \<Rightarrow>
     (case query_time parse r ''from'' of
        Inl e \<Rightarrow> Some (app1, http_Error ''invalid from timestamp'' 400 w)
      | Inr fromt \<Rightarrow>
     (case query_time parse r ''to'' of
        Inl e \<Rightarrow> Some (app1, http_Error ''invalid to timestamp'' 400 w)
      | Inr tot \<Rightarrow>
     (case writeSSE ''progress'' (Inr (JObject
        [(''frame'', JNum 0), (''status'', JString ''starting''), (''total'', JNum 0)])) (initSSE w) of
        (Some e, w1) \<Rightarrow> Some (app1, w1)
      | (None, w1) \<Rightarrow>
          (case RunReplay ops sort_slice env \<lparr>ro_RegionID = rid, ro_Speed = query_speed r, ro_From = fromt, ro_To = tot\<rparr>
             replay_frame (da_Pipe app1) w1 of
             None \<Rightarrow> None
           | Some ((err, w2), p) \<Rightarrow> Some (app1\<lparr>da_Pipe := p\<rparr>, replay_finish err w2)))))))"

section \<open>Routing\<close>

record ('s, 'c) server =
  sv_ReplaySource :: "('s, 'c) isle option"
  sv_onRegionChange :: "'s RegionChangeFunc option"
  sv_Sort :: "replayMutation list \<Rightarrow> replayMutation list"
  sv_Replay :: replay_env
  sv_Parse :: "string \<Rightarrow> time result"
  sv_Chan :: nat                       \<comment> \<open>the channel made for a live stream\<close>
  sv_Ticks :: "'s stream_tick list"

definition route ::
  "('s, 'c) server \<Rightarrow> handler_env \<Rightarrow> request \<Rightarrow> string \<Rightarrow> 's demo_app \<Rightarrow> writer \<Rightarrow> ('s demo_app \<times> writer) option" where
  "route sv he r sid app w =
     (let p = rq_Path r in
      if p = ''/api/regions'' then Some (handleRegions he r sid app w)
      else if p = ''/api/region'' then Some (handleRegion (sv_onRegionChange sv) he r sid app w)
      else if p = ''/api/poll-interval'' then Some (handlePollInterval (sv_onRegionChange sv) he r sid app w)
      else if p = ''/api/vehicles'' then Some (handleVehicles he r sid app w)
      else if p = ''/api/vehicles/stream'' then
        (case handleVehicleStream (sv_Chan sv) (sv_Ticks sv) he sid app w of
           (returned, app1, w1) \<Rightarrow> if returned then Some (app1, w1) else None)
      else if p = ''/replay'' then Some (handleReplayIndex he r sid app w)
      else if p = ''/api/replay/catalog'' then handleReplayCatalog (sv_ReplaySource sv) he r sid app w
      else if p = ''/api/replay/stream'' then handleReplayStream (sv_ReplaySource sv) (sv_Sort sv) (sv_Replay sv) (sv_Parse sv) he r sid app w
      else Some (handleIndex he r sid app w))"

definition Handler ::
  "('s, 'c) server \<Rightarrow> handler_env \<Rightarrow> string result \<Rightarrow> request \<Rightarrow> 's demo_app \<Rightarrow> writer \<Rightarrow> ('s demo_app \<times> writer) option" where
  "Handler sv he rand r app w = withSession (route sv he) he rand r app w"

end
