(* ===== verification/Demo_Replay_Correct.thy ===== *)
theory Demo_Replay_Correct
  imports Demo_Replay
begin

text \<open>
  What a replay guarantees: its frames are the collected mutations in order of time, one frame per
  second; each frame shows every vehicle where it was last seen; a replay resumed at an instant
  shows exactly what the whole replay shows from there on; the catalogue counts what the feeds hold.
\<close>

section \<open>What \<open>sort.Slice\<close> promises\<close>

locale slice_sort =
  fixes less :: "'a \<Rightarrow> 'a \<Rightarrow> bool" and sort_slice :: "'a list \<Rightarrow> 'a list"
  assumes perm: "mset (sort_slice xs) = mset xs"
    and ordered: "sorted_wrt (\<lambda>a b. \<not> less b a) (sort_slice xs)"
begin

lemma sort_slice_Nil [simp]: "sort_slice xs = [] \<longleftrightarrow> xs = []"
  using perm [of xs] by auto

end

text \<open>Insertion sort, which \<open>sort.Slice\<close> itself uses for slices of fewer than twelve elements.\<close>

fun insert_mutation :: "replayMutation \<Rightarrow> replayMutation list \<Rightarrow> replayMutation list" where
  "insert_mutation x [] = [x]"
| "insert_mutation x (y # ys) = (if mutation_less x y then x # y # ys else y # insert_mutation x ys)"

definition insertion_sort :: "replayMutation list \<Rightarrow> replayMutation list" where
  "insertion_sort xs = fold insert_mutation xs []"

lemma mutation_less_trans: "\<not> mutation_less b a \<Longrightarrow> \<not> mutation_less c b \<Longrightarrow> \<not> mutation_less c a"
  by (auto simp: mutation_less_def split: if_splits)

lemma mutation_less_asym: "mutation_less a b \<Longrightarrow> \<not> mutation_less b a"
  by (auto simp: mutation_less_def split: if_splits)

lemma mset_insert_mutation [simp]: "mset (insert_mutation x ys) = add_mset x (mset ys)"
  by (induction ys) auto

lemma set_insert_mutation [simp]: "set (insert_mutation x ys) = insert x (set ys)"
  by (induction ys) auto

lemma ordered_insert_mutation:
  "sorted_wrt (\<lambda>a b. \<not> mutation_less b a) ys \<Longrightarrow> sorted_wrt (\<lambda>a b. \<not> mutation_less b a) (insert_mutation x ys)"
  by (induction ys) (auto dest: mutation_less_asym mutation_less_trans)

interpretation insertion: slice_sort mutation_less insertion_sort
proof unfold_locales
  fix xs
  have "mset (fold insert_mutation xs ys) = mset xs + mset ys" for ys
    by (induction xs arbitrary: ys) auto
  then show "mset (insertion_sort xs) = mset xs" by (simp add: insertion_sort_def)
  have "sorted_wrt (\<lambda>a b. \<not> mutation_less b a) ys \<Longrightarrow> sorted_wrt (\<lambda>a b. \<not> mutation_less b a) (fold insert_mutation xs ys)" for ys
    by (induction xs arbitrary: ys) (auto intro: ordered_insert_mutation)
  then show "sorted_wrt (\<lambda>a b. \<not> mutation_less b a) (insertion_sort xs)" by (simp add: insertion_sort_def)
qed

section \<open>Frames\<close>

text \<open>One frame per second, in strictly increasing order, none empty.\<close>

definition frames_ok :: "replayFrameBucket list \<Rightarrow> bool" where
  "frames_ok frs \<longleftrightarrow> sorted_wrt (<) (map rf_at frs) \<and>
     (\<forall>fr \<in> set frs. rf_mutations fr \<noteq> [] \<and> (\<forall>m \<in> set (rf_mutations fr). rm_at m = rf_at fr))"

abbreviation all_mutations :: "replayFrameBucket list \<Rightarrow> replayMutation list" where
  "all_mutations frs \<equiv> concat (map rf_mutations frs)"

lemma bucket_loop_ok:
  "frames_ok (bs @ [cur]) \<Longrightarrow> sorted (rf_at cur # map rm_at ms) \<Longrightarrow>
   frames_ok (bucket_loop ms cur bs) \<and> all_mutations (bucket_loop ms cur bs) = all_mutations (bs @ [cur]) @ ms"
proof (induction ms cur bs rule: bucket_loop.induct)
  case (1 cur bs)
  then show ?case by (simp add: frames_ok_def)
next
  case (2 m ms cur bs)
  have ne: "rf_mutations cur \<noteq> []" using "2.prems"(1) by (simp add: frames_ok_def)
  show ?case
  proof (cases "rf_at cur = rm_at m")
    case True
    have "frames_ok (bs @ [cur\<lparr>rf_mutations := rf_mutations cur @ [m]\<rparr>])"
      using "2.prems"(1) True by (auto simp: frames_ok_def)
    then show ?thesis using 2 ne True by simp
  next
    case False
    then have "rf_at cur < rm_at m" using "2.prems"(2) by simp
    then have "frames_ok ((bs @ [cur]) @ [\<lparr>rf_at = rm_at m, rf_mutations = [m]\<rparr>])"
      using "2.prems"(1) by (auto simp: frames_ok_def sorted_wrt_append)
    then show ?thesis using 2 ne False by simp
  qed
qed

lemma bucket_start:
  assumes "sorted (map rm_at ms)"
  shows "frames_ok (bucket_loop ms \<lparr>rf_at = t, rf_mutations = []\<rparr> []) \<and>
    all_mutations (bucket_loop ms \<lparr>rf_at = t, rf_mutations = []\<rparr> []) = ms"
proof (cases ms)
  case Nil
  then show ?thesis by (simp add: frames_ok_def)
next
  case (Cons m ms')
  let ?cur = "\<lparr>rf_at = rm_at m, rf_mutations = [m]\<rparr>"
  have "bucket_loop ms \<lparr>rf_at = t, rf_mutations = []\<rparr> [] = bucket_loop ms' ?cur []" by (simp add: Cons)
  moreover have "frames_ok ([] @ [?cur])" by (simp add: frames_ok_def)
  moreover have "sorted (rf_at ?cur # map rm_at ms')" using assms by (simp add: Cons)
  ultimately show ?thesis using bucket_loop_ok [of "[]" ?cur ms'] Cons by force
qed

section \<open>Collecting\<close>

text \<open>The mutation a change gives, and those of a whole feed.\<close>

definition mutation_of :: "ReplayOptions \<Rightarrow> Change \<Rightarrow> replayMutation option" where
  "mutation_of opts ch = (case ParseVehiclePosition (ch_Value ch) of
     Inr pos \<Rightarrow> (if ch_Operation ch = ChangePut \<and> (ro_To opts = time_zero \<or> vp_Timestamp pos \<le> ro_To opts)
                 then Some \<lparr>rm_at = time_Truncate (vp_Timestamp pos) second, rm_pos = pos\<rparr> else None)
   | Inl _ \<Rightarrow> None)"

definition feed_mutations :: "('s \<Rightarrow> Change list) \<Rightarrow> ReplayOptions \<Rightarrow> 's DemoPipeline \<Rightarrow> string \<Rightarrow> replayMutation list" where
  "feed_mutations feed opts p aid = (case fmlookup (dp_agencies p) aid of
     None \<Rightarrow> [] | Some aw \<Rightarrow> List.map_filter (mutation_of opts) (feed (pd_State aw)))"

lemma collect_mutation_eq:
  "collect_mutation opts ch ms = (None, ms @ (case mutation_of opts ch of None \<Rightarrow> [] | Some m \<Rightarrow> [m]))"
  by (auto simp: collect_mutation_def mutation_of_def time_IsZero_def split: sum.splits)

lemma apply_collect:
  "apply_changes (collect_mutation opts) chs (n, ms) = (None, (n + length chs, ms @ List.map_filter (mutation_of opts) chs))"
  by (induction chs arbitrary: n ms) (auto simp: collect_mutation_eq split: option.splits)

context live_store
begin

lemma collect_agency:
  assumes "live s"
  shows "\<exists>s'. RefreshReader ops True s = (None, s') \<and> live s' \<and>
    DrainChangeFeed ops s' (collect_mutation opts) ms =
      Some (None, (length (feed s'), ms @ List.map_filter (mutation_of opts) (feed s')))"
proof -
  obtain s' where s': "isle_Refresh ops s = (None, s')" "live s'" using live_refresh [OF assms] by blast
  show ?thesis
    using s' read_feed_all [OF page_hom_apply [of "collect_mutation opts"] live_readable [OF s'(2)], of "(0, ms)"]
    by (simp add: RefreshReader_def DrainChangeFeed_def apply_collect)
qed

lemma collect_live:
  "agencies_ok live p \<Longrightarrow> distinct ids \<Longrightarrow>
   \<exists>p'. collect_agencies ops opts ids ms p = Some (Inr (ms @ concat (map (feed_mutations feed opts p') ids)), p') \<and>
     agencies_ok live p' \<and> (\<forall>aid. aid \<notin> set ids \<longrightarrow> fmlookup (dp_agencies p') aid = fmlookup (dp_agencies p) aid)"
proof (induction ids arbitrary: ms p)
  case (Cons aid ids)
  show ?case
  proof (cases "fmlookup (dp_agencies p) aid")
    case None
    obtain p' where p': "collect_agencies ops opts ids ms p = Some (Inr (ms @ concat (map (feed_mutations feed opts p') ids)), p')"
        "agencies_ok live p'" "\<forall>aid. aid \<notin> set ids \<longrightarrow> fmlookup (dp_agencies p') aid = fmlookup (dp_agencies p) aid"
      using Cons.IH [OF Cons.prems(1), of ms] Cons.prems(2) by auto
    then have "fmlookup (dp_agencies p') aid = None" using None Cons.prems(2) by simp
    then have "feed_mutations feed opts p' aid = []" by (simp add: feed_mutations_def)
    with p' None show ?thesis by auto
  next
    case (Some aw)
    note ok = agencies_okD [OF Cons.prems(1) Some]
    obtain s' where s': "RefreshReader ops True (pd_State aw) = (None, s')" "live s'"
        "DrainChangeFeed ops s' (collect_mutation opts) ms =
          Some (None, (length (feed s'), ms @ List.map_filter (mutation_of opts) (feed s')))"
      using collect_agency ok by blast
    define q where "q = set_agency aid (aw\<lparr>pd_State := s'\<rparr>) p"
    have q: "agencies_ok live q" unfolding q_def using ok s'(2) by (intro agencies_ok_set [OF Cons.prems(1)]) auto
    obtain p' where p': "collect_agencies ops opts ids (ms @ List.map_filter (mutation_of opts) (feed s')) q =
          Some (Inr ((ms @ List.map_filter (mutation_of opts) (feed s')) @ concat (map (feed_mutations feed opts p') ids)), p')"
        "agencies_ok live p'" "\<forall>a. a \<notin> set ids \<longrightarrow> fmlookup (dp_agencies p') a = fmlookup (dp_agencies q) a"
      using Cons.IH [OF q, of "ms @ List.map_filter (mutation_of opts) (feed s')"] Cons.prems(2) by auto
    have "fmlookup (dp_agencies p') aid = Some (aw\<lparr>pd_State := s'\<rparr>)" using p'(3) Cons.prems(2) by (simp add: q_def)
    then have "feed_mutations feed opts p' aid = List.map_filter (mutation_of opts) (feed s')" by (simp add: feed_mutations_def)
    with p' Some s' ok show ?thesis by (auto simp: q_def)
  qed
qed simp

end

lemma sorted_by_time:
  "sorted_wrt (\<lambda>a b. \<not> mutation_less b a) ms \<Longrightarrow> sorted (map rm_at ms)"
  by (auto simp: sorted_map mutation_less_def elim!: sorted_wrt_mono_rel [rotated] split: if_splits)

lemma feed_mutations_at:
  "m \<in> set (concat (map (feed_mutations feed opts p) ids)) \<Longrightarrow> rm_at m = time_Truncate (vp_Timestamp (rm_pos m)) second"
  by (auto simp: feed_mutations_def mutation_of_def List.map_filter_def split: option.splits sum.splits if_splits)

lemma region_agencies_distinct: "RegionByID i = Inr region \<Longrightarrow> distinct (rg_Agencies region)"
  using region_agencies_partition by (auto simp: RegionByID_Inr distinct_concat_iff)

lemma frames_live:
  assumes store: "live_store ops feed rest lag current committed view live"
    and srt: "slice_sort mutation_less sort_slice"
    and p: "agencies_ok live p" and region: "RegionByID (ro_RegionID opts) = Inr region"
  shows "\<exists>frames p'. buildReplayFrames ops sort_slice opts p = Some (Inr frames, p') \<and> agencies_ok live p' \<and>
    sorted_wrt (<) (map rf_at frames) \<and>
    (\<forall>fr \<in> set frames. rf_mutations fr \<noteq> [] \<and>
       (\<forall>m \<in> set (rf_mutations fr). rm_at m = rf_at fr \<and> rf_at fr \<le> vp_Timestamp (rm_pos m) \<and> vp_Timestamp (rm_pos m) < rf_at fr + second)) \<and>
    mset (all_mutations frames) = mset (concat (map (feed_mutations feed opts p') (rg_Agencies region)))"
proof -
  obtain p' where p': "agencies_ok live p'"
      "collect_agencies ops opts (rg_Agencies region) [] p = Some (Inr (concat (map (feed_mutations feed opts p') (rg_Agencies region))), p')"
    using live_store.collect_live [OF store p region_agencies_distinct [OF region], of opts "[]"] by auto
  let ?ms = "concat (map (feed_mutations feed opts p') (rg_Agencies region))"
  define frames where "frames = bucket_loop (sort_slice ?ms) \<lparr>rf_at = time_zero, rf_mutations = []\<rparr> []"
  have "sorted (map rm_at (sort_slice ?ms))"
    using slice_sort.ordered [OF srt] by (rule sorted_by_time)
  then have f: "frames_ok frames" "all_mutations frames = sort_slice ?ms"
    unfolding frames_def using bucket_start by blast+
  have b: "buildReplayFrames ops sort_slice opts p = Some (Inr frames, p')"
    using p' region by (simp add: buildReplayFrames_def Let_def frames_def)
  have m: "mset (all_mutations frames) = mset ?ms" by (simp only: f(2) slice_sort.perm [OF srt])
  have "rm_at m = time_Truncate (vp_Timestamp (rm_pos m)) second" if "fr \<in> set frames" "m \<in> set (rf_mutations fr)" for fr m
  proof -
    have "m \<in> set (all_mutations frames)" using that by auto
    also have "set (all_mutations frames) = set ?ms" using m by (rule mset_eq_setD)
    finally show ?thesis by (rule feed_mutations_at)
  qed
  then have "rm_at m \<le> vp_Timestamp (rm_pos m) \<and> vp_Timestamp (rm_pos m) < rm_at m + second" if "fr \<in> set frames" "m \<in> set (rf_mutations fr)" for fr m
    using that time_Truncate_le [of "vp_Timestamp (rm_pos m)" second] time_Truncate_gt [of second "vp_Timestamp (rm_pos m)"]
    by (simp add: second_def)
  with b p'(1) m f(1) show ?thesis unfolding frames_ok_def by (metis (no_types, lifting))
qed

text \<open>C33: over a store that serves every call, the frames of a known region come back, one per
  second in strictly increasing order, none empty; together they hold exactly the positions that
  the change feeds of the region's agencies put and that are not after \<open>To\<close>, each in the frame of
  its second. How the feeds are paged and how \<open>sort.Slice\<close> breaks ties play no part.\<close>

theorem replay_frames_exact:
  assumes store: "live_store ops feed rest lag current committed view live"
    and srt: "slice_sort mutation_less sort_slice"
    and p: "agencies_ok live p" and region: "RegionByID (ro_RegionID opts) = Inr region"
  shows "\<exists>frames p'. buildReplayFrames ops sort_slice opts p = Some (Inr frames, p') \<and> agencies_ok live p' \<and>
    sorted_wrt (<) (map rf_at frames) \<and>
    (\<forall>fr \<in> set frames. rf_mutations fr \<noteq> [] \<and>
       (\<forall>m \<in> set (rf_mutations fr). rm_at m = rf_at fr \<and> rf_at fr \<le> vp_Timestamp (rm_pos m) \<and> vp_Timestamp (rm_pos m) < rf_at fr + second)) \<and>
    mset (all_mutations frames) = mset (concat (map (feed_mutations feed opts p') (rg_Agencies region)))"
  by (rule frames_live [OF assms])

section \<open>Playing\<close>

text \<open>A context that is never cancelled, a callback that records what it is given, and what a run
  over given frames shows.\<close>

definition undisturbed :: "replay_env \<Rightarrow> bool" where
  "undisturbed env \<longleftrightarrow> (\<forall>i. re_CtxErr env i = None) \<and> (\<forall>i d. re_Timer env i d = None)"

definition record_frame :: "(VehiclePosition list \<times> ReplayProgress) list ReplayFrameFunc" where
  "record_frame out prog lg = (None, lg @ [(out, prog)])"

fun shown :: "replay_env \<Rightarrow> string set \<Rightarrow> replayFrameBucket list \<Rightarrow> (string, VehiclePosition) fmap \<Rightarrow> (VehiclePosition list \<times> time) list" where
  "shown env A [] m = []"
| "shown env A (fr # frs) m =
     (let m1 = merge_mutations (rf_mutations fr) m
      in (filter (\<lambda>pos. vp_Agency pos \<in> A) (range_values (re_Range env m1) m1), rf_at fr) # shown env A frs m1)"

definition numbered :: "nat \<Rightarrow> nat \<Rightarrow> (VehiclePosition list \<times> time) list \<Rightarrow> (VehiclePosition list \<times> ReplayProgress) list" where
  "numbered n i xs = map (\<lambda>(k, out, t). (out, \<lparr>rp_Frame = k + 1, rp_Total = n, rp_At = t\<rparr>)) (enumerate i xs)"

lemma play_record:
  "undisturbed env \<Longrightarrow> play_frames env A d record_frame n i frames m lg = (None, lg @ numbered n i (shown env A frames m))"
  by (induction frames arbitrary: i m lg)
    (simp_all add: undisturbed_def record_frame_def sleepCtx_def Let_def numbered_def)

lemma numbered_shown:
  "map (\<lambda>(out, prog). (out, rp_At prog)) (numbered n i xs) = xs"
  "map (\<lambda>(out, prog). rp_Frame prog) (numbered n i xs) = [Suc i..<Suc (i + length xs)]"
  "length (numbered n i xs) = length xs" "\<forall>(out, prog) \<in> set (numbered n i xs). rp_Total prog = n"
  by (induction xs arbitrary: i) (auto simp: numbered_def upt_conv_Cons)

lemma shown_times: "map snd (shown env A frames m) = map rf_at frames"
  by (induction frames arbitrary: m) (auto simp: Let_def)

lemma length_shown [simp]: "length (shown env A frames m) = length frames"
  using arg_cong [OF shown_times, where f = length] by simp

lemma shown_skip:
  "skip_frames t frames m = (frs, m') \<Longrightarrow>
   shown env A frs m' = dropWhile (\<lambda>(out, u). t \<noteq> time_zero \<and> u < t) (shown env A frames m)"
  by (induction t frames m rule: skip_frames.induct) (auto simp: Let_def time_IsZero_def split: if_splits)

lemma dropWhile_filter_sorted:
  "sorted (map snd xs) \<Longrightarrow> dropWhile (\<lambda>(x, u). t \<noteq> c \<and> u < t) xs = filter (\<lambda>(x, u). t = c \<or> t \<le> (u :: int)) xs"
  by (induction xs) (auto simp: filter_empty_conv filter_id_conv intro!: filter_True [symmetric])

lemma build_frames_ok:
  assumes "slice_sort mutation_less sort_slice" "buildReplayFrames ops sort_slice opts p = Some (Inr frames, p')"
  shows "frames_ok frames"
proof -
  have s: "sorted (map rm_at (sort_slice ms))" for ms
    using slice_sort.ordered [OF assms(1)] by (rule sorted_by_time)
  have "frames_ok []" by (simp add: frames_ok_def)
  with assms(2) bucket_start [OF s] show ?thesis
    by (auto simp: buildReplayFrames_def Let_def split: sum.splits option.splits if_splits)
qed

lemma build_from: "buildReplayFrames ops srt (opts\<lparr>ro_From := t\<rparr>) p = buildReplayFrames ops srt opts p"
  and build_speed: "buildReplayFrames ops srt (opts\<lparr>ro_Speed := n\<rparr>) p = buildReplayFrames ops srt opts p"
proof -
  have "collect_mutation (opts\<lparr>ro_From := t\<rparr>) = collect_mutation opts" "collect_mutation (opts\<lparr>ro_Speed := n\<rparr>) = collect_mutation opts"
    by (simp_all add: collect_mutation_def fun_eq_iff split: sum.splits)
  then have "collect_agencies ops (opts\<lparr>ro_From := t\<rparr>) ids ms p = collect_agencies ops opts ids ms p"
      "collect_agencies ops (opts\<lparr>ro_Speed := n\<rparr>) ids ms p = collect_agencies ops opts ids ms p" for ids ms p
    by (induction ids arbitrary: ms p; simp split: option.splits prod.splits)+
  then show "buildReplayFrames ops srt (opts\<lparr>ro_From := t\<rparr>) p = buildReplayFrames ops srt opts p"
      "buildReplayFrames ops srt (opts\<lparr>ro_Speed := n\<rparr>) p = buildReplayFrames ops srt opts p"
    by (simp_all add: buildReplayFrames_def split: sum.splits)
qed

text \<open>A run plays what is left of the frames after \<open>From\<close>, for every callback.\<close>

lemma RunReplay_play:
  assumes b: "buildReplayFrames ops sort_slice opts p = Some (Inr frames, p')" and r: "RegionByID (ro_RegionID opts) = Inr region"
    and sk: "skip_frames (ro_From opts) frames fmempty = (frs, m)"
  shows "RunReplay ops sort_slice env opts onFrame p a =
    Some (play_frames env (set (rg_Agencies region)) (replayFrameInterval div (if ro_Speed opts \<le> 0 then 1 else ro_Speed opts)) onFrame
      (length frs) 0 frs m a, p')"
proof -
  let ?o = "if ro_Speed opts \<le> 0 then opts\<lparr>ro_Speed := 1\<rparr> else opts"
  have "buildReplayFrames ops sort_slice ?o p = Some (Inr frames, p')" "ro_RegionID ?o = ro_RegionID opts" "ro_From ?o = ro_From opts"
    "ro_Speed ?o = (if ro_Speed opts \<le> 0 then 1 else ro_Speed opts)"
    using b by (auto simp: build_speed)
  with r sk show ?thesis by (cases "frames = []"; cases "frs = []") (auto simp: RunReplay_def Let_def)
qed

lemma shown_rest:
  assumes "slice_sort mutation_less sort_slice" "buildReplayFrames ops sort_slice opts p = Some (Inr frames, p')"
    and sk: "skip_frames (ro_From opts) frames fmempty = (frs, m)"
  shows "shown env A frs m = filter (\<lambda>(out, u). ro_From opts = time_zero \<or> ro_From opts \<le> u) (shown env A frames fmempty)"
proof -
  have "sorted (map snd (shown env A frames fmempty))"
    using build_frames_ok [OF assms(1,2)] by (simp add: shown_times frames_ok_def strict_sorted_imp_sorted)
  then show ?thesis using shown_skip [OF sk] dropWhile_filter_sorted by metis
qed

text \<open>What an undisturbed run records, in terms of the frames.\<close>

lemma RunReplay_record:
  assumes "undisturbed env" "slice_sort mutation_less sort_slice"
    and b: "buildReplayFrames ops sort_slice opts p = Some (Inr frames, p')" and r: "RegionByID (ro_RegionID opts) = Inr region"
  shows "\<exists>xs. RunReplay ops sort_slice env opts record_frame p [] = Some ((None, numbered (length xs) 0 xs), p') \<and>
    xs = filter (\<lambda>(out, u). ro_From opts = time_zero \<or> ro_From opts \<le> u) (shown env (set (rg_Agencies region)) frames fmempty)"
proof -
  obtain frs m where sk: "skip_frames (ro_From opts) frames fmempty = (frs, m)" by fastforce
  let ?xs = "shown env (set (rg_Agencies region)) frs m"
  have "RunReplay ops sort_slice env opts record_frame p [] = Some ((None, numbered (length ?xs) 0 ?xs), p')"
    by (simp add: RunReplay_play [OF b r sk] play_record [OF assms(1)])
  with shown_rest [OF assms(2) b sk] show ?thesis by metis
qed

text \<open>C6: an undisturbed replay resumed at \<open>From\<close> shows exactly what the whole replay shows from that
  instant on, frame by frame, vehicles last seen before \<open>From\<close> included; its frames are numbered
  from 1 and each announces their number.\<close>

theorem replay_resume:
  assumes env: "undisturbed env" and srt: "slice_sort mutation_less sort_slice"
    and full: "RunReplay ops sort_slice env (opts\<lparr>ro_From := time_zero\<rparr>) record_frame p [] = Some ((None, full), p1)"
  shows "\<exists>part. RunReplay ops sort_slice env opts record_frame p [] = Some ((None, part), p1) \<and>
    map (\<lambda>(out, prog). (out, rp_At prog)) part =
      filter (\<lambda>(out, t). ro_From opts = time_zero \<or> ro_From opts \<le> t) (map (\<lambda>(out, prog). (out, rp_At prog)) full) \<and>
    map (\<lambda>(out, prog). rp_Frame prog) part = [1..<length part + 1] \<and> (\<forall>(out, prog) \<in> set part. rp_Total prog = length part)"
proof -
  let ?z = "opts\<lparr>ro_From := time_zero\<rparr>"
  obtain frames where b: "buildReplayFrames ops sort_slice ?z p = Some (Inr frames, p1)"
    using full by (auto simp: RunReplay_def Let_def build_speed split: option.splits sum.splits prod.splits if_splits)
  then obtain region where r: "RegionByID (ro_RegionID ?z) = Inr region"
    by (auto simp: buildReplayFrames_def split: sum.splits)
  have "full = numbered (length frames) 0 (shown env (set (rg_Agencies region)) frames fmempty)"
    using RunReplay_record [OF env srt b r] full by (auto simp: filter_True)
  moreover have "buildReplayFrames ops sort_slice opts p = Some (Inr frames, p1)" "RegionByID (ro_RegionID opts) = Inr region"
    using b r by (simp_all add: build_from)
  ultimately show ?thesis
    using RunReplay_record [OF env srt, of ops opts p frames p1 region] by (auto simp: numbered_shown)
qed

section \<open>What a frame shows\<close>

lemma merge_mutations_append: "merge_mutations (xs @ ys) m = merge_mutations ys (merge_mutations xs m)"
  by (simp add: merge_mutations_def)

lemma merge_mutations_lookup:
  "fmlookup (merge_mutations ms m) x =
     (let xs = filter (\<lambda>mut. vehicle_key (rm_pos mut) = x) ms in if xs = [] then fmlookup m x else Some (rm_pos (last xs)))"
  by (induction ms arbitrary: m) (auto simp: merge_mutations_def Let_def)

lemma shown_nth:
  assumes "(out, t) \<in> set (shown env A frames m)"
  shows "\<exists>k < length frames. t = rf_at (frames ! k) \<and>
    (let mk = merge_mutations (all_mutations (take (Suc k) frames)) m
     in out = filter (\<lambda>pos. vp_Agency pos \<in> A) (range_values (re_Range env mk) mk))"
  using assms
proof (induction frames arbitrary: m)
  case (Cons fr frames)
  show ?case
  proof (cases "(out, t) \<in> set (shown env A frames (merge_mutations (rf_mutations fr) m))")
    case True
    from Cons.IH [OF this] obtain k where "k < length frames" "t = rf_at (frames ! k)"
        "let mk = merge_mutations (all_mutations (take (Suc k) frames)) (merge_mutations (rf_mutations fr) m)
         in out = filter (\<lambda>pos. vp_Agency pos \<in> A) (range_values (re_Range env mk) mk)" by blast
    then show ?thesis by (intro exI [of _ "Suc k"]) (simp add: merge_mutations_append)
  next
    case False
    with Cons.prems show ?thesis by (intro exI [of _ 0]) (simp add: Let_def)
  qed
qed simp

lemma frames_upto:
  assumes "frames_ok frames" and "k < length frames"
  shows "all_mutations (take (Suc k) frames) = filter (\<lambda>m. rm_at m \<le> rf_at (frames ! k)) (all_mutations frames)"
proof -
  have s: "sorted_wrt (<) (map rf_at frames)" using assms(1) by (simp add: frames_ok_def)
  have le: "rf_at fr \<le> rf_at (frames ! k)" if fr: "fr \<in> set (take (Suc k) frames)" for fr
  proof -
    obtain i where "i < Suc k" "fr = frames ! i" using fr assms(2) by (auto simp: in_set_conv_nth)
    then show ?thesis using sorted_wrt_nth_less [OF s, of i k] assms(2) by (cases "i = k") auto
  qed
  have gt: "rf_at (frames ! k) < rf_at fr" if "fr \<in> set (drop (Suc k) frames)" for fr
    using that assms(2) sorted_wrt_nth_less [OF s] by (auto simp: in_set_conv_nth)
  have at: "rm_at m = rf_at fr" if "fr \<in> set frames" "m \<in> set (rf_mutations fr)" for fr m
    using assms(1) that by (simp add: frames_ok_def)
  have "all_mutations frames = all_mutations (take (Suc k) frames) @ all_mutations (drop (Suc k) frames)"
    by (metis append_take_drop_id concat_append map_append)
  moreover have "filter (\<lambda>m. rm_at m \<le> rf_at (frames ! k)) (all_mutations (take (Suc k) frames)) = all_mutations (take (Suc k) frames)"
    using le at by (intro filter_True) (fastforce dest: in_set_takeD)
  moreover have "filter (\<lambda>m. rm_at m \<le> rf_at (frames ! k)) (all_mutations (drop (Suc k) frames)) = []"
    using gt at by (intro filter_False) (fastforce dest: in_set_dropD)
  ultimately show ?thesis by simp
qed

lemma frames_sorted: "frames_ok frames \<Longrightarrow> sorted (map rm_at (all_mutations frames))"
proof (induction frames)
  case (Cons fr frames)
  have fr: "\<forall>m \<in> set (rf_mutations fr). rm_at m = rf_at fr" "\<forall>f \<in> set frames. rf_at fr < rf_at f \<and> (\<forall>m \<in> set (rf_mutations f). rm_at m = rf_at f)"
    and ok: "frames_ok frames" using Cons.prems by (auto simp: frames_ok_def)
  have "sorted (map rm_at (rf_mutations fr))"
    using fr(1) by (simp add: sorted_map sorted_wrt_iff_nth_less)
  moreover have "\<forall>x \<in> set (rf_mutations fr). \<forall>y \<in> set (all_mutations frames). rm_at x \<le> rm_at y"
    using fr by fastforce
  ultimately show ?case using Cons.IH [OF ok] by (simp add: sorted_append)
qed simp

lemma last_max:
  "sorted (map f xs) \<Longrightarrow> x \<in> set xs \<Longrightarrow> f x \<le> (f (last xs) :: int)"
  by (induction xs rule: rev_induct) (auto simp: sorted_append)

text \<open>Merging keeps, for every vehicle, a position of the latest second in which it was seen.\<close>

lemma merged_latest:
  assumes "sorted (map rm_at ms)" and "fmlookup (merge_mutations ms fmempty) x = Some pos"
  shows "vehicle_key pos = x \<and> (\<exists>m \<in> set ms. rm_pos m = pos \<and> (\<forall>m' \<in> set ms. vehicle_key (rm_pos m') = x \<longrightarrow> rm_at m' \<le> rm_at m))"
proof -
  let ?xs = "filter (\<lambda>mut. vehicle_key (rm_pos mut) = x) ms"
  have xs: "?xs \<noteq> []" "pos = rm_pos (last ?xs)" using assms(2) by (auto simp: merge_mutations_lookup Let_def split: if_splits)
  then have "last ?xs \<in> set ?xs" using last_in_set by blast
  moreover have "sorted (map rm_at ?xs)" using assms(1) by (simp add: sorted_map sorted_wrt_filter)
  ultimately show ?thesis using xs(2) last_max [of rm_at ?xs] by auto
qed

lemma merged_keys:
  assumes "sorted (map rm_at ms)" and "distinct ks"
  shows "distinct (map vehicle_key (range_values ks (merge_mutations ms fmempty)))"
proof -
  have "map vehicle_key (range_values ks (merge_mutations ms fmempty)) = filter (\<lambda>x. fmlookup (merge_mutations ms fmempty) x \<noteq> None) ks" for ks
    using merged_latest [OF assms(1)] by (induction ks) (auto split: option.splits)
  with assms(2) show ?thesis by simp
qed

text \<open>A recorded frame shows the merge of everything up to its instant.\<close>

lemma recorded_frame:
  assumes "undisturbed env" and srt: "slice_sort mutation_less sort_slice"
    and b: "buildReplayFrames ops sort_slice opts p = Some (Inr frames, p')" and r: "RegionByID (ro_RegionID opts) = Inr region"
    and run: "RunReplay ops sort_slice env opts record_frame p [] = Some ((None, lg), p2)" "(out, prog) \<in> set lg"
    and mk: "mk = merge_mutations (filter (\<lambda>m. rm_at m \<le> rp_At prog) (all_mutations frames)) fmempty"
  shows "out = filter (\<lambda>pos. vp_Agency pos \<in> set (rg_Agencies region)) (range_values (re_Range env mk) mk)"
proof -
  obtain xs where xs: "lg = numbered (length xs) 0 xs" "set xs \<subseteq> set (shown env (set (rg_Agencies region)) frames fmempty)"
    using RunReplay_record [OF assms(1) srt b r] run(1) by auto
  have "(out, rp_At prog) \<in> set (map (\<lambda>(out, prog). (out, rp_At prog)) lg)" using run(2) by force
  then have "(out, rp_At prog) \<in> set (shown env (set (rg_Agencies region)) frames fmempty)"
    using xs by (simp only: numbered_shown) blast
  from shown_nth [OF this] frames_upto [OF build_frames_ok [OF srt b]] show ?thesis by (auto simp: mk Let_def)
qed

text \<open>C5: each frame of an undisturbed replay shows every vehicle of the region that has a position up
  to that second exactly once, at a position of the latest second in which it was seen (which of
  several positions within one second, \<open>sort.Slice\<close> decides), and shows nothing else.\<close>

theorem replay_shows_latest:
  assumes env: "undisturbed env" "\<And>m. range_order (re_Range env m) m" and srt: "slice_sort mutation_less sort_slice"
    and b: "buildReplayFrames ops sort_slice opts p = Some (Inr frames, p')"
    and cl: "\<forall>m \<in> set (all_mutations frames). clean (rm_pos m)"
    and r: "RegionByID (ro_RegionID opts) = Inr region"
    and run: "RunReplay ops sort_slice env opts record_frame p [] = Some ((None, lg), p2)" "(out, prog) \<in> set lg"
    and M: "M = {m \<in> set (all_mutations frames). rm_at m \<le> rp_At prog \<and> vp_Agency (rm_pos m) \<in> set (rg_Agencies region)}"
  shows "distinct (map vehicle_key out) \<and>
    (\<forall>pos \<in> set out. \<exists>m \<in> M. rm_pos m = pos \<and> (\<forall>m' \<in> M. vehicle_key (rm_pos m') = vehicle_key pos \<longrightarrow> rm_at m' \<le> rm_at m)) \<and>
    (\<forall>m \<in> M. \<exists>pos \<in> set out. vehicle_key pos = vehicle_key (rm_pos m))"
proof -
  let ?A = "set (rg_Agencies region)"
  define ms where "ms = filter (\<lambda>m. rm_at m \<le> rp_At prog) (all_mutations frames)"
  define mk where "mk = merge_mutations ms fmempty"
  have srtd: "sorted (map rm_at ms)"
    using frames_sorted [OF build_frames_ok [OF srt b]] by (simp add: ms_def sorted_map sorted_wrt_filter)
  note latest = merged_latest [OF srtd, folded mk_def]
  have out: "out = filter (\<lambda>pos. vp_Agency pos \<in> ?A) (range_values (re_Range env mk) mk)"
    using recorded_frame [OF env(1) srt b r run] by (simp add: mk_def ms_def)
  have "distinct (map vehicle_key out)"
    using merged_keys [OF srtd, of "re_Range env mk"] env(2) [of mk] by (simp add: out mk_def range_order_def distinct_map_filter)
  moreover have "\<exists>m \<in> M. rm_pos m = pos \<and> (\<forall>m' \<in> M. vehicle_key (rm_pos m') = vehicle_key pos \<longrightarrow> rm_at m' \<le> rm_at m)" if "pos \<in> set out" for pos
  proof -
    obtain x where "fmlookup mk x = Some pos" "vp_Agency pos \<in> ?A" using \<open>pos \<in> set out\<close> by (auto simp: out in_range_values)
    with latest [of x pos] show ?thesis by (auto simp: M ms_def)
  qed
  moreover have "\<exists>pos \<in> set out. vehicle_key pos = vehicle_key (rm_pos m)" if m: "m \<in> M" for m
  proof -
    have "m \<in> set ms" using m by (simp add: M ms_def)
    then obtain pos where pos: "fmlookup mk (vehicle_key (rm_pos m)) = Some pos"
      by (fastforce simp: mk_def merge_mutations_lookup Let_def filter_empty_conv)
    then obtain m' where m': "m' \<in> set ms" "rm_pos m' = pos" "vehicle_key pos = vehicle_key (rm_pos m)" using latest by blast
    then have "clean pos" "clean (rm_pos m)" using cl m by (auto simp: ms_def M)
    then have "vp_Agency pos = vp_Agency (rm_pos m)" using m'(3) by (auto simp: clean_def vehicle_key_def colon_split)
    then have "pos \<in> set out" using pos m env(2) [of mk] by (auto simp: out in_range_values M range_order_member)
    with m'(3) show ?thesis by blast
  qed
  ultimately show ?thesis by blast
qed

section \<open>The catalogue\<close>

text \<open>The puts of an agency's feed, and the entry the catalogue has for it.\<close>

definition feed_puts :: "('s \<Rightarrow> Change list) \<Rightarrow> 's DemoPipeline \<Rightarrow> string \<Rightarrow> Change list" where
  "feed_puts feed p aid = (case fmlookup (dp_agencies p) aid of
     None \<Rightarrow> [] | Some aw \<Rightarrow> filter (\<lambda>ch. ch_Operation ch = ChangePut) (feed (pd_State aw)))"

definition catalog_rows :: "('s \<Rightarrow> Change list) \<Rightarrow> 's DemoPipeline \<Rightarrow> string list \<Rightarrow> AgencyCatalog list \<Rightarrow> bool" where
  "catalog_rows feed p = list_all2 (\<lambda>aid ac. ac_Agency ac = aid \<and> ac_Count ac = length (feed_puts feed p aid) \<and>
     (if fmlookup (dp_agencies p) aid = None then ac_Entries ac = []
      else (let ts = put_times TimestampNSFromKey (feed_puts feed p aid) in
        ac_Entries ac = [\<lparr>fe_Agency = aid, fe_ChangeCount = ac_Count ac,
          fe_From = (if ts = [] then time_zero else Min (set ts)), fe_To = (if ts = [] then time_zero else Max (set ts))\<rparr>])))"

lemma put_times_puts: "put_times f (filter (\<lambda>ch. ch_Operation ch = ChangePut) chs) = put_times f chs"
  by (simp add: put_times_def)

context change_feed
begin

lemma summarizeAgencyFeed_ok:
  assumes "readable ops (pd_State aw)"
  shows "summarizeAgencyFeed ops aw = Some (Inr (let ts = put_times TimestampNSFromKey (feed (pd_State aw)) in
    \<lparr>fe_Agency = pd_ID aw, fe_ChangeCount = length (filter (\<lambda>ch. ch_Operation ch = ChangePut) (feed (pd_State aw))),
     fe_From = (if ts = [] then time_zero else Min (set ts)), fe_To = (if ts = [] then time_zero else Max (set ts))\<rparr>))"
proof -
  have f: "agencyTimestampNS = TimestampNSFromKey" by (simp add: agencyTimestampNS_def fun_eq_iff)
  have pos: "t \<in> set (put_times TimestampNSFromKey (feed (pd_State aw))) \<Longrightarrow> 0 < t" for t by (auto simp: put_times_def)
  have "0 < Min (set ts) \<and> 0 < Max (set ts)" if "ts \<noteq> []" "\<And>t. t \<in> set ts \<Longrightarrow> 0 < t" for ts :: "int list"
    using that by (meson List.finite_set Max_in Min_in set_empty)
  then show ?thesis
    using summarize_all [OF assms, of "Some TimestampNSFromKey"] pos
    by (auto simp: summarizeAgencyFeed_def f summarize_count summarize_from summarize_to Max_insert_0
        ChangeFeedSummary_zero_def time_Unix_def Let_def)
qed

lemma catalog_agencies_ok:
  assumes "\<And>aid aw. fmlookup (dp_agencies p) aid = Some aw \<Longrightarrow> pd_ID aw = aid \<and> readable ops (pd_State aw)"
  shows "\<exists>rows. catalog_agencies ops p ids cat = Some (Inr (cat\<lparr>rc_Agencies := rc_Agencies cat @ rows,
      rc_Total := rc_Total cat + (\<Sum>aid\<leftarrow>ids. length (feed_puts feed p aid))\<rparr>)) \<and> catalog_rows feed p ids rows"
proof (induction ids arbitrary: cat)
  case (Cons aid ids)
  show ?case
  proof (cases "fmlookup (dp_agencies p) aid")
    case None
    let ?row = "\<lparr>ac_Agency = aid, ac_Count = 0, ac_Entries = []\<rparr>"
    from Cons.IH [of "cat\<lparr>rc_Agencies := rc_Agencies cat @ [?row]\<rparr>"]
    obtain rows where "catalog_agencies ops p (aid # ids) cat = Some (Inr (cat\<lparr>rc_Agencies := rc_Agencies cat @ ?row # rows,
        rc_Total := rc_Total cat + (\<Sum>aid\<leftarrow>ids. length (feed_puts feed p aid))\<rparr>))" "catalog_rows feed p ids rows"
      using None by auto
    moreover have "catalog_rows feed p (aid # ids) (?row # rows)" "feed_puts feed p aid = []"
      using calculation(2) None by (simp_all add: catalog_rows_def feed_puts_def)
    ultimately show ?thesis by (intro exI [of _ "?row # rows"]) simp
  next
    case (Some aw)
    obtain entry where e: "summarizeAgencyFeed ops aw = Some (Inr entry)" "entry = (let ts = put_times TimestampNSFromKey (feed_puts feed p aid) in
        \<lparr>fe_Agency = aid, fe_ChangeCount = length (feed_puts feed p aid),
         fe_From = (if ts = [] then time_zero else Min (set ts)), fe_To = (if ts = [] then time_zero else Max (set ts))\<rparr>)"
      using summarizeAgencyFeed_ok [of aw] assms [OF Some] Some by (simp add: feed_puts_def put_times_puts)
    let ?row = "\<lparr>ac_Agency = aid, ac_Count = fe_ChangeCount entry, ac_Entries = [entry]\<rparr>"
    from Cons.IH [of "cat\<lparr>rc_Agencies := rc_Agencies cat @ [?row], rc_Total := rc_Total cat + fe_ChangeCount entry\<rparr>"]
    obtain rows where "catalog_agencies ops p (aid # ids) cat = Some (Inr (cat\<lparr>rc_Agencies := rc_Agencies cat @ ?row # rows,
        rc_Total := rc_Total cat + fe_ChangeCount entry + (\<Sum>aid\<leftarrow>ids. length (feed_puts feed p aid))\<rparr>))" "catalog_rows feed p ids rows"
      using Some e(1) by auto
    moreover have "catalog_rows feed p (aid # ids) (?row # rows)"
      using calculation(2) Some e(2) by (simp add: catalog_rows_def Let_def)
    moreover have "fe_ChangeCount entry = length (feed_puts feed p aid)" by (simp add: e(2) Let_def)
    ultimately show ?thesis by (intro exI [of _ "?row # rows"]) (simp add: add.assoc)
  qed
qed (simp add: catalog_rows_def)

end

text \<open>When no read fails, the catalogue of a known region has one row per agency of the region in
  its order, with the number of puts of the agency's feed and the range of their timestamps; the
  total is their sum, and the region is reported empty, with the hint to poll it, exactly when the
  total is 0. An agency without a writer has an empty row.\<close>

lemma catalog_exact:
  assumes "change_feed ops feed rest lag" and "RegionByID i = Inr rgn"
    and "\<And>aid aw. fmlookup (dp_agencies p) aid = Some aw \<Longrightarrow> pd_ID aw = aid \<and> readable ops (pd_State aw)"
  shows "\<exists>cat. CatalogForRegion ops p i = Some (Inr cat) \<and> rc_RegionID cat = i \<and> rc_Label cat = rg_Label rgn \<and>
    catalog_rows feed p (rg_Agencies rgn) (rc_Agencies cat) \<and>
    rc_Total cat = (\<Sum>aid\<leftarrow>rg_Agencies rgn. length (feed_puts feed p aid)) \<and>
    (rc_Empty cat \<longleftrightarrow> rc_Total cat = 0) \<and> (rc_Message cat = [] \<longleftrightarrow> rc_Total cat \<noteq> 0)"
proof -
  define tot where "tot = (\<Sum>aid\<leftarrow>rg_Agencies rgn. length (feed_puts feed p aid))"
  obtain rows where "catalog_agencies ops p (rg_Agencies rgn) (empty_catalog rgn) = Some (Inr ((empty_catalog rgn)\<lparr>rc_Agencies := rows,
      rc_Total := tot\<rparr>))" "catalog_rows feed p (rg_Agencies rgn) rows"
    using change_feed.catalog_agencies_ok [OF assms(1,3), where ids = "rg_Agencies rgn" and cat = "empty_catalog rgn"]
    by (auto simp: empty_catalog_def tot_def)
  moreover have "rg_ID rgn = i" using assms(2) by (simp add: RegionByID_Inr)
  ultimately show ?thesis using assms(2) unfolding tot_def [symmetric]
    by (cases "tot = 0") (simp_all add: CatalogForRegion_def empty_catalog_def)
qed

section \<open>A sample replay\<close>

text \<open>One agency whose feed holds two readings of a vehicle, thirty seconds apart.\<close>

definition later_position :: VehiclePosition where
  "later_position = sample_position\<lparr>vp_Timestamp := 1700000030 * 1000000000\<rparr>"

definition put_of :: "VehiclePosition \<Rightarrow> Change" where
  "put_of pos = put_change (VehiclePosition_Key pos) (projr (VehiclePosition_ValueBytes pos))"

definition sample_replay :: "mem DemoPipeline" where
  "sample_replay = set_agency ''mybas-ipoh'' (sample_agency\<lparr>pd_State := mem_empty\<lparr>mm_Log := [put_of sample_position, put_of later_position]\<rparr>\<rparr>)
     (empty_pipeline sample_config)"

definition sample_options :: ReplayOptions where
  "sample_options = \<lparr>ro_RegionID = ''northern'', ro_Speed = 10, ro_From = 1700000010 * 1000000000, ro_To = time_zero\<rparr>"

definition sample_env :: replay_env where
  "sample_env = \<lparr>re_CtxErr = (\<lambda>i. None), re_Timer = (\<lambda>i d. None), re_Range = (\<lambda>m. sorted_list_of_fset (fmdom m))\<rparr>"

definition frame_of :: "VehiclePosition \<Rightarrow> replayFrameBucket" where
  "frame_of pos = \<lparr>rf_at = vp_Timestamp pos, rf_mutations = [\<lparr>rm_at = vp_Timestamp pos, rm_pos = pos\<rparr>]\<rparr>"

lemma sample_env_ok: "undisturbed sample_env" "range_order (re_Range sample_env m) m"
  by (simp_all add: sample_env_def undisturbed_def range_order_def fmdom'_alt_def sorted_list_of_fset.rep_eq)

lemma sample_region: "\<exists>region. RegionByID ''northern'' = Inr region \<and> rg_Agencies region = [''mybas-kangar'', ''mybas-alor-setar'', ''mybas-ipoh'']"
  by (simp add: RegionByID_def mapRegions_def)

lemma sample_replay_ok: "agencies_ok mem_live sample_replay"
  by (auto simp: agencies_ok_def sample_replay_def set_agency_def empty_pipeline_def sample_agency_def mem_live_def mem_empty_def)

lemma mem_refresh: "isle_Refresh (mem_isle n) s = (None, s\<lparr>mm_View := feed_map (mm_Log s)\<rparr>)"
  by (simp add: mem_isle_def)

lemma drain_mem: "DrainChangeFeed (mem_isle n) s (collect_mutation opts) ms =
    Some (None, (length (mm_Log s), ms @ List.map_filter (mutation_of opts) (mm_Log s)))"
  unfolding DrainChangeFeed_def
  using mem_feed.read_feed_all [OF page_hom_apply [of "collect_mutation opts"] mem_readable, of n s "(0, ms)"] by (simp add: apply_collect)

lemma sample_mutation:
  assumes "pos \<in> {sample_position, later_position}"
  shows "mutation_of sample_options (put_of pos) = Some \<lparr>rm_at = vp_Timestamp pos, rm_pos = pos\<rparr>"
proof -
  have "writable pos"
    using assms by (auto simp: writable_def sample_position_def later_position_def VehiclePosition_zero_def time_json_ok_def)
  then have "ParseVehiclePosition (projr (VehiclePosition_ValueBytes pos)) = Inr pos"
    using ValueBytes_writable [of pos] ValueBytes_parse [of pos] by auto
  moreover have "time_Truncate (vp_Timestamp pos) second = vp_Timestamp pos"
    using assms by (auto simp: time_Truncate_second sample_position_def later_position_def)
  ultimately show ?thesis by (simp add: mutation_of_def put_of_def put_change_def sample_options_def)
qed

lemma sample_frames:
  "\<exists>p'. buildReplayFrames (mem_isle 1) insertion_sort sample_options sample_replay =
     Some (Inr [frame_of sample_position, frame_of later_position], p')"
proof -
  obtain region where r: "RegionByID (ro_RegionID sample_options) = Inr region"
      "rg_Agencies region = [''mybas-kangar'', ''mybas-alor-setar'', ''mybas-ipoh'']"
    using sample_region by (auto simp: sample_options_def)
  let ?m = "\<lambda>pos. \<lparr>rm_at = vp_Timestamp pos, rm_pos = pos\<rparr>"
  have "\<exists>p'. collect_agencies (mem_isle 1) sample_options (rg_Agencies region) [] sample_replay = Some (Inr [?m sample_position, ?m later_position], p')"
    unfolding r(2) by (simp add: sample_replay_def empty_pipeline_def sample_agency_def RefreshReader_def mem_refresh drain_mem sample_mutation)
  moreover have t: "vp_Timestamp sample_position < vp_Timestamp later_position"
    by (simp add: sample_position_def later_position_def)
  ultimately show ?thesis
    using r(1) by (auto simp: buildReplayFrames_def insertion_sort_def mutation_less_def frame_of_def Let_def)
qed

theorem replay_frames_exact_witness:
  "\<exists>frames p'. buildReplayFrames (mem_isle 1) insertion_sort sample_options sample_replay = Some (Inr frames, p') \<and> length frames = 2 \<and>
     sorted_wrt (<) (map rf_at frames)"
proof -
  obtain region where "RegionByID (ro_RegionID sample_options) = Inr region" using sample_region by (auto simp: sample_options_def)
  from replay_frames_exact [OF mem_live_store.live_store_axioms [of 1] insertion.slice_sort_axioms sample_replay_ok this] sample_frames
  show ?thesis by auto
qed

lemma map_snd_filter: "map snd (filter (\<lambda>(x, u). P u) xs) = filter P (map snd xs)"
  by (induction xs) auto

lemma sample_full:
  "\<exists>xs p'. RunReplay (mem_isle 1) insertion_sort sample_env (sample_options\<lparr>ro_From := t\<rparr>) record_frame sample_replay [] =
       Some ((None, numbered (length xs) 0 xs), p') \<and>
     map snd xs = filter (\<lambda>u. t = time_zero \<or> t \<le> u) [vp_Timestamp sample_position, vp_Timestamp later_position]"
proof -
  obtain p' where b: "buildReplayFrames (mem_isle 1) insertion_sort (sample_options\<lparr>ro_From := t\<rparr>) sample_replay =
      Some (Inr [frame_of sample_position, frame_of later_position], p')"
    using sample_frames by (auto simp: build_from)
  obtain region where r: "RegionByID (ro_RegionID (sample_options\<lparr>ro_From := t\<rparr>)) = Inr region"
    using sample_region by (auto simp: sample_options_def)
  from RunReplay_record [OF sample_env_ok(1) insertion.slice_sort_axioms b r] obtain xs where
    "RunReplay (mem_isle 1) insertion_sort sample_env (sample_options\<lparr>ro_From := t\<rparr>) record_frame sample_replay [] =
       Some ((None, numbered (length xs) 0 xs), p')"
    "xs = filter (\<lambda>(out, u). t = time_zero \<or> t \<le> u)
       (shown sample_env (set (rg_Agencies region)) [frame_of sample_position, frame_of later_position] fmempty)" by auto
  moreover from this(2) have "map snd xs = filter (\<lambda>u. t = time_zero \<or> t \<le> u) [vp_Timestamp sample_position, vp_Timestamp later_position]"
    using map_snd_filter [of _ "shown sample_env (set (rg_Agencies region)) [frame_of sample_position, frame_of later_position] fmempty"]
    by (simp only: shown_times) (simp add: frame_of_def)
  ultimately show ?thesis by blast
qed

theorem replay_resume_witness:
  "\<exists>part p1. RunReplay (mem_isle 1) insertion_sort sample_env sample_options record_frame sample_replay [] = Some ((None, part), p1) \<and>
     map (\<lambda>(out, prog). rp_At prog) part = [1700000030 * 1000000000]"
proof -
  obtain xs p' where full: "RunReplay (mem_isle 1) insertion_sort sample_env (sample_options\<lparr>ro_From := time_zero\<rparr>) record_frame sample_replay [] =
       Some ((None, numbered (length xs) 0 xs), p')" "map snd xs = [vp_Timestamp sample_position, vp_Timestamp later_position]"
    using sample_full [of time_zero] by fastforce
  from replay_resume [OF sample_env_ok(1) insertion.slice_sort_axioms full(1)] obtain part where
    part: "RunReplay (mem_isle 1) insertion_sort sample_env sample_options record_frame sample_replay [] = Some ((None, part), p')"
      "map (\<lambda>(out, prog). (out, rp_At prog)) part = filter (\<lambda>(out, t). ro_From sample_options = time_zero \<or> ro_From sample_options \<le> t) xs"
    by (auto simp: numbered_shown)
  have "map (\<lambda>(out, prog). rp_At prog) part = map snd (map (\<lambda>(out, prog). (out, rp_At prog)) part)" by auto
  also have "\<dots> = filter (\<lambda>u. ro_From sample_options = time_zero \<or> ro_From sample_options \<le> u) (map snd xs)"
    by (simp only: part(2) map_snd_filter)
  also have "\<dots> = [1700000030 * 1000000000]"
    by (simp add: full(2) sample_options_def time_zero_def sample_position_def later_position_def)
  finally show ?thesis by (intro exI conjI) (rule part(1))
qed

lemma distinct_singleton:
  assumes "\<And>x. x \<in> set xs \<Longrightarrow> x = a" and "xs \<noteq> []" and "distinct xs"
  shows "xs = [a]"
  using assms by (cases xs; cases "tl xs") auto

theorem replay_shows_latest_witness:
  "\<exists>lg p1 out prog. RunReplay (mem_isle 1) insertion_sort sample_env sample_options record_frame sample_replay [] = Some ((None, lg), p1) \<and>
     (out, prog) \<in> set lg \<and> map vehicle_key out = [''mybas-ipoh:PLX 1234'']"
proof -
  obtain p' where b: "buildReplayFrames (mem_isle 1) insertion_sort sample_options sample_replay =
     Some (Inr [frame_of sample_position, frame_of later_position], p')" using sample_frames by blast
  obtain region where r: "RegionByID (ro_RegionID sample_options) = Inr region" "''mybas-ipoh'' \<in> set (rg_Agencies region)"
    using sample_region by (auto simp: sample_options_def)
  have opts: "sample_options\<lparr>ro_From := ro_From sample_options\<rparr> = sample_options" by simp
  obtain xs p1 where xs: "RunReplay (mem_isle 1) insertion_sort sample_env sample_options record_frame sample_replay [] =
       Some ((None, numbered (length xs) 0 xs), p1)" "map snd xs = [vp_Timestamp later_position]"
  proof -
    have "filter (\<lambda>u. ro_From sample_options = time_zero \<or> ro_From sample_options \<le> u)
        [vp_Timestamp sample_position, vp_Timestamp later_position] = [vp_Timestamp later_position]"
      by (simp add: sample_options_def time_zero_def sample_position_def later_position_def)
    with sample_full [of "ro_From sample_options"] that show thesis unfolding opts by metis
  qed
  then obtain out where out: "xs = [(out, vp_Timestamp later_position)]" by auto
  let ?prog = "\<lparr>rp_Frame = 1, rp_Total = 1, rp_At = vp_Timestamp later_position\<rparr>"
  have mem: "(out, ?prog) \<in> set (numbered (length xs) 0 xs)" by (simp add: out numbered_def)
  have k: "vehicle_key sample_position = ''mybas-ipoh:PLX 1234''" "vehicle_key later_position = ''mybas-ipoh:PLX 1234''"
    by (simp_all add: vehicle_key_def sample_position_def later_position_def)
  have cl: "\<forall>m \<in> set (all_mutations [frame_of sample_position, frame_of later_position]). clean (rm_pos m)"
    by (simp add: frame_of_def clean_def sample_position_def later_position_def)
  define M where "M = {m \<in> set (all_mutations [frame_of sample_position, frame_of later_position]).
      rm_at m \<le> rp_At ?prog \<and> vp_Agency (rm_pos m) \<in> set (rg_Agencies region)}"
  note sh = replay_shows_latest [OF sample_env_ok insertion.slice_sort_axioms b cl r(1) xs(1) mem M_def]
  have "vp_Agency later_position = ''mybas-ipoh''" by (simp add: later_position_def sample_position_def)
  then have "\<lparr>rm_at = vp_Timestamp later_position, rm_pos = later_position\<rparr> \<in> M" using r(2) by (simp add: M_def frame_of_def)
  moreover have "\<forall>m \<in> M. vehicle_key (rm_pos m) = ''mybas-ipoh:PLX 1234''" using k by (auto simp: M_def frame_of_def)
  ultimately have M: "\<forall>m \<in> M. vehicle_key (rm_pos m) = ''mybas-ipoh:PLX 1234''" "M \<noteq> {}" by blast+
  obtain m where "m \<in> M" using M(2) by blast
  have in_k: "x = ''mybas-ipoh:PLX 1234''" if x: "x \<in> set (map vehicle_key out)" for x
  proof -
    obtain pos where "pos \<in> set out" "x = vehicle_key pos" using x by auto
    moreover from this(1) obtain m' where "m' \<in> M" "rm_pos m' = pos" using sh by blast
    ultimately show ?thesis using M(1) by blast
  qed
  have "\<exists>pos \<in> set out. vehicle_key pos = vehicle_key (rm_pos m)" using sh \<open>m \<in> M\<close> by blast
  then have "set (map vehicle_key out) \<noteq> {}" by auto
  then have "map vehicle_key out \<noteq> []" by auto
  from distinct_singleton [OF in_k this] have "map vehicle_key out = [''mybas-ipoh:PLX 1234'']" using sh by simp
  then show ?thesis by (intro exI conjI) (rule xs(1), rule mem, assumption)
qed

lemma catalog_exact_example:
  "\<exists>cat. CatalogForRegion (mem_isle 1) sample_replay ''northern'' = Some (Inr cat) \<and> rc_Total cat = 2 \<and> \<not> rc_Empty cat"
proof -
  obtain region where r: "RegionByID ''northern'' = Inr region" "rg_Agencies region = [''mybas-kangar'', ''mybas-alor-setar'', ''mybas-ipoh'']"
    using sample_region by blast
  have "(\<Sum>aid\<leftarrow>rg_Agencies region. length (feed_puts mm_Log sample_replay aid)) = 2"
    by (simp add: r(2) feed_puts_def sample_replay_def empty_pipeline_def put_of_def put_change_def)
  with catalog_exact [OF mem_feed.change_feed_axioms [of 1] r(1), of sample_replay] agencies_okD [OF sample_replay_ok] mem_readable
  show ?thesis by fastforce
qed

end
