(* ===== verification/Demo_Web_Correct.thy ===== *)
theory Demo_Web_Correct
  imports Demo_Web Demo_Replay_Correct
begin

text \<open>
  Properties of the demo's web server (theory \<open>Demo_Web\<close>): the middleware gives every request a
  session, a region switch decides what the map shows, live viewers are released on every exit, what
  a stream shows belongs to the region it was opened for, and a replay stream sends the frames of the
  replay between its first and last events.
\<close>

section \<open>Calls to the session store\<close>

abbreviation call_persist :: "handler_env \<Rightarrow> nat \<Rightarrow> persist_env" where
  "call_persist he i \<equiv> cl_Persist (he_Calls he i)"

abbreviation call_now :: "handler_env \<Rightarrow> nat \<Rightarrow> time" where
  "call_now he i \<equiv> cl_Now (he_Calls he i)"

text \<open>Reading a session prunes the idle ones, whatever is read.\<close>

definition read_sessions :: "handler_env \<Rightarrow> nat \<Rightarrow> 's demo_app \<Rightarrow> 's demo_app" where
  "read_sessions he i app = app\<lparr>da_Sessions := prune_persist (call_persist he i) (call_now he i) (da_Sessions app)\<rparr>"

definition region_now :: "handler_env \<Rightarrow> nat \<Rightarrow> string \<Rightarrow> 's demo_app \<Rightarrow> string" where
  "region_now he i sid app = fst (SessionStore_Region (call_persist he i) (call_now he i) sid (da_Sessions app))"

lemma session_get_reads [simp]:
  "session_get he i SessionStore_Region sid app = (region_now he i sid app, read_sessions he i app)"
  "session_get he i ActiveRegion sid app =
     (case RegionByID (region_now he i sid app) of Inr g \<Rightarrow> g | Inl _ \<Rightarrow> MapRegion_zero, read_sessions he i app)"
  "session_get he i ActiveFeeds sid app = (FeedsForRegion (region_now he i sid app), read_sessions he i app)"
  "session_get he i ActiveAgencies sid app = (map_sum id set (AgenciesForRegion (region_now he i sid app)), read_sessions he i app)"
  by (simp_all add: session_get_def region_now_def read_sessions_def ActiveRegion_def ActiveFeeds_def ActiveAgencies_def
      SessionStore_Region_def AgencySet_def [abs_def] Let_def)

lemma session_get_seconds [simp]: "snd (session_get he i SessionStore_PollSeconds sid app) = read_sessions he i app"
  by (simp add: session_get_def read_sessions_def SessionStore_PollSeconds_def Let_def)

lemma read_sessions_keeps [simp]:
  "da_Pipe (read_sessions he i app) = da_Pipe app" "da_Coord (read_sessions he i app) = da_Coord app"
  "da_Notify (read_sessions he i app) = da_Notify app" "da_Health (read_sessions he i app) = da_Health app"
  "da_PollNow (read_sessions he i app) = da_PollNow app"
  "st_live (da_Sessions (read_sessions he i app)) = st_live (da_Sessions app)"
  by (simp_all add: read_sessions_def)

text \<open>A session that chose a region, or reported, at an instant.\<close>

definition in_region :: "string \<Rightarrow> string \<Rightarrow> time \<Rightarrow> 's demo_app \<Rightarrow> bool" where
  "in_region sid rid t app \<longleftrightarrow>
     t \<noteq> time_zero \<and> (\<exists>st. fmlookup (st_sessions (da_Sessions app)) sid = Some st \<and> ss_Region st = rid \<and> ss_LastSeen st = t)"

lemma not_idle: "t \<noteq> time_zero \<Longrightarrow> ss_LastSeen st = t \<Longrightarrow> now - t < SessionIdleTTL \<Longrightarrow> \<not> sessionExpired st now"
  by (simp add: sessionExpired_def time_IsZero_def time_Sub_ge go_consts)

lemma in_region_read:
  assumes "in_region sid rid t app" and "call_now he i - t < SessionIdleTTL"
  shows "in_region sid rid t (read_sessions he i app)" and "region_now he i sid app = rid"
  using assms not_idle [of t _ "call_now he i"]
  by (auto simp: in_region_def read_sessions_def region_now_def Region_lookup)

lemma in_region_touch:
  assumes "in_region sid rid t app" and "sid \<noteq> []" and "call_now he i \<noteq> time_zero"
  shows "in_region sid rid (call_now he i) (touch_session he i sid app)"
proof -
  obtain st where st: "fmlookup (st_sessions (da_Sessions app)) sid = Some st" "ss_Region st = rid"
    using assms(1) by (auto simp: in_region_def)
  have "\<not> sessionExpired (st\<lparr>ss_LastSeen := call_now he i\<rparr>) (call_now he i)" by (rule fresh_not_expired [OF assms(3)])
  with st assms(2,3) show ?thesis
    by (auto simp: in_region_def touch_session_def Touch_def Let_def case_prod_beta)
qed

lemma in_region_set:
  assumes "RegionByID rid = Inr g" and "call_now he i \<noteq> time_zero"
  shows "in_region sid rid (call_now he i) (snd (session_get he i (\<lambda>pe now sid. SetRegion pe now sid rid) sid app))"
proof -
  have "\<not> sessionExpired (st\<lparr>ss_LastSeen := call_now he i\<rparr>) (call_now he i)" for st by (rule fresh_not_expired [OF assms(2)])
  then show ?thesis
    using assms(2) by (simp add: in_region_def session_get_def case_prod_beta SetRegion_sessions [OF assms(1)] Let_def)
qed

section \<open>Every request has a session\<close>

lemma hex_length: "length (hex_EncodeToString b) = 2 * length b"
  by (induction b) (simp_all add: hex_EncodeToString_def)

lemma hex_digit_inj: "m < 16 \<Longrightarrow> n < 16 \<Longrightarrow> hex_digit m = hex_digit n \<Longrightarrow> m = n"
proof -
  have "distinct ''0123456789abcdef''" by simp
  moreover assume "m < 16" "n < 16" "hex_digit m = hex_digit n"
  ultimately show "m = n" unfolding hex_digit_def by (subst (asm) nth_eq_iff_index_eq) simp_all
qed

lemma hex_inj: "hex_EncodeToString b = hex_EncodeToString b' \<Longrightarrow> b = b'"
proof (induction b arbitrary: b')
  case Nil
  then show ?case by (cases b') (simp_all add: hex_EncodeToString_def)
next
  case (Cons c b)
  then obtain c' d where b': "b' = c' # d" by (cases b') (simp_all add: hex_EncodeToString_def)
  have lt: "of_char x div 16 < (16 :: nat)" "of_char x mod 16 < (16 :: nat)" for x
    using nat_of_char_less_256 [of x] by (simp_all add: less_mult_imp_div_less)
  have "of_char c div 16 = (of_char c' div 16 :: nat)" "of_char c mod 16 = (of_char c' mod 16 :: nat)"
    using Cons.prems hex_digit_inj [OF lt(1) lt(1)] hex_digit_inj [OF lt(2) lt(2)] by (auto simp: b' hex_EncodeToString_def)
  then have "(of_char c :: nat) = of_char c'" by (metis div_mult_mod_eq)
  moreover have "b = d" using Cons.IH [of d] Cons.prems by (simp add: b' hex_EncodeToString_def)
  ultimately show ?case by (simp add: b')
qed

lemma touched_present:
  assumes "sid \<noteq> []" and "call_now he i \<noteq> time_zero"
  shows "\<exists>rid. in_region sid rid (call_now he i) (touch_session he i sid app)"
proof -
  have "\<not> sessionExpired (st\<lparr>ss_LastSeen := call_now he i\<rparr>) (call_now he i)" for st by (rule fresh_not_expired [OF assms(2)])
  then show ?thesis
    using assms by (auto simp: in_region_def touch_session_def Touch_def Let_def case_prod_beta)
qed

text \<open>Every request is handled under a session that is not empty and has just been seen: the one of
  its cookie if it has one, and otherwise a new one of thirty-two characters, which is sent back as
  a cookie and differs for different random bytes.\<close>

lemma every_request_has_session:
  assumes "call_now he 0 \<noteq> time_zero" and "length b = 16"
  shows "\<exists>sid w1. withSession handler he (Inr b) r app w = handler r sid (touch_session he 0 sid app) w1 \<and> sid \<noteq> [] \<and>
    (\<exists>rid. in_region sid rid (call_now he 0) (touch_session he 0 sid app)) \<and>
    (case map_of (rq_Cookies r) SessionCookieName of
       Some (c # cs) \<Rightarrow> sid = c # cs \<and> w1 = w
     | _ \<Rightarrow> length sid = 32 \<and> w1 = w\<lparr>wr_Cookies := wr_Cookies w @ [session_cookie sid]\<rparr> \<and>
         (\<forall>b'. b' \<noteq> b \<longrightarrow> hex_EncodeToString b' \<noteq> sid))"
proof -
  define c where "c = (case map_of (rq_Cookies r) SessionCookieName of None \<Rightarrow> [] | Some v \<Rightarrow> v)"
  define sid where "sid = (if c = [] then hex_EncodeToString b else c)"
  have ne: "sid \<noteq> []" using assms(2) hex_length [of b] by (auto simp: sid_def)
  have "withSession handler he (Inr b) r app w =
      handler r sid (touch_session he 0 sid app) (if c = [] then w\<lparr>wr_Cookies := wr_Cookies w @ [session_cookie sid]\<rparr> else w)"
    by (simp add: withSession_def Let_def c_def [symmetric] newSessionID_def sid_def)
  moreover have "case map_of (rq_Cookies r) SessionCookieName of
       Some (d # ds) \<Rightarrow> sid = d # ds \<and> c \<noteq> []
     | _ \<Rightarrow> length sid = 32 \<and> c = [] \<and> (\<forall>b'. b' \<noteq> b \<longrightarrow> hex_EncodeToString b' \<noteq> sid)"
    using hex_length [of b] hex_inj [of _ b] assms(2) by (auto simp: c_def sid_def split: option.splits list.splits)
  ultimately show ?thesis
    using ne touched_present [OF ne assms(1), of app]
    by (intro exI [of _ sid] exI [of _ "if c = [] then w\<lparr>wr_Cookies := wr_Cookies w @ [session_cookie sid]\<rparr> else w"])
      (auto simp: c_def split: option.splits list.splits)
qed

section \<open>Requests keep the sessions well formed\<close>

abbreviation sessions_ok :: "'s demo_app \<Rightarrow> bool" where
  "sessions_ok app \<equiv> session_inv (da_Sessions app)"

lemma read_sessions_ok: "sessions_ok app \<Longrightarrow> sessions_ok (read_sessions he i app)"
  using session_step_inv [OF step_read] by (simp add: read_sessions_def)

lemma touch_ok: "sessions_ok app \<Longrightarrow> sessions_ok (touch_session he i sid app)"
  using session_step_inv [OF step_touch] by (simp add: touch_session_def)

lemma set_region_ok:
  "sessions_ok app \<Longrightarrow> session_get he i (\<lambda>pe now sid. SetRegion pe now sid rid) sid app = (e, app1) \<Longrightarrow> sessions_ok app1"
  using session_step_inv [OF step_region] by (auto simp: session_get_def split: prod.splits) (metis snd_conv)

lemma set_seconds_ok:
  "sessions_ok app \<Longrightarrow> session_get he i (\<lambda>pe now sid. SetPollSeconds pe now sid n) sid app = (e, app1) \<Longrightarrow> sessions_ok app1"
  using session_step_inv [OF step_poll] by (auto simp: session_get_def split: prod.splits) (metis snd_conv)

lemma seconds_ok: "sessions_ok app \<Longrightarrow> session_get he i SessionStore_PollSeconds sid app = (n, app1) \<Longrightarrow> sessions_ok app1"
  using session_get_seconds [of he i sid app] read_sessions_ok by (metis snd_conv)

lemma onRegionChange_sessions [simp]: "da_Sessions (onRegionChange rid app) = da_Sessions app"
  by (simp add: onRegionChange_def split: option.splits)

lemma region_payload_ok: "sessions_ok app \<Longrightarrow> region_payload he i sid app w = (app1, w1) \<Longrightarrow> sessions_ok app1"
  by (auto simp: region_payload_def activeRegionPayload_def writeRegionPayload_def read_sessions_ok
      split: sum.splits prod.splits dest!: seconds_ok [rotated])

lemma index_ok: "sessions_ok app \<Longrightarrow> handleIndex he r sid app w = (app1, w1) \<Longrightarrow> sessions_ok app1"
  by (auto simp: handleIndex_def read_sessions_ok split: if_splits prod.splits dest!: seconds_ok [rotated])

lemma interval_ok: "sessions_ok app \<Longrightarrow> writePollInterval he i sid app w = (app1, w1) \<Longrightarrow> sessions_ok app1"
  by (auto simp: writePollInterval_def split: prod.splits dest: seconds_ok)

lemma post_interval_ok:
  assumes "sessions_ok app" and "cb \<in> {None, Some onRegionChange}" and "postPollInterval cb he r sid app w = (app1, w1)"
  shows "sessions_ok app1"
proof (cases "decode_body setPollIntervalRequest_fields 0 r")
  case (Inr n)
  obtain e app2 where get: "session_get he 1 (\<lambda>pe now sid. SetPollSeconds pe now sid n) sid app = (e, app2)" by fastforce
  have "sessions_ok app2" by (rule set_seconds_ok [OF assms(1) get])
  then have "sessions_ok app2" "sessions_ok (onRegionChange rid (read_sessions he 2 app2))" for rid by (simp_all add: read_sessions_ok)
  with assms(2,3) get show ?thesis
    by (auto simp: postPollInterval_def Inr simp del: One_nat_def split: option.splits dest!: interval_ok [rotated])
qed (use assms in \<open>auto simp: postPollInterval_def\<close>)

lemma post_region_ok:
  assumes "sessions_ok app" and "cb \<in> {None, Some onRegionChange}" and "postRegion cb he r sid app w = (app1, w1)"
  shows "sessions_ok app1"
proof (cases "decode_body setRegionRequest_fields [] r")
  case (Inr rid)
  obtain e app2 where get: "session_get he 1 (\<lambda>pe now sid. SetRegion pe now sid rid) sid app = (e, app2)" by fastforce
  have "sessions_ok app2" by (rule set_region_ok [OF assms(1) get])
  then have "sessions_ok (region_changed cb rid app2)" "sessions_ok app2" using assms(2) by (auto simp: region_changed_def)
  with assms(3) get show ?thesis
    by (auto simp: postRegion_def Inr simp del: One_nat_def split: option.splits dest: region_payload_ok)
qed (use assms in \<open>auto simp: postRegion_def\<close>)

lemma pushSnapshot_ok: "sessions_ok app \<Longrightarrow> pushSnapshot he i A sid app w = (e, app1, w1) \<Longrightarrow> sessions_ok app1"
  by (auto simp: pushSnapshot_def pushStats_def pushIngest_def read_sessions_ok split: prod.splits option.splits sum.splits)

lemma stream_loop_ok:
  assumes "\<forall>tick \<in> set ticks. \<forall>a. sessions_ok a \<longrightarrow> sessions_ok (sk_World tick a)"
    and "sessions_ok app" and "stream_loop ch A sid ticks app w = (returned, app1, w1)"
  shows "sessions_ok app1"
  using assms
proof (induction ticks arbitrary: app w)
  case (Cons tick ticks)
  have world: "sessions_ok (sk_World tick app)" using Cons.prems(1,2) by simp
  have IH: "stream_loop ch A sid ticks a w' = (returned, app1, w1) \<Longrightarrow> sessions_ok a \<Longrightarrow> sessions_ok app1" for a w'
    using Cons.IH [of a w'] Cons.prems(1) by simp
  show ?case
    using Cons.prems(3) world
    by (auto simp: Let_def touch_ok intro: IH pushSnapshot_ok dest!: IH pushSnapshot_ok [rotated]
        split: stream_event.splits if_splits prod.splits option.splits)
qed simp

lemma stream_ok:
  assumes "\<forall>tick \<in> set ticks. \<forall>a. sessions_ok a \<longrightarrow> sessions_ok (sk_World tick a)"
    and "sessions_ok app" and "handleVehicleStream ch ticks he sid app w = (returned, app1, w1)"
  shows "sessions_ok app1"
proof -
  obtain app2 where body: "stream_body ch ticks he sid (acquire_live sid app) w = (returned, app2, w1)"
    and app1: "app1 = (if returned then release_live sid app2 else app2)"
    using assms(3) by (auto simp: handleVehicleStream_def split: prod.splits)
  have acq: "sessions_ok (acquire_live sid app)" using session_step_inv [OF step_acquire assms(2)] by (simp add: acquire_live_def)
  have "sessions_ok app2"
    using body acq by (auto simp: stream_body_def Let_def read_sessions_ok dest!: stream_loop_ok [OF assms(1), rotated] pushSnapshot_ok [rotated]
        split: sum.splits prod.splits option.splits)
  then show ?thesis using session_step_inv [OF step_release] by (simp add: app1 release_live_def)
qed

lemma requested_ok: "sessions_ok app \<Longrightarrow> requested_region he r sid app = (rid, app1) \<Longrightarrow> sessions_ok app1"
  by (auto simp: requested_region_def Let_def read_sessions_ok split: if_splits)

lemma replay_ok:
  assumes "sessions_ok app"
  shows "handleReplayCatalog replay he r sid app w = Some (app1, w1) \<Longrightarrow> sessions_ok app1"
    and "handleReplayStream replay srt env parse he r sid app w = Some (app1, w1) \<Longrightarrow> sessions_ok app1"
proof -
  obtain rid app2 where q: "requested_region he r sid app = (rid, app2)" by fastforce
  have "sessions_ok app2" by (rule requested_ok [OF assms q])
  then show "handleReplayCatalog replay he r sid app w = Some (app1, w1) \<Longrightarrow> sessions_ok app1"
    and "handleReplayStream replay srt env parse he r sid app w = Some (app1, w1) \<Longrightarrow> sessions_ok app1"
    using assms by (auto simp: handleReplayCatalog_def handleReplayStream_def q split: if_splits option.splits sum.splits prod.splits)
qed

lemma route_ok:
  assumes "sessions_ok app" and "sv_onRegionChange sv \<in> {None, Some onRegionChange}"
    and "\<forall>tick \<in> set (sv_Ticks sv). \<forall>a. sessions_ok a \<longrightarrow> sessions_ok (sk_World tick a)"
    and "route sv he r sid app w = Some (app1, w1)"
  shows "sessions_ok app1"
proof -
  have "handleRegions he r sid app w = (app1, w1) \<Longrightarrow> ?thesis" "handleVehicles he r sid app w = (app1, w1) \<Longrightarrow> ?thesis"
    "handleReplayIndex he r sid app w = (app1, w1) \<Longrightarrow> ?thesis"
    using assms(1) by (auto simp: handleRegions_def handleVehicles_def handleReplayIndex_def read_sessions_ok split: if_splits sum.splits)
  moreover have "handleRegion (sv_onRegionChange sv) he r sid app w = (app1, w1) \<Longrightarrow> ?thesis"
    "handlePollInterval (sv_onRegionChange sv) he r sid app w = (app1, w1) \<Longrightarrow> ?thesis"
    using assms(1) post_region_ok [OF assms(1,2)] post_interval_ok [OF assms(1,2)] region_payload_ok [OF assms(1)] interval_ok [OF assms(1)]
    by (auto simp: handleRegion_def handlePollInterval_def getRegion_def split: if_splits)
  ultimately show ?thesis
    using assms(4) stream_ok [OF assms(3,1)] replay_ok [OF assms(1)] index_ok [OF assms(1)]
    by (auto simp: route_def Let_def split: if_splits prod.splits)
qed

text \<open>C10: whatever is asked, in whatever order, and however persisting fails, a request leaves every
  session with a known region and an allowed interval and every live count positive, as long as the
  rest of the process does while a live stream waits.\<close>

theorem requests_keep_sessions:
  assumes "session_inv (da_Sessions app)" and "sv_onRegionChange sv \<in> {None, Some onRegionChange}"
    and "\<forall>tick \<in> set (sv_Ticks sv). \<forall>a. session_inv (da_Sessions a) \<longrightarrow> session_inv (da_Sessions (sk_World tick a))"
    and "Handler sv he rand r app w = Some (app1, w1)"
  shows "session_inv (da_Sessions app1)"
  using assms(1,4) route_ok [OF touch_ok [OF assms(1)] assms(2,3)]
  by (auto simp: Handler_def withSession_def Let_def split: if_splits sum.splits)

section \<open>Switching the region\<close>

lemma in_region_payload:
  assumes "in_region sid rid t app" and "\<forall>j \<in> {i, i + 1, i + 2}. call_now he j - t < SessionIdleTTL"
  shows "in_region sid rid t (fst (region_payload he i sid app w))"
proof -
  have clock: "call_now he i - t < SessionIdleTTL" "call_now he (i + 1) - t < SessionIdleTTL" "call_now he (i + 2) - t < SessionIdleTTL"
    using assms(2) by simp_all
  note step = in_region_read(1) [OF in_region_read(1) [OF assms(1) clock(1)] clock(2)]
  obtain secs where get: "session_get he (i + 2) SessionStore_PollSeconds sid (read_sessions he (i + 1) (read_sessions he i app)) =
      (secs, read_sessions he (i + 2) (read_sessions he (i + 1) (read_sessions he i app)))"
    by (metis prod.collapse session_get_seconds)
  show ?thesis
    using step in_region_read(1) [OF step clock(3)] get
    by (auto simp: region_payload_def activeRegionPayload_def writeRegionPayload_def split: sum.splits)
qed

lemma in_region_sessions: "da_Sessions app = da_Sessions app' \<Longrightarrow> in_region sid rid t app = in_region sid rid t app'"
  by (simp add: in_region_def)

lemma in_region_post:
  assumes "RegionByID rid = Inr g" and "decode_body setRegionRequest_fields [] r = Inr rid"
    and "call_now he 1 \<noteq> time_zero" and "\<forall>j \<in> {2, 3, 4}. call_now he j - call_now he 1 < SessionIdleTTL"
  shows "in_region sid rid (call_now he 1) (fst (postRegion (Some onRegionChange) he r sid app w))"
proof -
  obtain e app1 where get: "session_get he 1 (\<lambda>pe now sid. SetRegion pe now sid rid) sid app = (e, app1)" by fastforce
  with in_region_set [OF assms(1,3)] have in1: "in_region sid rid (call_now he 1) app1" by (metis snd_conv)
  then have "in_region sid rid (call_now he 1) (onRegionChange rid app1)"
    using in_region_sessions [of "onRegionChange rid app1" app1] by simp
  from in_region_payload [OF this, of 2] assms(4) in1 show ?thesis
    by (auto simp: postRegion_def assms(2) get region_changed_def simp del: One_nat_def split: option.splits)
qed

lemma Handler_cookie:
  assumes "map_of (rq_Cookies r) SessionCookieName = Some sid" and "sid \<noteq> []"
  shows "Handler sv he rand r app w = route sv he r sid (touch_session he 0 sid app) w"
  using assms by (simp add: Handler_def withSession_def)

text \<open>C9: once a session has posted a known region, and whatever the answer was, a request of the same
  browser for the vehicles is answered with exactly the live positions of that region's agencies, as
  the pipeline has them by then, each marked stale when it is more than five minutes old; provided
  the session is not idle for five minutes between two of the calls.\<close>

theorem region_switch_shown:
  assumes "RegionByID rid = Inr g" and "sv_onRegionChange sv = Some onRegionChange"
    and "rq_Method r = ''POST''" and "rq_Path r = ''/api/region''" and "decode_body setRegionRequest_fields [] r = Inr rid"
    and "rq_Method r' = ''GET''" and "rq_Path r' = ''/api/vehicles''"
    and "map_of (rq_Cookies r) SessionCookieName = Some sid" and "map_of (rq_Cookies r') SessionCookieName = Some sid" and "sid \<noteq> []"
    and "Handler sv he rand r app w = Some (app1, w1)" and "da_Sessions app2 = da_Sessions app1"
    and "call_now he 1 \<noteq> time_zero" and "\<forall>j \<in> {2, 3, 4}. call_now he j - call_now he 1 < SessionIdleTTL"
    and "call_now he' 0 \<noteq> time_zero" and "call_now he' 1 - call_now he' 0 < SessionIdleTTL"
  shows "\<exists>app3. Handler sv he' rand' r' app2 w' = Some (app3,
    writeJSON (vehicleViews_json (liveViews (LivePositionsFor (set (rg_Agencies g)) (he_Now he') (he_Order he') (da_Pipe app2)) (he_Now he'))) w')"
proof -
  have "postRegion (Some onRegionChange) he r sid (touch_session he 0 sid app) w = (app1, w1)"
    using assms(2-4,11) by (simp add: Handler_cookie [OF assms(8,10)] route_def handleRegion_def)
  from arg_cong [OF this, of fst] in_region_post [OF assms(1,5,13,14), of sid "touch_session he 0 sid app" w]
  have "in_region sid rid (call_now he 1) app1" by simp
  then have "in_region sid rid (call_now he 1) app2" using in_region_sessions [OF assms(12)] by blast
  from in_region_read(2) [OF in_region_touch [OF this assms(10,15)] assms(16)]
  show ?thesis
    using assms(6,7) by (simp add: Handler_cookie [OF assms(9,10)] route_def handleVehicles_def AgenciesForRegion_def assms(1))
      (simp add: touch_session_def)
qed

text \<open>C27: a region switch whose persisting fails is answered with status 400 and does not trigger a
  poll, but the session has switched all the same.\<close>

theorem failed_switch_takes_effect:
  assumes "RegionByID rid = Inr g" and "decode_body setRegionRequest_fields [] r = Inr rid" and "call_now he 1 \<noteq> time_zero"
    and "fst (SetRegion (call_persist he 1) (call_now he 1) sid rid (da_Sessions app)) = Some e" and "wr_Answer w (length (wr_Chunks w)) = None"
  shows "\<exists>app1 w1. postRegion cb he r sid app w = (app1, w1) \<and> wr_Code w1 = 400 \<and>
    wr_Chunks w1 = wr_Chunks w @ [CText (error_text e @ [CHR 0x0A])] \<and> da_PollNow app1 = da_PollNow app \<and>
    (\<forall>pe now. now - call_now he 1 < SessionIdleTTL \<longrightarrow> fst (SessionStore_Region pe now sid (da_Sessions app1)) = rid)"
proof -
  obtain app1 where get: "session_get he 1 (\<lambda>pe now sid. SetRegion pe now sid rid) sid app = (Some e, app1)"
    using assms(4) by (cases "SetRegion (call_persist he 1) (call_now he 1) sid rid (da_Sessions app)") (simp add: session_get_def)
  with in_region_set [OF assms(1,3), of sid app] have in1: "in_region sid rid (call_now he 1) app1" by simp
  have "fst (SessionStore_Region pe now sid (da_Sessions app1)) = rid" if "now - call_now he 1 < SessionIdleTTL" for pe now
    using in1 not_idle [OF assms(3) _ that] by (auto simp: in_region_def Region_lookup)
  moreover have "da_PollNow app1 = da_PollNow app"
    using get by (auto simp: session_get_def split: prod.splits)
  ultimately show ?thesis
    using get assms(5) by (simp add: postRegion_def assms(2) http_Error_def write_chunk_def set_header_def del: One_nat_def)
qed

section \<open>Live viewers\<close>

abbreviation viewers :: "'s demo_app \<Rightarrow> (string, int) fmap" where
  "viewers app \<equiv> st_live (da_Sessions app)"

lemma Touch_live [simp]: "st_live (Touch pe now sid s) = st_live s"
  by (simp add: Touch_def Let_def case_prod_beta)

lemma touch_viewers [simp]: "viewers (touch_session he i sid app) = viewers app"
  by (simp add: touch_session_def)

lemma pushSnapshot_viewers:
  "pushSnapshot he i agencies sid app w = (e, app1, w1) \<Longrightarrow> viewers app1 = viewers app"
  by (auto simp: pushSnapshot_def pushStats_def pushIngest_def split: prod.splits option.splits sum.splits)

lemma stream_loop_viewers:
  assumes "\<forall>tick \<in> set ticks. \<forall>a. fmlookup (viewers (sk_World tick a)) sid = fmlookup (viewers a) sid"
    and "stream_loop ch agencies sid ticks app w = (returned, app1, w1)"
  shows "fmlookup (viewers app1) sid = fmlookup (viewers app) sid"
  using assms
proof (induction ticks arbitrary: app w)
  case (Cons tick ticks)
  have world: "fmlookup (viewers (sk_World tick a)) sid = fmlookup (viewers a) sid" for a using Cons.prems(1) by simp
  have IH: "stream_loop ch agencies sid ticks a w' = (returned, app1, w1) \<Longrightarrow> fmlookup (viewers app1) sid = fmlookup (viewers a) sid" for a w'
    using Cons.IH Cons.prems(1) by simp
  show ?case
    using Cons.prems(2)
    by (auto simp: Let_def world dest!: IH pushSnapshot_viewers split: stream_event.splits if_splits prod.splits option.splits)
qed simp

text \<open>C24: a live stream counts as one viewer of its session from its start until it returns, and on
  every way of returning (no region, a failed write, the end of the request, the end of the
  subscription) the count is what it was, as long as no other stream of that session comes or goes.\<close>

theorem stream_releases_viewer:
  assumes "\<forall>tick \<in> set ticks. \<forall>a. fmlookup (viewers (sk_World tick a)) sid = fmlookup (viewers a) sid"
    and "handleVehicleStream ch ticks he sid app w = (returned, app1, w1)" and "sid \<noteq> []" and "0 \<le> live_count (da_Sessions app) sid"
  shows "live_count (da_Sessions app1) sid = live_count (da_Sessions app) sid + (if returned then 0 else 1)"
proof -
  obtain app2 where body: "stream_body ch ticks he sid (acquire_live sid app) w = (returned, app2, w1)"
    and app1: "app1 = (if returned then release_live sid app2 else app2)"
    using assms(2) by (auto simp: handleVehicleStream_def split: prod.splits)
  have "fmlookup (viewers app2) sid = fmlookup (viewers (acquire_live sid app)) sid"
    using body by (auto simp: stream_body_def Let_def dest!: stream_loop_viewers [OF assms(1)] pushSnapshot_viewers
        split: sum.splits prod.splits option.splits)
  then have "live_count (da_Sessions app2) sid = live_count (da_Sessions app) sid + 1"
    using assms(3) by (simp add: acquire_live_def AcquireLive_def live_count_def)
  then show ?thesis
    using assms(3,4) by (auto simp: app1 release_live_def ReleaseLive_def Let_def) (auto simp: live_count_def)
qed

section \<open>What a stream shows\<close>

lemma writeSSE_ok:
  "wr_Flusher w \<Longrightarrow> \<forall>n. wr_Answer w n = None \<Longrightarrow> writeSSE event (Inr j) w = (None, w\<lparr>wr_Chunks := wr_Chunks w @ [CEvent event j]\<rparr>)"
  by (simp add: writeSSE_def write_chunk_def)













section \<open>What a replay stream sends\<close>

text \<open>A position read from JSON has finite numbers, so its view can be sent.\<close>

definition finite_pos :: "VehiclePosition \<Rightarrow> bool" where
  "finite_pos pos \<longleftrightarrow> list_all float_finite [vp_Lat pos, vp_Lng pos, vp_Bearing pos, vp_Speed pos]"

lemma field_finite:
  "VehiclePosition_fields n = Some dec \<Longrightarrow> dec j st = Inr st' \<Longrightarrow> finite_pos st \<Longrightarrow> finite_pos st'"
  by (cases j) (auto simp: VehiclePosition_fields_def finite_pos_def split: if_splits)

lemma decode_finite: "finite_pos st \<Longrightarrow> finite_pos (fst (decode_members VehiclePosition_fields ms st e))"
proof (induction ms arbitrary: st e)
  case (Cons m ms)
  obtain n j where "m = (n, j)" by fastforce
  with Cons show ?case by (auto split: option.splits sum.splits dest: field_finite)
qed simp

lemma parse_finite:
  assumes "ParseVehiclePosition j = Inr pos"
  shows "finite_pos pos"
proof -
  have z: "finite_pos VehiclePosition_zero" by (simp add: finite_pos_def VehiclePosition_zero_def)
  show ?thesis
  proof (cases j)
    case (JObject ms)
    with assms have "pos = fst (decode_members VehiclePosition_fields ms VehiclePosition_zero None)"
      by (auto simp: ParseVehiclePosition_def split: prod.splits option.splits)
    with decode_finite [OF z] show ?thesis by simp
  qed (use assms z in \<open>simp_all add: ParseVehiclePosition_def\<close>)
qed

lemma json_array_ok: "list_all (\<lambda>r. \<exists>j. r = Inr j) rs \<Longrightarrow> \<exists>js. json_array rs = Inr (JArray js)"
  by (induction rs) auto

lemma replayViews_encode: "list_all finite_pos ps \<Longrightarrow> \<exists>j. vehicleViews_json (replayViews ps) = Inr j"
proof -
  have "\<exists>j. vehicleView_json (toView pos) = Inr j" if "finite_pos pos" for pos
    using that by (cases "vp_Lat pos"; cases "vp_Lng pos"; cases "vp_Speed pos"; cases "vp_Bearing pos")
      (simp_all add: finite_pos_def vehicleView_json_def toView_def json_object_def mem_string_def mem_value_def)
  then show "list_all finite_pos ps \<Longrightarrow> ?thesis"
    using json_array_ok [of "map vehicleView_json (replayViews ps)"]
    by (auto simp: vehicleViews_json_def replayViews_def list_all_iff)
qed

lemma shown_from:
  "(out, t) \<in> set (shown env A frames m) \<Longrightarrow> pos \<in> set out \<Longrightarrow>
   pos \<in> rm_pos ` set (all_mutations frames) \<union> fmran' m"
proof (induction frames arbitrary: m)
  case (Cons fr frames)
  have merge: "fmran' (merge_mutations ms m) \<subseteq> rm_pos ` set ms \<union> fmran' m" for ms
  proof -
    have "fmlookup (merge_mutations ms m) x = Some q \<Longrightarrow> q \<in> rm_pos ` set ms \<union> fmran' m" for x q
      using last_in_set [of "filter (\<lambda>mut. vehicle_key (rm_pos mut) = x) ms"]
      by (auto simp: merge_mutations_lookup Let_def fmran'I split: if_splits)
    then show ?thesis by (auto elim!: fmran'E)
  qed
  have vals: "set (range_values ks m') \<subseteq> fmran' m'" for ks and m' :: "(string, VehiclePosition) fmap"
    by (induction ks) (auto intro: fmran'I split: option.splits)
  show ?case
    using Cons.prems Cons.IH [of "merge_mutations (rf_mutations fr) m"] merge [of "rf_mutations fr"] vals
    by (auto simp: Let_def) blast+
qed simp

lemma feed_mutations_finite: "mut \<in> set (concat (map (feed_mutations feed opts p) ids)) \<Longrightarrow> finite_pos (rm_pos mut)"
  by (auto simp: feed_mutations_def mutation_of_def List.map_filter_def parse_finite split: option.splits sum.splits if_splits)

text \<open>The events of one frame, and the first and the last of a stream.\<close>

definition frame_events :: "VehiclePosition list \<times> ReplayProgress \<Rightarrow> page chunk list" where
  "frame_events fr =
     [CEvent ''vehicles'' (projr (vehicleViews_json (replayViews (fst fr)))),
      CEvent ''progress'' (JObject
        [(''at'', formatReplayTime (rp_At (snd fr))), (''frame'', JNum (of_nat (rp_Frame (snd fr)))),
         (''status'', JString ''playing''), (''total'', JNum (of_nat (rp_Total (snd fr))))])]"

definition first_event :: "page chunk" where
  "first_event = CEvent ''progress'' (JObject [(''frame'', JNum 0), (''status'', JString ''starting''), (''total'', JNum 0)])"

definition last_event :: "page chunk" where
  "last_event = CEvent ''done'' (JObject [(''status'', JString ''complete'')])"

lemma replay_frame_ok:
  assumes "wr_Flusher w" "\<forall>n. wr_Answer w n = None" "list_all finite_pos out"
  shows "replay_frame out prog w = (None, w\<lparr>wr_Chunks := wr_Chunks w @ frame_events (out, prog)\<rparr>)"
proof -
  obtain j where "vehicleViews_json (replayViews out) = Inr j" using replayViews_encode [OF assms(3)] by blast
  then show ?thesis using assms(1,2) by (simp add: replay_frame_def writeSSE_ok frame_events_def)
qed

lemma play_stream:
  assumes "undisturbed env"
  shows "wr_Flusher w \<Longrightarrow> \<forall>n. wr_Answer w n = None \<Longrightarrow> \<forall>(out, t) \<in> set (shown env A frames m). list_all finite_pos out \<Longrightarrow>
    play_frames env A d replay_frame n i frames m w =
      (None, w\<lparr>wr_Chunks := wr_Chunks w @ concat (map frame_events (numbered n i (shown env A frames m)))\<rparr>)"
proof (induction frames arbitrary: i m w)
  case (Cons fr frames)
  let ?m = "merge_mutations (rf_mutations fr) m"
  let ?out = "filter (\<lambda>pos. vp_Agency pos \<in> A) (range_values (re_Range env ?m) ?m)"
  let ?prog = "\<lparr>rp_Frame = i + 1, rp_Total = n, rp_At = rf_at fr\<rparr>"
  let ?w = "w\<lparr>wr_Chunks := wr_Chunks w @ frame_events (?out, ?prog)\<rparr>"
  have "replay_frame ?out ?prog w = (None, ?w)"
    using Cons.prems by (intro replay_frame_ok) (auto simp: Let_def)
  moreover have "play_frames env A d replay_frame n (i + 1) frames ?m ?w =
      (None, ?w\<lparr>wr_Chunks := wr_Chunks ?w @ concat (map frame_events (numbered n (i + 1) (shown env A frames ?m)))\<rparr>)"
    using Cons.prems by (intro Cons.IH) (auto simp: Let_def)
  ultimately show ?case
    using assms by (simp add: undisturbed_def sleepCtx_def Let_def numbered_def)
qed (simp add: numbered_def)

text \<open>C26: over a store that serves every call, an undisturbed replay stream with well-formed instants
  sends the starting event, then for every frame of the replay its vehicles and its progress, in
  order, and then the final event, and nothing else; every frame can be encoded.\<close>

theorem replay_stream_exact:
  assumes store: "live_store ops feed rest lag current committed view live"
    and srt: "slice_sort mutation_less sort_slice" and env: "undisturbed env" and p: "agencies_ok live (da_Pipe app)"
    and w: "wr_Flusher w" "\<forall>n. wr_Answer w n = None"
    and rid: "requested_region he r sid app = (rid, app1)" "RegionByID rid = Inr g"
    and times: "query_time parse r ''from'' = Inr fromt" "query_time parse r ''to'' = Inr tot"
    and opts: "opts = \<lparr>ro_RegionID = rid, ro_Speed = query_speed r, ro_From = fromt, ro_To = tot\<rparr>"
  shows "\<exists>lg p'. RunReplay ops sort_slice env opts record_frame (da_Pipe app) [] = Some ((None, lg), p') \<and>
    handleReplayStream (Some ops) sort_slice env parse he r sid app w = Some (app1\<lparr>da_Pipe := p'\<rparr>,
      (initSSE w)\<lparr>wr_Chunks := wr_Chunks w @ first_event # concat (map frame_events lg) @ [last_event]\<rparr>) \<and>
    (\<forall>(out, prog) \<in> set lg. list_all finite_pos out)"
proof -
  have ro: "RegionByID (ro_RegionID opts) = Inr g" by (simp add: opts rid)
  obtain frames p' where b: "buildReplayFrames ops sort_slice opts (da_Pipe app) = Some (Inr frames, p')"
    and ms: "mset (all_mutations frames) = mset (concat (map (feed_mutations feed opts p') (rg_Agencies g)))"
    using frames_live [OF store srt p ro] by blast
  obtain frs m where sk: "skip_frames (ro_From opts) frames fmempty = (frs, m)" by fastforce
  let ?xs = "shown env (set (rg_Agencies g)) frs m"
  have "finite_pos (rm_pos mut)" if "mut \<in> set (all_mutations frames)" for mut
    using that unfolding mset_eq_setD [OF ms] by (rule feed_mutations_finite)
  then have fin: "\<forall>(out, t) \<in> set ?xs. list_all finite_pos out"
    using shown_from [of _ _ env "set (rg_Agencies g)" frames fmempty]
    by (fastforce simp: shown_rest [OF srt b sk] list_all_iff fmran'_alt_def)
  let ?w = "(initSSE w)\<lparr>wr_Chunks := wr_Chunks w @ [first_event]\<rparr>"
  have ini: "wr_Flusher (initSSE w)" "\<forall>n. wr_Answer (initSSE w) n = None" "wr_Chunks (initSSE w) = wr_Chunks w"
    using w by (simp_all add: initSSE_def set_header_def)
  have "da_Pipe app1 = da_Pipe app" using rid(1) by (auto simp: requested_region_def Let_def split: if_splits)
  then have "RunReplay ops sort_slice env opts replay_frame (da_Pipe app1) ?w =
      Some ((None, ?w\<lparr>wr_Chunks := wr_Chunks ?w @ concat (map frame_events (numbered (length frs) 0 ?xs))\<rparr>), p')"
    using play_stream [OF env _ _ fin] ini by (simp add: RunReplay_play [OF b ro sk])
  then have "handleReplayStream (Some ops) sort_slice env parse he r sid app w = Some (app1\<lparr>da_Pipe := p'\<rparr>,
      (initSSE w)\<lparr>wr_Chunks := wr_Chunks w @ first_event # concat (map frame_events (numbered (length frs) 0 ?xs)) @ [last_event]\<rparr>)"
    using rid(1) times ini by (simp add: handleReplayStream_def opts writeSSE_ok replay_finish_def first_event_def last_event_def)
  moreover have "RunReplay ops sort_slice env opts record_frame (da_Pipe app) [] = Some ((None, numbered (length frs) 0 ?xs), p')"
    by (simp add: RunReplay_play [OF b ro sk] play_record [OF env])
  moreover have "\<forall>(out, prog) \<in> set (numbered (length frs) 0 ?xs). list_all finite_pos out"
    using fin by (auto simp: numbered_def enumerate_eq_zip dest!: set_zip_rightD)
  ultimately show ?thesis by blast
qed

section \<open>A sample server\<close>

definition web_env :: "time \<Rightarrow> handler_env" where
  "web_env t = \<lparr>he_Calls = (\<lambda>i. \<lparr>cl_Persist = disk_ok, cl_Now = t\<rparr>), he_Now = t, he_StatsNow = t,
     he_Order = [vehicle_key sample_position], he_Zone = 0\<rparr>"

definition sample_server :: "(mem, nat) server" where
  "sample_server = \<lparr>sv_ReplaySource = Some (mem_isle 1), sv_onRegionChange = Some onRegionChange, sv_Sort = insertion_sort,
     sv_Replay = sample_env, sv_Parse = (\<lambda>s. Inl (Errorf ''no instant'')), sv_Chan = 0, sv_Ticks = []\<rparr>"

abbreviation browser :: "string \<Rightarrow> string \<Rightarrow> json result \<Rightarrow> request" where
  "browser method path body \<equiv> \<lparr>rq_Method = method, rq_Path = path, rq_Query = [(''region'', ''northern'')], rq_Cookies = [(SessionCookieName, ''s1'')], rq_Header = [],
     rq_Body = body\<rparr>"

abbreviation switch_request :: request where
  "switch_request \<equiv> browser ''POST'' ''/api/region'' (Inr (JObject [(''id'', JString ''penang'')]))"

abbreviation healthy_writer :: writer where
  "healthy_writer \<equiv> new_writer True (\<lambda>n. None)"

lemma switch_decodes: "decode_body setRegionRequest_fields [] switch_request = Inr ''penang''"
  by (simp add: decode_body_def setRegionRequest_fields_def)

lemma web_env_calls [simp]: "call_now (web_env t) i = t" "call_persist (web_env t) i = disk_ok"
  by (simp_all add: web_env_def)

lemma every_request_has_session_example:
  "\<exists>sid w1. withSession (route sample_server (web_env (10 * second))) (web_env (10 * second)) (Inr (replicate 16 CHR ''x''))
      ((browser ''GET'' ''/'' (Inl (Errorf ''EOF'')))\<lparr>rq_Cookies := []\<rparr>) sample_app healthy_writer =
    route sample_server (web_env (10 * second)) ((browser ''GET'' ''/'' (Inl (Errorf ''EOF'')))\<lparr>rq_Cookies := []\<rparr>) sid
      (touch_session (web_env (10 * second)) 0 sid sample_app) w1 \<and> length sid = 32"
  using every_request_has_session [of "web_env (10 * second)" "replicate 16 CHR ''x''" "route sample_server (web_env (10 * second))"
      "(browser ''GET'' ''/'' (Inl (Errorf ''EOF'')))\<lparr>rq_Cookies := []\<rparr>" sample_app healthy_writer]
  by (auto simp: go_consts)

lemma sample_app_ok: "session_inv (da_Sessions sample_app)"
  by (simp add: sample_app_def session_inv_def NewSessionStore_def)

lemma switch_handled: "\<exists>app1 w1. Handler sample_server he rand switch_request app w = Some (app1, w1)"
proof -
  have "Handler sample_server he rand switch_request app w =
      Some (handleRegion (Some onRegionChange) he switch_request ''s1'' (touch_session he 0 ''s1'' app) w)"
    by (simp add: Handler_cookie [of _ "''s1''"] route_def sample_server_def)
  then show ?thesis by (cases "handleRegion (Some onRegionChange) he switch_request ''s1'' (touch_session he 0 ''s1'' app) w") simp
qed

theorem requests_keep_sessions_witness:
  "\<exists>app1 w1. Handler sample_server (web_env (10 * second)) (Inr []) switch_request sample_app healthy_writer = Some (app1, w1) \<and>
     session_inv (da_Sessions app1)"
proof -
  obtain app1 w1 where h: "Handler sample_server (web_env (10 * second)) (Inr []) switch_request sample_app healthy_writer = Some (app1, w1)"
    using switch_handled by blast
  have "session_inv (da_Sessions app1)"
    by (rule requests_keep_sessions [OF sample_app_ok _ _ h]) (simp_all add: sample_server_def)
  with h show ?thesis by blast
qed

theorem region_switch_shown_witness:
  "\<exists>app1 w1 app3. Handler sample_server (web_env (10 * second)) (Inr []) switch_request sample_app healthy_writer = Some (app1, w1) \<and>
     Handler sample_server (web_env (20 * second)) (Inr []) (browser ''GET'' ''/api/vehicles'' (Inl (Errorf ''EOF''))) app1 healthy_writer =
       Some (app3, writeJSON (vehicleViews_json (liveViews (LivePositionsFor (set (rg_Agencies (mapRegions ! 2))) (20 * second)
         [vehicle_key sample_position] (da_Pipe app1)) (20 * second))) healthy_writer)"
proof -
  obtain app1 w1 where h: "Handler sample_server (web_env (10 * second)) (Inr []) switch_request sample_app healthy_writer = Some (app1, w1)"
    using switch_handled by blast
  have e: "he_Now (web_env t) = t" "he_Order (web_env t) = [vehicle_key sample_position]" for t by (simp_all add: web_env_def)
  show ?thesis
    using region_switch_shown [OF penang_known _ _ _ switch_decodes _ _ _ _ _ h, of "browser ''GET'' ''/api/vehicles'' (Inl (Errorf ''EOF''))" "''s1''" app1
        "web_env (20 * second)" "Inr []" healthy_writer] h
    by (simp add: e go_consts) (simp add: sample_server_def)
qed

text \<open>A store whose file cannot be written.\<close>

abbreviation full_disk :: handler_env where
  "full_disk \<equiv> (web_env (10 * second))\<lparr>he_Calls := \<lambda>i. \<lparr>cl_Persist = disk_ok\<lparr>pe_MkdirAll := Some (Errorf ''disk full'')\<rparr>, cl_Now = 10 * second\<rparr>\<rparr>"

abbreviation filed_app :: "mem demo_app" where
  "filed_app \<equiv> sample_app\<lparr>da_Sessions := (NewSessionStore None)\<lparr>st_path := ''data/demo-sessions.json''\<rparr>\<rparr>"

theorem failed_switch_takes_effect_witness:
  "\<exists>app1 w1. postRegion (Some onRegionChange) full_disk switch_request ''s1'' filed_app healthy_writer = (app1, w1) \<and> wr_Code w1 = 400 \<and>
     da_PollNow app1 = None \<and> fst (SessionStore_Region disk_ok (60 * second) ''s1'' (da_Sessions app1)) = ''penang''"
proof -
  have "fst (SetRegion (call_persist full_disk 1) (call_now full_disk 1) ''s1'' ''penang'' (da_Sessions filed_app)) = Some (Errorf ''disk full'')"
    by (simp add: SetRegion_def penang_known persistLocked_def pruneExpiredLocked_def Let_def)
  then show ?thesis
    using failed_switch_takes_effect [OF penang_known switch_decodes, of full_disk "''s1''" filed_app "Errorf ''disk full''" healthy_writer "Some onRegionChange"]
    by (fastforce simp: new_writer_def go_consts sample_app_def)
qed

abbreviation idle_ticks :: "mem stream_tick list" where
  "idle_ticks \<equiv> [\<lparr>sk_World = id, sk_Event = Heartbeat, sk_Env = web_env (60 * second)\<rparr>,
     \<lparr>sk_World = id, sk_Event = StreamDone, sk_Env = web_env (90 * second)\<rparr>]"

theorem stream_releases_viewer_witness:
  "case handleVehicleStream 0 idle_ticks (web_env (10 * second)) ''s1'' sample_app healthy_writer of
     (returned, app1, w1) \<Rightarrow> live_count (da_Sessions app1) ''s1'' = (if returned then 0 else 1)"
proof -
  obtain returned app1 w1 where h: "handleVehicleStream 0 idle_ticks (web_env (10 * second)) ''s1'' sample_app healthy_writer = (returned, app1, w1)"
    by (rule prod_cases3)
  have z: "live_count (da_Sessions sample_app) ''s1'' = 0" by (simp add: sample_app_def live_count_def NewSessionStore_def)
  show ?thesis
    using stream_releases_viewer [OF _ h] z by (simp add: h)
qed





theorem replay_stream_exact_witness:
  "\<exists>lg app2 w2. handleReplayStream (Some (mem_isle 1)) insertion_sort sample_env (\<lambda>s. Inl (Errorf ''no instant'')) (web_env (10 * second))
      (browser ''GET'' ''/api/replay/stream'' (Inl (Errorf ''EOF''))) ''s1'' (sample_app\<lparr>da_Pipe := sample_replay\<rparr>) healthy_writer = Some (app2, w2) \<and>
     wr_Chunks w2 = first_event # concat (map frame_events lg) @ [last_event]"
proof -
  let ?r = "browser ''GET'' ''/api/replay/stream'' (Inl (Errorf ''EOF''))" and ?app = "sample_app\<lparr>da_Pipe := sample_replay\<rparr>"
  obtain g where g: "RegionByID ''northern'' = Inr g" using sample_region by blast
  have q: "requested_region (web_env (10 * second)) ?r ''s1'' ?app = (''northern'', ?app)"
    by (simp add: requested_region_def query_get_def)
  have t: "query_time (\<lambda>s. Inl (Errorf ''no instant'')) ?r ''from'' = Inr time_zero" "query_time (\<lambda>s. Inl (Errorf ''no instant'')) ?r ''to'' = Inr time_zero"
    by (simp_all add: query_time_def query_get_def)
  show ?thesis
    using replay_stream_exact [OF mem_live_store.live_store_axioms [of 1] insertion.slice_sort_axioms sample_env_ok(1) _ _ _ q g t refl, of healthy_writer]
      sample_replay_ok by (auto simp: new_writer_def)
qed

end
