(* ===== verification/Js_Page.thy ===== *)
theory Js_Page
  imports Demo_Web_Correct
begin

text \<open>
  What the scripts of the demo's pages (\<open>internal/web/demo/render.go\<close>, \<open>replay_render.go\<close>) share: reading the
  documents the server sends, and the vehicles in them. A document that the scripts read has the members
  the server writes; a missing member reads as \<open>null\<close>. Texts that the scripts only display are
  kept as the values they are built from.
\<close>

section \<open>Values\<close>

text \<open>A member of an object; of two with the same name the later counts.\<close>

fun js_get :: "string \<Rightarrow> json \<Rightarrow> json" where
  "js_get k (JObject ms) = (case map_of (rev ms) k of None \<Rightarrow> JNull | Some j \<Rightarrow> j)"
| "js_get k j = JNull"

fun truthy :: "json \<Rightarrow> bool" where
  "truthy JNull \<longleftrightarrow> False"
| "truthy (JBool b) \<longleftrightarrow> b"
| "truthy (JNum x) \<longleftrightarrow> x \<noteq> 0"
| "truthy (JString s) \<longleftrightarrow> s \<noteq> []"
| "truthy (JTime t) \<longleftrightarrow> True"
| "truthy (JArray js) \<longleftrightarrow> True"
| "truthy (JObject ms) \<longleftrightarrow> True"

fun js_string :: "json \<Rightarrow> string" where
  "js_string (JString s) = s"
| "js_string j = []"

fun js_items :: "json \<Rightarrow> json list" where
  "js_items (JArray js) = js"
| "js_items j = []"

text \<open>\<open>a || b\<close>.\<close>

definition js_or :: "json \<Rightarrow> json \<Rightarrow> json" where
  "js_or a b = (if truthy a then a else b)"

lemma find_unique: "v \<in> set xs \<Longrightarrow> P v \<Longrightarrow> (\<And>v'. v' \<in> set xs \<Longrightarrow> P v' \<Longrightarrow> v' = v) \<Longrightarrow> List.find P xs = Some v"
proof (induction xs)
  case (Cons x xs)
  show ?case
  proof (cases "P x")
    case True
    then show ?thesis using Cons.prems(3) [of x] by simp
  next
    case False
    then have "v \<in> set xs" using Cons.prems(1,2) by auto
    from Cons.IH [OF this Cons.prems(2)] Cons.prems(3) False show ?thesis by simp
  qed
qed simp

section \<open>Vehicles\<close>

text \<open>The members of a vehicle that its popup is built from.\<close>

record popup =
  pu_agency :: json
  pu_route :: json
  pu_speed :: json
  pu_vehicle :: json

definition vehicle_id_of :: "json \<Rightarrow> string" where
  "vehicle_id_of v = js_string (js_get ''id'' v)"

definition popup_of :: "json \<Rightarrow> popup" where
  "popup_of v =
     \<lparr>pu_agency = js_get ''agency'' v, pu_route = js_or (js_get ''route'' v) (JString em_dash),
      pu_speed = js_or (js_get ''speed'' v) (JNum 0), pu_vehicle = js_get ''vehicle_id'' v\<rparr>"

definition latlng_of :: "json \<Rightarrow> json \<times> json" where
  "latlng_of v = (js_get ''lat'' v, js_get ''lng'' v)"

text \<open>The vehicles of the server's documents read back as the views they were made from.\<close>

lemma vehicleView_object:
  assumes "vehicleView_json v = Inr j"
  obtains lat lng speed bearing where "vv_Lat v = Fin lat" "vv_Lng v = Fin lng" "vv_Speed v = Fin speed" "vv_Bearing v = Fin bearing"
    "j = JObject [(''id'', JString (vv_ID v)), (''vehicle_id'', JString (vv_VehicleID v)), (''lat'', JNum lat), (''lng'', JNum lng),
       (''agency'', JString (vv_Agency v)), (''group'', JString (vv_Group v)), (''route'', JString (vv_Route v)), (''speed'', JNum speed),
       (''bearing'', JNum bearing), (''stale'', JBool (vv_Stale v))]"
  using assms
  by (cases "vv_Lat v"; cases "vv_Lng v"; cases "vv_Speed v"; cases "vv_Bearing v")
    (simp_all add: vehicleView_json_def json_object_def mem_string_def mem_value_def)

lemma vehicleView_members:
  assumes "vehicleView_json v = Inr j"
  shows "js_get ''id'' j = JString (vv_ID v)" "js_get ''agency'' j = JString (vv_Agency v)" "js_get ''stale'' j = JBool (vv_Stale v)"
    "js_get ''route'' j = JString (vv_Route v)" "js_get ''vehicle_id'' j = JString (vv_VehicleID v)"
    "\<exists>lat lng. vv_Lat v = Fin lat \<and> vv_Lng v = Fin lng \<and> latlng_of j = (JNum lat, JNum lng)"
  by (rule vehicleView_object [OF assms], simp add: latlng_of_def)+

lemma json_array_items:
  assumes "json_array rs = Inr j"
  shows "\<exists>js. j = JArray js \<and> rs = map Inr js"
  using assms
proof (induction rs arbitrary: j)
  case (Cons r rs)
  then show ?case by (fastforce split: sum.splits json.splits)
qed simp

lemma vehicleViews_items:
  assumes "vehicleViews_json vs = Inr j"
  shows "length (js_items j) = length vs" "\<And>i. i < length vs \<Longrightarrow> vehicleView_json (vs ! i) = Inr (js_items j ! i)"
    "map vehicle_id_of (js_items j) = map vv_ID vs"
proof -
  obtain js where js: "j = JArray js" "map vehicleView_json vs = map Inr js"
    using json_array_items assms by (auto simp: vehicleViews_json_def)
  have len: "length js = length vs" using arg_cong [OF js(2), of length] by simp
  then show "length (js_items j) = length vs" by (simp add: js(1))
  have nth: "vehicleView_json (vs ! i) = Inr (js ! i)" if "i < length vs" for i
    using arg_cong [OF js(2), of "\<lambda>l. l ! i"] that len by simp
  then show "\<And>i. i < length vs \<Longrightarrow> vehicleView_json (vs ! i) = Inr (js_items j ! i)" by (simp add: js(1))
  show "map vehicle_id_of (js_items j) = map vv_ID vs"
    by (rule nth_equalityI) (auto simp: js(1) len vehicle_id_of_def vehicleView_members(1) [OF nth])
qed

end
