(* ===== verification/Replay_Page.thy ===== *)
theory Replay_Page
  imports Js_Page
begin

text \<open>
  The script of the replay page (\<open>replayHTML\<close> in \<open>internal/web/demo/replay_render.go\<close>): the markers on the
  map, the playback controls, the stream of frames, switching the region and its catalogue.

  The state of the page is the record \<open>replay_client\<close>, an event the page reacts to is a \<open>replay_input\<close>. A
  function that awaits an answer is split there: what it does before is one reaction, what it does with
  the answer another, and answers may come in any order. The inputs that a page can get in a state are
  those of an open stream, of a marker that is on the map and of a request that was made. Movements of the
  map and whether a popup is open are left out.
\<close>

section \<open>State\<close>

record marker_style =
  sy_radius :: nat
  sy_color :: string
  sy_weight :: nat
  sy_fillColor :: string

record replay_marker =
  km_latlng :: "json \<times> json"
  km_popup :: popup
  km_style :: marker_style
  km_agency :: string

text \<open>The parameters of the address of a stream.\<close>

record stream_url =
  su_region :: string
  su_speed :: string
  su_from :: "json option"

datatype page_status =
    StText string
  | StFrame json json json         \<comment> \<open>frame, total and instant\<close>
  | StPaused "json option"
  | StMessage json
  | StLoaded json
  | StCatalogFailed string

text \<open>What the catalogue shows: the message in place of an empty one, the notes, and for each agency its name and number of
  changes and, when there are any, the first rows.\<close>

record catalog_view =
  cv_empty :: "json option"
  cv_notes :: "json list"
  cv_agencies :: "(json \<times> json \<times> (json \<times> json \<times> json) list option) list"

record replay_client =
  cl_markers :: "(string, replay_marker) fmap"
  cl_selected :: "string option"
  cl_region :: string              \<comment> \<open>\<open>currentRegion\<close>\<close>
  cl_button :: string              \<comment> \<open>the active region button\<close>
  cl_subtitle :: json
  cl_source :: "stream_url option"
  cl_lastFrameAt :: "json option"
  cl_play :: "string \<times> bool"       \<comment> \<open>the text of a button and whether it is disabled\<close>
  cl_stop :: "string \<times> bool"
  cl_status :: page_status
  cl_statusClass :: string
  cl_speed :: string
  cl_catalog :: catalog_view
  cl_switching :: "string list"    \<comment> \<open>regions whose switch was not yet answered\<close>
  cl_loading :: "string list"      \<comment> \<open>regions whose catalogue was not yet answered\<close>

section \<open>Markers\<close>

definition agencyColor :: "string \<Rightarrow> string" where
  "agencyColor agency = (if agency = ''ktmb'' then ''#f85149'' else if prefix ''prasarana'' agency then ''#58a6ff'' else ''#3fb950'')"

definition markerStyle :: "string \<Rightarrow> bool \<Rightarrow> marker_style" where
  "markerStyle agency selected =
     \<lparr>sy_radius = (if selected then 8 else 5), sy_color = (if selected then ''#f0f6fc'' else agencyColor agency),
      sy_weight = (if selected then 3 else 1), sy_fillColor = agencyColor agency\<rparr>"

definition restyle :: "bool \<Rightarrow> string \<Rightarrow> (string, replay_marker) fmap \<Rightarrow> (string, replay_marker) fmap" where
  "restyle selected k m =
     (case fmlookup m k of None \<Rightarrow> m | Some mk \<Rightarrow> fmupd k (mk\<lparr>km_style := markerStyle (km_agency mk) selected\<rparr>) m)"

definition selectVehicle :: "string \<Rightarrow> replay_client \<Rightarrow> replay_client" where
  "selectVehicle k c =
     (if cl_selected c = Some k then c
      else
        (let m1 = (case cl_selected c of None \<Rightarrow> cl_markers c | Some prev \<Rightarrow> (if prev = [] then cl_markers c else restyle False prev (cl_markers c)))
         in c\<lparr>cl_selected := Some k, cl_markers := restyle True k m1\<rparr>))"

definition clearMarkers :: "replay_client \<Rightarrow> replay_client" where
  "clearMarkers c = c\<lparr>cl_markers := fmempty, cl_selected := None\<rparr>"

definition apply_vehicle :: "string option \<Rightarrow> json \<Rightarrow> (string, replay_marker) fmap \<Rightarrow> (string, replay_marker) fmap" where
  "apply_vehicle sel v m =
     (let k = vehicle_id_of v; agency = js_string (js_get ''agency'' v); selected = (Some k = sel);
          mk = (case fmlookup m k of
                  Some mk \<Rightarrow> mk\<lparr>km_latlng := latlng_of v, km_popup := popup_of v, km_style := markerStyle agency selected\<rparr>
                | None \<Rightarrow> \<lparr>km_latlng = latlng_of v, km_popup = popup_of v, km_style = markerStyle agency selected, km_agency = agency\<rparr>)
      in fmupd k (mk\<lparr>km_agency := agency\<rparr>) m)"

definition applyVehicles :: "json list \<Rightarrow> replay_client \<Rightarrow> replay_client" where
  "applyVehicles vs c =
     (let seen = vehicle_id_of ` set vs;
          m = fold (apply_vehicle (cl_selected c)) vs (cl_markers c);
          sel = (case cl_selected c of None \<Rightarrow> None | Some k \<Rightarrow> (if k \<notin> seen \<and> k |\<in>| fmdom m then None else Some k))
      in c\<lparr>cl_markers := fmfilter (\<lambda>k. k \<in> seen) m, cl_selected := sel\<rparr>)"

section \<open>Playback\<close>

definition resetReplay :: "replay_client \<Rightarrow> replay_client" where
  "resetReplay c = c\<lparr>cl_source := None, cl_lastFrameAt := None, cl_play := (''Play'', False), cl_stop := (''Stop'', True)\<rparr>"

definition pauseReplay :: "replay_client \<Rightarrow> replay_client" where
  "pauseReplay c =
     c\<lparr>cl_source := None, cl_play := (''Reset'', snd (cl_play c)), cl_stop := (''Resume'', snd (cl_stop c)), cl_status := StPaused (cl_lastFrameAt c)\<rparr>"

definition startReplay :: "json option \<Rightarrow> replay_client \<Rightarrow> replay_client" where
  "startReplay fromTime c =
     c\<lparr>cl_selected := (if fromTime = None then None else cl_selected c),
       cl_status := StText (if fromTime = None then ''Connecting replay stream'' else ''Resuming replay stream''),
       cl_source := Some \<lparr>su_region = cl_region c, su_speed = cl_speed c, su_from = fromTime\<rparr>,
       cl_play := (''Reset'', False), cl_stop := (''Stop'', False)\<rparr>"

definition on_progress :: "json \<Rightarrow> replay_client \<Rightarrow> replay_client" where
  "on_progress p c =
     (if js_get ''status'' p = JString ''starting'' then c
      else
        (let at_j = js_get ''at'' p; c1 = (if truthy at_j then c\<lparr>cl_lastFrameAt := Some at_j\<rparr> else c)
         in c1\<lparr>cl_status := StFrame (js_get ''frame'' p) (js_get ''total'' p) at_j, cl_statusClass := ''status ok''\<rparr>))"

text \<open>An event named \<open>error\<close> sent by the server has data; a lost connection gives one without.\<close>

definition on_error :: "json option \<Rightarrow> replay_client \<Rightarrow> replay_client" where
  "on_error data c =
     (let c1 = (case data of None \<Rightarrow> c | Some err \<Rightarrow> c\<lparr>cl_status := StMessage (js_or (js_get ''message'' err) (JString ''Replay error''))\<rparr>)
      in resetReplay (c1\<lparr>cl_statusClass := ''status err''\<rparr>))"

definition on_event :: "string \<Rightarrow> json \<Rightarrow> replay_client \<Rightarrow> replay_client" where
  "on_event name data c =
     (if name = ''vehicles'' then applyVehicles (js_items data) c
      else if name = ''progress'' then on_progress data c
      else if name = ''done'' then resetReplay (c\<lparr>cl_status := StText ''Replay complete.''\<rparr>)
      else if name = ''error'' then on_error (Some data) c
      else c)"

definition click_play :: "replay_client \<Rightarrow> replay_client" where
  "click_play c = startReplay None c"

definition click_stop :: "replay_client \<Rightarrow> replay_client" where
  "click_stop c = (if cl_source c \<noteq> None then pauseReplay c else startReplay (cl_lastFrameAt c) c)"

definition change_speed :: "string \<Rightarrow> replay_client \<Rightarrow> replay_client" where
  "change_speed s c = (let c1 = c\<lparr>cl_speed := s\<rparr> in if cl_source c1 \<noteq> None then startReplay (cl_lastFrameAt c1) c1 else c1)"

section \<open>Region and catalogue\<close>

definition load_start :: "string \<Rightarrow> replay_client \<Rightarrow> replay_client" where
  "load_start rid c = c\<lparr>cl_status := StText ''Loading catalog'', cl_statusClass := ''status'', cl_loading := rid # cl_loading c\<rparr>"

definition render_entry :: "json \<Rightarrow> json \<times> json \<times> json" where
  "render_entry e = (js_or (js_get ''from'' e) (JString em_dash), js_or (js_get ''to'' e) (JString em_dash), js_get ''changeCount'' e)"

definition render_agency :: "json \<Rightarrow> json \<times> json \<times> (json \<times> json \<times> json) list option" where
  "render_agency ag = (js_get ''agency'' ag, js_get ''count'' ag,
     (if \<not> truthy (js_get ''count'' ag) then None else Some (map render_entry (take 8 (js_items (js_get ''entries'' ag))))))"

definition renderCatalog :: "json \<Rightarrow> catalog_view" where
  "renderCatalog data =
     \<lparr>cv_empty = (if truthy (js_get ''empty'' data) then Some (js_or (js_get ''message'' data) (JString ''No change-feed history for this region.'')) else None),
      cv_notes = js_items (js_get ''notes'' data), cv_agencies = map render_agency (js_items (js_get ''agencies'' data))\<rparr>"

text \<open>The answer is the catalogue or the text of the error.\<close>

definition load_answer :: "string \<Rightarrow> string + json \<Rightarrow> replay_client \<Rightarrow> replay_client" where
  "load_answer rid answer c =
     (let c0 = c\<lparr>cl_loading := remove1 rid (cl_loading c)\<rparr> in
      case answer of
        Inl msg \<Rightarrow> c0\<lparr>cl_status := StCatalogFailed msg, cl_statusClass := ''status err''\<rparr>
      | Inr data \<Rightarrow>
          c0\<lparr>cl_catalog := renderCatalog data,
            cl_status := (if truthy (js_get ''empty'' data) then StText ''No change-feed history to replay.'' else StLoaded (js_get ''total'' data)),
            cl_statusClass := (if truthy (js_get ''empty'' data) then ''status err'' else ''status ok'')\<rparr>)"

definition switch_start :: "string \<Rightarrow> replay_client \<Rightarrow> replay_client" where
  "switch_start rid c = c\<lparr>cl_region := rid, cl_button := rid, cl_switching := rid # cl_switching c\<rparr>"

text \<open>The answer to the switch: \<open>None\<close> when its status is not ok.\<close>

definition switch_answer :: "string \<Rightarrow> json option \<Rightarrow> replay_client \<Rightarrow> replay_client" where
  "switch_answer rid answer c =
     (let c0 = c\<lparr>cl_switching := remove1 rid (cl_switching c)\<rparr> in
      case answer of
        None \<Rightarrow> c0
      | Some data \<Rightarrow>
          load_start rid (resetReplay (clearMarkers (c0\<lparr>cl_subtitle := js_get ''label'' (js_get ''region'' data)\<rparr>))))"

section \<open>Reactions\<close>

datatype replay_input =
    ClickPlay
  | ClickStop
  | ChangeSpeed string
  | ClickVehicle string
  | StreamEvent string json
  | StreamLost
  | SwitchRegion string
  | SwitchAnswer string "json option"
  | CatalogAnswer string "string + json"

fun react :: "replay_input \<Rightarrow> replay_client \<Rightarrow> replay_client" where
  "react ClickPlay c = click_play c"
| "react ClickStop c = click_stop c"
| "react (ChangeSpeed s) c = change_speed s c"
| "react (ClickVehicle k) c = selectVehicle k c"
| "react (StreamEvent name data) c = on_event name data c"
| "react StreamLost c = on_error None c"
| "react (SwitchRegion rid) c = switch_start rid c"
| "react (SwitchAnswer rid answer) c = switch_answer rid answer c"
| "react (CatalogAnswer rid answer) c = load_answer rid answer c"

text \<open>A disabled button is not clicked, only an open stream has events, only requests are answered.\<close>

fun possible :: "replay_input \<Rightarrow> replay_client \<Rightarrow> bool" where
  "possible ClickPlay c \<longleftrightarrow> \<not> snd (cl_play c)"
| "possible ClickStop c \<longleftrightarrow> \<not> snd (cl_stop c)"
| "possible (ClickVehicle k) c \<longleftrightarrow> k |\<in>| fmdom (cl_markers c)"
| "possible (StreamEvent name data) c \<longleftrightarrow> cl_source c \<noteq> None"
| "possible StreamLost c \<longleftrightarrow> cl_source c \<noteq> None"
| "possible (SwitchAnswer rid answer) c \<longleftrightarrow> rid \<in> set (cl_switching c)"
| "possible (CatalogAnswer rid answer) c \<longleftrightarrow> rid \<in> set (cl_loading c)"
| "possible i c \<longleftrightarrow> True"

text \<open>The page as it is served for a region, after its script has run.\<close>

definition replay_page :: "string \<Rightarrow> string \<Rightarrow> replay_client" where
  "replay_page rid label = load_start rid
     \<lparr>cl_markers = fmempty, cl_selected = None, cl_region = rid, cl_button = rid, cl_subtitle = JString label, cl_source = None, cl_lastFrameAt = None,
      cl_play = (''Play'', False), cl_stop = (''Stop'', True), cl_status = StText ''Select a region to load catalog.'', cl_statusClass = ''status'',
      cl_speed = ''10'', cl_catalog = \<lparr>cv_empty = None, cv_notes = [], cv_agencies = []\<rparr>, cl_switching = [], cl_loading = []\<rparr>"

inductive page_reach :: "replay_client \<Rightarrow> bool" where
  reach_page: "page_reach (replay_page rid label)"
| reach_react: "page_reach c \<Longrightarrow> possible i c \<Longrightarrow> page_reach (react i c)"

text \<open>A sequence of inputs.\<close>

fun page_run :: "replay_input list \<Rightarrow> replay_client \<Rightarrow> replay_client" where
  "page_run [] c = c"
| "page_run (i # is) c = page_run is (react i c)"

fun all_possible :: "replay_input list \<Rightarrow> replay_client \<Rightarrow> bool" where
  "all_possible [] c \<longleftrightarrow> True"
| "all_possible (i # is) c \<longleftrightarrow> possible i c \<and> all_possible is (react i c)"

section \<open>The controls\<close>

definition idle :: "replay_client \<Rightarrow> bool" where
  "idle c \<longleftrightarrow> cl_source c = None \<and> cl_lastFrameAt c = None \<and> cl_play c = (''Play'', False) \<and> cl_stop c = (''Stop'', True)"

definition playing :: "replay_client \<Rightarrow> bool" where
  "playing c \<longleftrightarrow> cl_source c \<noteq> None \<and> cl_play c = (''Reset'', False) \<and> cl_stop c = (''Stop'', False)"

definition paused :: "replay_client \<Rightarrow> bool" where
  "paused c \<longleftrightarrow> cl_source c = None \<and> cl_play c = (''Reset'', False) \<and> cl_stop c = (''Resume'', False)"

definition controls_ok :: "replay_client \<Rightarrow> bool" where
  "controls_ok c \<longleftrightarrow> idle c \<or> playing c \<or> paused c"

lemmas control_defs = controls_ok_def idle_def playing_def paused_def resetReplay_def pauseReplay_def startReplay_def click_play_def click_stop_def
  change_speed_def on_event_def on_progress_def on_error_def applyVehicles_def selectVehicle_def switch_start_def switch_answer_def load_start_def
  load_answer_def clearMarkers_def Let_def

lemma react_controls: "controls_ok c \<Longrightarrow> possible i c \<Longrightarrow> controls_ok (react i c)"
  by (cases i) (auto simp: control_defs split: option.splits sum.splits if_splits)

text \<open>C18: whatever is clicked, received and answered, and in whatever order, the replay page is idle, playing
  or paused: idle without a position, with Play and a disabled Stop; playing with a stream, Reset and Stop;
  paused with Reset and Resume. Play and Reset open a stream from the start, Resume one from the last
  frame shown if there is one, and Stop closes the stream and keeps the markers and that position.\<close>

theorem replay_controls:
  assumes "page_reach c"
  shows "(idle c \<or> playing c \<or> paused c) \<and>
    (possible ClickPlay c \<longrightarrow> playing (react ClickPlay c) \<and> map_option su_from (cl_source (react ClickPlay c)) = Some None) \<and>
    (paused c \<longrightarrow> playing (react ClickStop c) \<and> map_option su_from (cl_source (react ClickStop c)) = Some (cl_lastFrameAt c)) \<and>
    (playing c \<longrightarrow> paused (react ClickStop c) \<and> cl_lastFrameAt (react ClickStop c) = cl_lastFrameAt c \<and> cl_markers (react ClickStop c) = cl_markers c)"
proof -
  have "controls_ok c" using assms
  proof induction
    case (reach_page rid label)
    then show ?case by (simp add: replay_page_def control_defs)
  qed (rule react_controls)
  then show ?thesis by (auto simp: control_defs)
qed

theorem replay_controls_witness:
  "playing (react ClickPlay (replay_page ''northern'' ''Northern'')) \<and>
   map_option su_from (cl_source (react ClickPlay (replay_page ''northern'' ''Northern''))) = Some None"
proof -
  have "possible ClickPlay (replay_page ''northern'' ''Northern'')" by (simp add: replay_page_def load_start_def)
  with replay_controls [OF reach_page, of "''northern''" "''Northern''"] show ?thesis by blast
qed

text \<open>Reset does not forget the position: stopped again before its first frame, the restarted replay resumes where
  it was before the reset.\<close>

lemma reset_keeps_position:
  assumes "playing c" "cl_lastFrameAt c = Some t"
  shows "map_option su_from (cl_source (page_run [ClickPlay, ClickStop, ClickStop] c)) = Some (Some t)"
  using assms by (simp add: control_defs)

text \<open>Two switches answered in the other order: the stream and the active button are of the second region, the
  subtitle of the first.\<close>

lemma switches_answered_out_of_order:
  assumes "c' = page_run [SwitchRegion a, SwitchRegion b, SwitchAnswer b (Some db), SwitchAnswer a (Some da)] c"
  shows "cl_region c' = b" "cl_button c' = b" "cl_subtitle c' = js_get ''label'' (js_get ''region'' da)" "cl_loading c' = a # b # cl_loading c"
  unfolding assms by (simp_all add: control_defs)

text \<open>A switch the server refuses leaves the page on the refused region.\<close>

lemma refused_switch_stays:
  "cl_region (page_run [SwitchRegion a, SwitchAnswer a None] c) = a" "cl_subtitle (page_run [SwitchRegion a, SwitchAnswer a None] c) = cl_subtitle c"
  by (simp_all add: control_defs)

section \<open>What a frame puts on the map\<close>

definition marker_of :: "string option \<Rightarrow> json \<Rightarrow> replay_marker" where
  "marker_of sel v =
     (let agency = js_string (js_get ''agency'' v) in
      \<lparr>km_latlng = latlng_of v, km_popup = popup_of v, km_style = markerStyle agency (Some (vehicle_id_of v) = sel), km_agency = agency\<rparr>)"

lemma apply_vehicle_marker: "apply_vehicle sel v m = fmupd (vehicle_id_of v) (marker_of sel v) m"
proof (cases "fmlookup m (vehicle_id_of v)")
  case (Some mk)
  then show ?thesis by (cases mk) (simp add: apply_vehicle_def marker_of_def Let_def)
qed (simp add: apply_vehicle_def marker_of_def Let_def)

lemma fold_apply_lookup:
  "fmlookup (fold (apply_vehicle sel) vs m) k =
     (case List.find (\<lambda>v. vehicle_id_of v = k) (rev vs) of None \<Rightarrow> fmlookup m k | Some v \<Rightarrow> Some (marker_of sel v))"
  by (induction vs rule: rev_induct) (simp_all add: apply_vehicle_marker)

text \<open>A list of vehicles replaces whatever was on the map.\<close>

definition list_markers :: "json list \<Rightarrow> (string, replay_marker) fmap" where
  "list_markers vs = fmfilter (\<lambda>k. k \<in> vehicle_id_of ` set vs) (fold (apply_vehicle None) vs fmempty)"

lemma applyVehicles_markers:
  assumes "cl_selected c = None"
  shows "applyVehicles vs c = c\<lparr>cl_markers := list_markers vs\<rparr>"
proof -
  have "fmfilter (\<lambda>k. k \<in> vehicle_id_of ` set vs) (fold (apply_vehicle None) vs m) = list_markers vs" for m
  proof (rule fmap_ext)
    fix k
    show "fmlookup (fmfilter (\<lambda>k. k \<in> vehicle_id_of ` set vs) (fold (apply_vehicle None) vs m)) k = fmlookup (list_markers vs) k"
      by (auto simp: list_markers_def fold_apply_lookup find_None_iff split: option.splits)
  qed
  then show ?thesis using assms by (simp add: applyVehicles_def Let_def)
qed

lemma list_markers_lookup:
  assumes "distinct (map vehicle_id_of vs)" "v \<in> set vs"
  shows "fmlookup (list_markers vs) (vehicle_id_of v) = Some (marker_of None v)"
proof -
  have "v' = v" if "v' \<in> set vs" "vehicle_id_of v' = vehicle_id_of v" for v'
    using assms that by (auto simp: distinct_map inj_on_def)
  then have "List.find (\<lambda>v'. vehicle_id_of v' = vehicle_id_of v) (rev vs) = Some v"
    using assms(2) by (intro find_unique) auto
  then show ?thesis using assms(2) by (simp add: list_markers_def fold_apply_lookup)
qed

lemma list_markers_dom: "fmdom' (list_markers vs) = vehicle_id_of ` set vs"
proof -
  have "fmlookup (list_markers vs) k \<noteq> None \<longleftrightarrow> k \<in> vehicle_id_of ` set vs" for k
    by (auto simp: list_markers_def fold_apply_lookup find_None_iff split: option.splits)
  then show ?thesis by (auto simp: fmlookup_dom'_iff)
qed

definition frame_markers :: "VehiclePosition list \<Rightarrow> (string, replay_marker) fmap" where
  "frame_markers out = list_markers (js_items (projr (vehicleViews_json (replayViews out))))"

lemma frame_markers_dom: "list_all finite_pos out \<Longrightarrow> fmdom' (frame_markers out) = vehicle_key ` set out"
proof -
  assume "list_all finite_pos out"
  then obtain j where j: "vehicleViews_json (replayViews out) = Inr j" using replayViews_encode by blast
  have "vehicle_id_of ` set (js_items j) = set (map vv_ID (replayViews out))"
    unfolding vehicleViews_items(3) [OF j, symmetric] by simp
  then show ?thesis by (simp add: frame_markers_def list_markers_dom j) (simp add: replayViews_def toView_def vehicle_key_def image_image)
qed

lemma frame_markers_at:
  assumes "list_all finite_pos out" "distinct (map vehicle_key out)" "pos \<in> set out"
  shows "\<exists>mk lat lng. fmlookup (frame_markers out) (vehicle_key pos) = Some mk \<and> vp_Lat pos = Fin lat \<and> vp_Lng pos = Fin lng \<and>
    km_latlng mk = (JNum lat, JNum lng) \<and> km_agency mk = vp_Agency pos"
proof -
  obtain j where j: "vehicleViews_json (replayViews out) = Inr j" using replayViews_encode assms(1) by blast
  obtain i where i: "i < length out" "out ! i = pos" using assms(3) by (auto simp: in_set_conv_nth)
  then have i': "i < length (replayViews out)" "replayViews out ! i = toView pos" by (simp_all add: replayViews_def)
  note v = vehicleViews_items(2) [OF j i'(1), unfolded i'(2)]
  have key: "vehicle_id_of (js_items j ! i) = vehicle_key pos"
    using vehicleView_members(1) [OF v] by (simp add: vehicle_id_of_def toView_def vehicle_key_def)
  have "map vv_ID (replayViews out) = map vehicle_key out" by (simp add: replayViews_def toView_def vehicle_key_def)
  then have "distinct (map vehicle_id_of (js_items j))" using assms(2) by (simp add: vehicleViews_items(3) [OF j])
  from list_markers_lookup [OF this, of "js_items j ! i"] i'(1) vehicleViews_items(1) [OF j]
  have "fmlookup (frame_markers out) (vehicle_key pos) = Some (marker_of None (js_items j ! i))"
    by (simp add: frame_markers_def j key)
  then show ?thesis
    using vehicleView_members(2,6) [OF v] by (auto simp: marker_of_def toView_def Let_def)
qed

section \<open>Playing a stream\<close>

fun chunk_input :: "page chunk \<Rightarrow> replay_input list" where
  "chunk_input (CEvent name data) = [StreamEvent name data]"
| "chunk_input c = []"

definition frames_inputs :: "(VehiclePosition list \<times> ReplayProgress) list \<Rightarrow> replay_input list" where
  "frames_inputs fs = concat (map chunk_input (first_event # concat (map frame_events fs)))"

lemma page_run_append: "page_run (xs @ ys) c = page_run ys (page_run xs c)"
  by (induction xs arbitrary: c) simp_all

lemma frame_run:
  assumes "cl_selected c = None"
  shows "page_run (concat (map chunk_input (frame_events fr))) c =
    c\<lparr>cl_markers := frame_markers (fst fr), cl_lastFrameAt := Some (formatReplayTime (rp_At (snd fr))),
      cl_status := StFrame (JNum (of_nat (rp_Frame (snd fr)))) (JNum (of_nat (rp_Total (snd fr)))) (formatReplayTime (rp_At (snd fr))),
      cl_statusClass := ''status ok''\<rparr>"
proof -
  have "truthy (formatReplayTime t)" for t by (simp add: formatReplayTime_def em_dash_def)
  then show ?thesis
    by (simp add: frame_events_def on_event_def applyVehicles_markers [OF assms] on_progress_def Let_def frame_markers_def)
qed

lemma frames_run:
  assumes "cl_selected c = None" "fs \<noteq> []"
  shows "\<exists>st cls. page_run (concat (map chunk_input (concat (map frame_events fs)))) c =
    c\<lparr>cl_markers := frame_markers (fst (last fs)), cl_lastFrameAt := Some (formatReplayTime (rp_At (snd (last fs)))), cl_status := st, cl_statusClass := cls\<rparr>"
  using assms
proof (induction fs arbitrary: c)
  case (Cons fr fs)
  show ?case
  proof (cases "fs = []")
    case True
    then show ?thesis using frame_run [OF Cons.prems(1), of fr] by auto
  next
    case False
    then show ?thesis
      using Cons.IH [of "page_run (concat (map chunk_input (frame_events fr))) c"] Cons.prems(1)
      by (auto simp: page_run_append frame_run)
  qed
qed simp

lemma stream_run:
  assumes "cl_selected c = None" "fs \<noteq> []"
  shows "\<exists>st cls. page_run (frames_inputs fs) c =
    c\<lparr>cl_markers := frame_markers (fst (last fs)), cl_lastFrameAt := Some (formatReplayTime (rp_At (snd (last fs)))), cl_status := st, cl_statusClass := cls\<rparr>"
proof -
  have "page_run (frames_inputs fs) c = page_run (concat (map chunk_input (concat (map frame_events fs)))) c"
    by (simp add: frames_inputs_def first_event_def on_event_def on_progress_def)
  with frames_run [OF assms] show ?thesis by simp
qed

section \<open>Pausing and resuming\<close>

lemma filter_from:
  "sorted_wrt (<) (map snd xs) \<Longrightarrow> k < length xs \<Longrightarrow> filter (\<lambda>(out, u). snd (xs ! k) \<le> (u :: time)) xs = drop k xs"
proof (induction xs arbitrary: k)
  case (Cons x xs)
  show ?case
  proof (cases k)
    case 0
    have "filter (\<lambda>y. snd x \<le> snd y) xs = xs"
      using Cons.prems(1) by (intro filter_True) (auto simp: less_imp_le)
    then show ?thesis using 0 by (simp add: case_prod_beta)
  next
    case (Suc k')
    then have "snd x < snd (xs ! k')" using Cons.prems by simp
    then have "\<not> snd (xs ! k') \<le> snd x" by (simp only: not_le)
    then show ?thesis using Suc Cons.IH [of k'] Cons.prems by (simp add: case_prod_beta)
  qed
qed simp

lemma numbered_nth:
  "i < length xs \<Longrightarrow> fst (numbered n 0 xs ! i) = fst (xs ! i) \<and> rp_At (snd (numbered n 0 xs ! i)) = snd (xs ! i)"
  by (simp add: numbered_def enumerate_eq_zip case_prod_beta)

lemma last_take: "k < length xs \<Longrightarrow> last (take (Suc k) xs) = xs ! k"
  by (simp add: take_Suc_conv_app_nth)

text \<open>The frames of a whole replay over a store that serves every call, and of one that starts at a frame.\<close>

lemma replay_from_frame:
  assumes store: "live_store ops feed rest lag current committed view live" and srt: "slice_sort mutation_less sort_slice"
    and env: "undisturbed env" and p: "agencies_ok live p" and r: "RegionByID (ro_RegionID opts) = Inr g" and z: "ro_From opts = time_zero"
  shows "\<exists>xs p'. RunReplay ops sort_slice env opts record_frame p [] = Some ((None, numbered (length xs) 0 xs), p') \<and>
    (\<forall>k < length xs. time_Truncate (snd (xs ! k)) second = snd (xs ! k) \<and> (snd (xs ! k) \<noteq> time_zero \<longrightarrow>
       RunReplay ops sort_slice env (opts\<lparr>ro_From := snd (xs ! k)\<rparr>) record_frame p [] = Some ((None, numbered (length xs - k) 0 (drop k xs)), p')))"
proof -
  obtain frames p' where b: "buildReplayFrames ops sort_slice opts p = Some (Inr frames, p')" and srtd: "sorted_wrt (<) (map rf_at frames)"
    and ms: "\<forall>fr \<in> set frames. rf_mutations fr \<noteq> [] \<and> (\<forall>m \<in> set (rf_mutations fr). rm_at m = rf_at fr)"
    and mset: "mset (all_mutations frames) = mset (concat (map (feed_mutations feed opts p') (rg_Agencies g)))"
    using frames_live [OF store srt p r] by blast
  let ?xs = "shown env (set (rg_Agencies g)) frames fmempty"
  have run: "RunReplay ops sort_slice env opts record_frame p [] = Some ((None, numbered (length ?xs) 0 ?xs), p')"
    using RunReplay_record [OF env srt b r] z by (simp add: case_prod_beta)
  have times: "map snd ?xs = map rf_at frames" by (rule shown_times)
  have "time_Truncate (snd (?xs ! k)) second = snd (?xs ! k)" if "k < length ?xs" for k
  proof -
    have "snd (?xs ! k) \<in> set (map snd ?xs)" using that by (metis nth_mem length_map nth_map)
    then obtain fr where fr: "fr \<in> set frames" "snd (?xs ! k) = rf_at fr" unfolding times by auto
    then obtain m where m: "m \<in> set (rf_mutations fr)" "rm_at m = rf_at fr" using ms by (meson list.set_sel(1))
    have "m \<in> set (all_mutations frames)" using fr(1) m(1) by auto
    then have "rm_at m = time_Truncate (vp_Timestamp (rm_pos m)) second"
      unfolding mset_eq_setD [OF mset] by (rule feed_mutations_at)
    then show ?thesis using fr m by (simp add: time_Truncate_second)
  qed
  moreover have "RunReplay ops sort_slice env (opts\<lparr>ro_From := snd (?xs ! k)\<rparr>) record_frame p [] = Some ((None, numbered (length ?xs - k) 0 (drop k ?xs)), p')"
    if k: "k < length ?xs" "snd (?xs ! k) \<noteq> time_zero" for k
  proof -
    have "buildReplayFrames ops sort_slice (opts\<lparr>ro_From := snd (?xs ! k)\<rparr>) p = Some (Inr frames, p')" using b by (simp add: build_from)
    from RunReplay_record [OF env srt this, of g] r k(2) filter_from [OF _ k(1)] srtd show ?thesis by (simp add: times)
  qed
  ultimately show ?thesis using run by blast
qed

text \<open>The page after the first \<open>k + 1\<close> frames of a stream, and after those of the stream opened by Stop and Resume.\<close>

lemma run_markers:
  assumes "cl_selected c = None" "k < length fs"
  shows "cl_markers (page_run (frames_inputs (take (Suc k) fs)) c) = frame_markers (fst (fs ! k))"
proof -
  have "take (Suc k) fs \<noteq> []" using assms(2) by (cases fs) simp_all
  from stream_run [OF assms(1) this] show ?thesis by (auto simp: last_take assms(2))
qed

lemma run_end:
  assumes "cl_selected c = None" "fs \<noteq> []" "chunk_input last_event = [e]"
  shows "cl_markers (page_run (frames_inputs fs @ [e]) c) = frame_markers (fst (last fs))" "idle (page_run (frames_inputs fs @ [e]) c)"
proof -
  have e: "e = StreamEvent ''done'' (JObject [(''status'', JString ''complete'')])" using assms(3) by (simp add: last_event_def)
  show "cl_markers (page_run (frames_inputs fs @ [e]) c) = frame_markers (fst (last fs))"
    using stream_run [OF assms(1,2)] by (auto simp: e page_run_append on_event_def resetReplay_def)
  show "idle (page_run (frames_inputs fs @ [e]) c)" by (simp add: e page_run_append on_event_def resetReplay_def idle_def)
qed

lemma run_paused:
  assumes "cl_selected c = None" "playing c" "k < length fs" "formatReplayTime (rp_At (snd (fs ! k))) = JTime t"
    and "shown_k = page_run (frames_inputs (take (Suc k) fs)) c"
  shows "paused (react ClickStop shown_k)" "cl_selected (react ClickStop (react ClickStop shown_k)) = None"
    "map_option su_from (cl_source (react ClickStop (react ClickStop shown_k))) = Some (Some (JTime t))"
proof -
  have "take (Suc k) fs \<noteq> []" using assms(3) by (cases fs) simp_all
  from stream_run [OF assms(1) this] obtain st cls where shown_k: "shown_k = c\<lparr>cl_markers := frame_markers (fst (fs ! k)),
      cl_lastFrameAt := Some (JTime t), cl_status := st, cl_statusClass := cls\<rparr>"
    by (auto simp: assms(4,5) last_take assms(3))
  have pl: "playing shown_k" using assms(2) by (simp add: shown_k playing_def)
  show "paused (react ClickStop shown_k)" using pl by (auto simp: control_defs)
  then show "cl_selected (react ClickStop (react ClickStop shown_k)) = None"
    "map_option su_from (cl_source (react ClickStop (react ClickStop shown_k))) = Some (Some (JTime t))"
    using pl assms(1) by (auto simp: shown_k control_defs)
qed

text \<open>C7: over a store that serves every call, a page that plays a whole replay shows after each frame exactly
  the vehicles of that frame. If it is stopped after any frame and resumed, the stream it opens starts
  at that frame, the page shows after each frame of it what it would have shown without the stop, and at its end it is
  idle again with the vehicles of the last frame, as at the end of the whole replay.\<close>

theorem replay_pause_resume:
  assumes store: "live_store ops feed rest lag current committed view live" and srt: "slice_sort mutation_less sort_slice"
    and env: "undisturbed env" and p: "agencies_ok live p" and r: "RegionByID (ro_RegionID opts) = Inr g" and z: "ro_From opts = time_zero"
    and start: "c0 = react ClickPlay c"
  shows "\<exists>full p'. RunReplay ops sort_slice env opts record_frame p [] = Some ((None, full), p') \<and>
    (\<forall>k < length full. rp_At (snd (full ! k)) \<noteq> time_zero \<longrightarrow>
       (let shown_k = page_run (frames_inputs (take (Suc k) full)) c0; resumed = react ClickStop (react ClickStop shown_k)
        in cl_markers shown_k = frame_markers (fst (full ! k)) \<and> paused (react ClickStop shown_k) \<and>
           map_option su_from (cl_source resumed) = Some (Some (JTime (rp_At (snd (full ! k))))) \<and>
           (\<exists>part. RunReplay ops sort_slice env (opts\<lparr>ro_From := rp_At (snd (full ! k))\<rparr>) record_frame p [] = Some ((None, part), p') \<and>
              length part = length full - k \<and>
              (\<forall>j < length part. cl_markers (page_run (frames_inputs (take (Suc j) part)) resumed) =
                 cl_markers (page_run (frames_inputs (take (Suc (k + j)) full)) c0)) \<and>
              (\<forall>e. chunk_input last_event = [e] \<longrightarrow> idle (page_run (frames_inputs part @ [e]) resumed) \<and>
                 cl_markers (page_run (frames_inputs part @ [e]) resumed) = cl_markers (page_run (frames_inputs full @ [e]) c0)))))"
proof -
  obtain xs p' where run: "RunReplay ops sort_slice env opts record_frame p [] = Some ((None, numbered (length xs) 0 xs), p')"
    and fr: "\<And>k. k < length xs \<Longrightarrow> time_Truncate (snd (xs ! k)) second = snd (xs ! k)"
    and from_frame: "\<And>k. k < length xs \<Longrightarrow> snd (xs ! k) \<noteq> time_zero \<Longrightarrow>
       RunReplay ops sort_slice env (opts\<lparr>ro_From := snd (xs ! k)\<rparr>) record_frame p [] = Some ((None, numbered (length xs - k) 0 (drop k xs)), p')"
    using replay_from_frame [OF store srt env p r z] by blast
  define full where "full = numbered (length xs) 0 xs"
  have len: "length full = length xs" by (simp add: full_def numbered_shown)
  have nth: "fst (full ! k) = fst (xs ! k)" "rp_At (snd (full ! k)) = snd (xs ! k)" if "k < length xs" for k
    using numbered_nth [OF that] by (simp_all add: full_def)
  have c0: "cl_selected c0 = None" "playing c0" by (simp_all add: start click_play_def startReplay_def playing_def)
  show ?thesis
  proof (intro exI conjI allI impI)
    show "RunReplay ops sort_slice env opts record_frame p [] = Some ((None, full), p')" using run by (simp add: full_def)
    fix k assume k: "k < length full" and nz: "rp_At (snd (full ! k)) \<noteq> time_zero"
    have k': "k < length xs" using k len by simp
    have t: "formatReplayTime (rp_At (snd (full ! k))) = JTime (rp_At (snd (full ! k)))"
      using nz nth(2) [OF k'] fr [OF k'] by (simp add: formatReplayTime_def time_IsZero_def)
    define shown_k where "shown_k = page_run (frames_inputs (take (Suc k) full)) c0"
    define resumed where "resumed = react ClickStop (react ClickStop shown_k)"
    define part where "part = numbered (length xs - k) 0 (drop k xs)"
    note paused_facts = run_paused [OF c0 k t shown_k_def, folded resumed_def]
    have plen: "length part = length full - k" by (simp add: part_def numbered_shown len)
    have pnth: "fst (part ! j) = fst (full ! (k + j))" if "j < length part" for j
      using numbered_nth [of j "drop k xs"] that plen len nth(1) [of "k + j"] by (simp add: part_def)
    have same: "\<forall>j < length part. cl_markers (page_run (frames_inputs (take (Suc j) part)) resumed) =
        cl_markers (page_run (frames_inputs (take (Suc (k + j)) full)) c0)"
      using run_markers [OF paused_facts(2)] run_markers [OF c0(1)] pnth plen by simp
    have ne: "part \<noteq> []" "full \<noteq> []" using k plen by (simp_all flip: length_greater_0_conv)
    have "fst (last part) = fst (last full)"
      using pnth [of "length part - 1"] k plen by (simp add: last_conv_nth ne)
    then have fin: "\<forall>e. chunk_input last_event = [e] \<longrightarrow> idle (page_run (frames_inputs part @ [e]) resumed) \<and>
        cl_markers (page_run (frames_inputs part @ [e]) resumed) = cl_markers (page_run (frames_inputs full @ [e]) c0)"
      using run_end [OF paused_facts(2) ne(1)] run_end [OF c0(1) ne(2)] by simp
    have "RunReplay ops sort_slice env (opts\<lparr>ro_From := rp_At (snd (full ! k))\<rparr>) record_frame p [] = Some ((None, part), p')"
      using from_frame [OF k'] nz nth(2) [OF k'] by (simp add: part_def)
    with plen same fin paused_facts(1,3) run_markers [OF c0(1) k]
    show "let shown_k = page_run (frames_inputs (take (Suc k) full)) c0; resumed = react ClickStop (react ClickStop shown_k)
        in cl_markers shown_k = frame_markers (fst (full ! k)) \<and> paused (react ClickStop shown_k) \<and>
           map_option su_from (cl_source resumed) = Some (Some (JTime (rp_At (snd (full ! k))))) \<and>
           (\<exists>part. RunReplay ops sort_slice env (opts\<lparr>ro_From := rp_At (snd (full ! k))\<rparr>) record_frame p [] = Some ((None, part), p') \<and>
              length part = length full - k \<and>
              (\<forall>j < length part. cl_markers (page_run (frames_inputs (take (Suc j) part)) resumed) =
                 cl_markers (page_run (frames_inputs (take (Suc (k + j)) full)) c0)) \<and>
              (\<forall>e. chunk_input last_event = [e] \<longrightarrow> idle (page_run (frames_inputs part @ [e]) resumed) \<and>
                 cl_markers (page_run (frames_inputs part @ [e]) resumed) = cl_markers (page_run (frames_inputs full @ [e]) c0)))"
      unfolding Let_def shown_k_def [symmetric] resumed_def [symmetric] by blast
  qed
qed

theorem replay_pause_resume_witness:
  "\<exists>full p1. RunReplay (mem_isle 1) insertion_sort sample_env (sample_options\<lparr>ro_From := time_zero\<rparr>) record_frame sample_replay [] =
       Some ((None, full), p1) \<and> length full = 2 \<and>
     (let stopped = react ClickStop (page_run (frames_inputs (take 2 full)) (react ClickPlay (replay_page ''northern'' ''Northern'')))
      in paused stopped \<and> map_option su_from (cl_source (react ClickStop stopped)) = Some (Some (JTime (vp_Timestamp later_position))))"
proof -
  let ?c0 = "react ClickPlay (replay_page ''northern'' ''Northern'')"
  obtain g where r: "RegionByID (ro_RegionID (sample_options\<lparr>ro_From := time_zero\<rparr>)) = Inr g" using sample_region by (auto simp: sample_options_def)
  from replay_pause_resume [OF mem_live_store.live_store_axioms [of 1] insertion.slice_sort_axioms sample_env_ok(1) sample_replay_ok r _ refl,
      of "replay_page ''northern'' ''Northern''"]
  obtain full p1 where full: "RunReplay (mem_isle 1) insertion_sort sample_env (sample_options\<lparr>ro_From := time_zero\<rparr>) record_frame sample_replay [] =
       Some ((None, full), p1)"
    and at_k: "\<And>k. k < length full \<Longrightarrow> rp_At (snd (full ! k)) \<noteq> time_zero \<Longrightarrow>
      paused (react ClickStop (page_run (frames_inputs (take (Suc k) full)) ?c0)) \<and>
      map_option su_from (cl_source (react ClickStop (react ClickStop (page_run (frames_inputs (take (Suc k) full)) ?c0)))) =
        Some (Some (JTime (rp_At (snd (full ! k)))))"
    by (auto simp: Let_def)
  obtain xs where xs: "full = numbered (length xs) 0 xs" "map snd xs = [vp_Timestamp sample_position, vp_Timestamp later_position]"
  proof -
    from sample_full [of time_zero] obtain xs p2 where run: "RunReplay (mem_isle 1) insertion_sort sample_env (sample_options\<lparr>ro_From := time_zero\<rparr>)
        record_frame sample_replay [] = Some ((None, numbered (length xs) 0 xs), p2)"
      and times: "map snd xs = filter (\<lambda>u. time_zero = time_zero \<or> time_zero \<le> u) [vp_Timestamp sample_position, vp_Timestamp later_position]" by blast
    from run full have "full = numbered (length xs) 0 xs" by (simp del: One_nat_def)
    with times that show thesis by simp
  qed
  have len: "length xs = 2" using arg_cong [OF xs(2), of length] by simp
  have "snd (xs ! 1) = vp_Timestamp later_position" using arg_cong [OF xs(2), of "\<lambda>l. l ! 1"] len by simp
  then have t: "rp_At (snd (full ! 1)) = vp_Timestamp later_position" using numbered_nth [of 1 xs] len by (simp add: xs(1))
  have flen: "length full = 2" by (simp add: xs(1) numbered_shown len)
  have "rp_At (snd (full ! 1)) \<noteq> time_zero" unfolding t by (simp add: later_position_def time_zero_def)
  from at_k [OF _ this] flen full t show ?thesis by (simp add: Let_def numeral_2_eq_2)
qed

end
