(* ===== verification/Live_Page.thy ===== *)
theory Live_Page
  imports Js_Page
begin

text \<open>
  The script of the live map (\<open>demoHTML\<close> in \<open>internal/web/demo/render.go\<close>): the markers, the lists of vehicles
  applied in chunks of forty per animation frame, the figures and the ingest overlay, the stream, the
  refresh interval and switching the region.

  The state of the page is the record \<open>live_client\<close>, an event the page reacts to is a \<open>live_input\<close>. As on the
  replay page, a function that awaits an answer is split there. The callbacks requested for the next animation
  frame are the list \<open>lc_tasks\<close>, in the order of the requests: a frame runs all of them, and what they
  request runs in the frame after it.
\<close>

section \<open>State\<close>

record live_marker =
  lm_latlng :: "json \<times> json"
  lm_popup :: popup
  lm_stale :: bool               \<comment> \<open>the note in the popup\<close>
  lm_color :: string
  lm_agency :: json
  lm_shown :: bool               \<comment> \<open>\<open>map.hasLayer\<close>\<close>

record ingest_view =
  iv_label :: json
  iv_polled :: "json list"
  iv_rows :: "json list"

text \<open>A list being applied and how much of it was.\<close>

type_synonym chunk_task = "json list \<times> nat"

text \<open>The requests that were not yet answered: the change of the interval, with the one before it, a switch, and the
  two occasions to ask for the region.\<close>

datatype live_request =
    AskPoll json
  | AskSwitch
  | AskSyncStart
  | AskSyncOpen

record live_client =
  lc_markers :: "(string, live_marker) fmap"
  lc_agencies :: "json list"                 \<comment> \<open>\<open>currentAgencies\<close>\<close>
  lc_stream :: bool
  lc_region :: json
  lc_label :: json
  lc_poll :: json                            \<comment> \<open>\<open>pollSeconds\<close>\<close>
  lc_pollButtons :: "(json \<times> bool) list"
  lc_regionButtons :: "(json \<times> bool) list"
  lc_subtitle :: json
  lc_tenants :: "(json \<times> json) list"
  lc_vehicleCount :: json
  lc_lastUpdate :: json
  lc_eventCount :: json
  lc_debug :: bool
  lc_overlay :: "bool \<times> ingest_view option"
  lc_status :: "string \<times> nat option"        \<comment> \<open>the text and, when it is live, the number of vehicles\<close>
  lc_statusClass :: string
  lc_started :: bool
  lc_tasks :: "chunk_task list"
  lc_asked :: "live_request list"

section \<open>Markers\<close>

definition stale_color :: "bool \<Rightarrow> string" where
  "stale_color is_stale = (if is_stale then ''#8b949e'' else ''#3498db'')"

definition update_marker :: "json list \<Rightarrow> json \<Rightarrow> (string, live_marker) fmap \<Rightarrow> (string, live_marker) fmap" where
  "update_marker agencies v m =
     (let k = vehicle_id_of v; is_stale = truthy (js_get ''stale'' v) in
      fmupd k
       (case fmlookup m k of
          Some mk \<Rightarrow> mk\<lparr>lm_latlng := latlng_of v, lm_popup := popup_of v, lm_stale := is_stale, lm_color := stale_color is_stale\<rparr>
        | None \<Rightarrow> \<lparr>lm_latlng = latlng_of v, lm_popup = popup_of v, lm_stale = is_stale, lm_color = stale_color is_stale,
            lm_agency = js_get ''agency'' v, lm_shown = (js_get ''agency'' v \<in> set agencies)\<rparr>) m)"

definition applyAgencyFilter :: "live_client \<Rightarrow> live_client" where
  "applyAgencyFilter c = c\<lparr>lc_markers := fmmap (\<lambda>mk. mk\<lparr>lm_shown := (lm_agency mk \<in> set (lc_agencies c))\<rparr>) (lc_markers c)\<rparr>"

definition updateVehicle :: "json \<Rightarrow> bool \<Rightarrow> live_client \<Rightarrow> live_client" where
  "updateVehicle v skipFilter c =
     (let c1 = c\<lparr>lc_markers := update_marker (lc_agencies c) v (lc_markers c)\<rparr> in if \<not> skipFilter then applyAgencyFilter c1 else c1)"

definition clearMarkersOutsideAgencies :: "live_client \<Rightarrow> live_client" where
  "clearMarkersOutsideAgencies c =
     c\<lparr>lc_markers := fmfilter (\<lambda>k. lm_agency (the (fmlookup (lc_markers c) k)) \<in> set (lc_agencies c)) (lc_markers c)\<rparr>"

definition dropMissing :: "string set \<Rightarrow> live_client \<Rightarrow> live_client" where
  "dropMissing seen c = c\<lparr>lc_markers := fmfilter (\<lambda>k. k \<in> seen) (lc_markers c)\<rparr>"

text \<open>\<open>applyVehiclesChunked\<close> and its inner function \<open>step\<close>.\<close>

definition applyVehiclesChunked :: "json list \<Rightarrow> live_client \<Rightarrow> live_client" where
  "applyVehiclesChunked vs c = c\<lparr>lc_tasks := lc_tasks c @ [(vs, 0)]\<rparr>"

definition chunk_step :: "chunk_task \<Rightarrow> live_client \<Rightarrow> live_client" where
  "chunk_step task c =
     (case task of (vs, i) \<Rightarrow>
       (let slice = take 40 (drop i vs) in
        if slice = [] then
          (applyAgencyFilter (dropMissing (vehicle_id_of ` set vs) c))\<lparr>lc_status := (''Live'', Some (length vs)), lc_statusClass := ''status ok''\<rparr>
        else (fold (\<lambda>v. updateVehicle v True) slice c)\<lparr>lc_tasks := lc_tasks c @ [(vs, i + 40)]\<rparr>))"

definition animation_frame :: "live_client \<Rightarrow> live_client" where
  "animation_frame c = fold chunk_step (lc_tasks c) (c\<lparr>lc_tasks := []\<rparr>)"

section \<open>Figures and overlay\<close>

definition set_some :: "json \<Rightarrow> json \<Rightarrow> json" where
  "set_some new old = (if new = JNull then old else new)"

definition applyStats :: "json \<Rightarrow> live_client \<Rightarrow> live_client" where
  "applyStats signals c =
     c\<lparr>lc_vehicleCount := set_some (js_get ''vehicleCount'' signals) (lc_vehicleCount c),
       lc_lastUpdate := set_some (js_get ''lastUpdate'' signals) (lc_lastUpdate c),
       lc_eventCount := set_some (js_get ''eventCount'' signals) (lc_eventCount c)\<rparr>"

definition renderIngest :: "json \<Rightarrow> live_client \<Rightarrow> live_client" where
  "renderIngest data c =
     (if \<not> lc_debug c then c
      else c\<lparr>lc_overlay := (True, Some
        \<lparr>iv_label = js_or (js_get ''activeLabel'' data) (JString []), iv_polled = filter truthy (js_items (js_get ''polledAgencies'' data)),
         iv_rows = js_items (js_get ''records'' data)\<rparr>)\<rparr>)"

definition change_debug :: "bool \<Rightarrow> live_client \<Rightarrow> live_client" where
  "change_debug checked c = c\<lparr>lc_debug := checked, lc_overlay := (checked, if checked then snd (lc_overlay c) else None)\<rparr>"

section \<open>Stream, interval and region\<close>

definition connectStream :: "live_client \<Rightarrow> live_client" where
  "connectStream c = c\<lparr>lc_stream := True\<rparr>"

definition on_live_event :: "string \<Rightarrow> json \<Rightarrow> live_client \<Rightarrow> live_client" where
  "on_live_event name data c =
     (if name = ''vehicles'' then applyVehiclesChunked (js_items data) c
      else if name = ''stats'' then applyStats data c
      else if name = ''ingest'' then renderIngest data c
      else c)"

definition stream_open :: "live_client \<Rightarrow> live_client" where
  "stream_open c = c\<lparr>lc_asked := AskSyncOpen # lc_asked c\<rparr>"

definition stream_error :: "bool \<Rightarrow> live_client \<Rightarrow> live_client" where
  "stream_error is_open c = (if is_open then c else c\<lparr>lc_status := (''Reconnecting'', None), lc_statusClass := ''status''\<rparr>)"

definition setActiveRegionButton :: "json \<Rightarrow> live_client \<Rightarrow> live_client" where
  "setActiveRegionButton rid c = c\<lparr>lc_regionButtons := map (\<lambda>(b, _). (b, b = rid)) (lc_regionButtons c)\<rparr>"

definition updateTenantList :: "json list \<Rightarrow> live_client \<Rightarrow> live_client" where
  "updateTenantList feeds c = c\<lparr>lc_tenants := map (\<lambda>f. (js_get ''region'' f, js_get ''agency'' f)) feeds\<rparr>"

definition setActivePollButton :: "json \<Rightarrow> live_client \<Rightarrow> live_client" where
  "setActivePollButton seconds c = c\<lparr>lc_poll := seconds, lc_pollButtons := map (\<lambda>(b, _). (b, b = seconds)) (lc_pollButtons c)\<rparr>"

definition setPollInterval :: "json \<Rightarrow> live_client \<Rightarrow> live_client" where
  "setPollInterval seconds c =
     (if seconds = lc_poll c then c else setActivePollButton seconds (c\<lparr>lc_asked := AskPoll (lc_poll c) # lc_asked c\<rparr>))"

text \<open>The answer to the change of the interval, \<open>None\<close> when the request failed or its status is not ok.\<close>

definition poll_answer :: "json \<Rightarrow> json option \<Rightarrow> live_client \<Rightarrow> live_client" where
  "poll_answer prev answer c =
     (let c0 = c\<lparr>lc_asked := remove1 (AskPoll prev) (lc_asked c)\<rparr> in
      case answer of
        Some data \<Rightarrow> setActivePollButton (js_get ''seconds'' data) c0
      | None \<Rightarrow> (setActivePollButton prev c0)\<lparr>lc_status := (''Could not change refresh rate'', None), lc_statusClass := ''status err''\<rparr>)"

definition switchRegion :: "json \<Rightarrow> live_client \<Rightarrow> live_client" where
  "switchRegion rid c =
     (if rid = lc_region c then c
      else c\<lparr>lc_status := (''Switching region'', None), lc_statusClass := ''status'', lc_asked := AskSwitch # lc_asked c\<rparr>)"

text \<open>What a switch and the initial question both do with the region of the answer.\<close>

definition take_region :: "json \<Rightarrow> live_client \<Rightarrow> live_client" where
  "take_region region c =
     setActiveRegionButton (js_get ''id'' region)
       (c\<lparr>lc_region := js_get ''id'' region, lc_label := js_get ''label'' region, lc_agencies := js_items (js_get ''agencies'' region),
          lc_subtitle := js_get ''label'' region\<rparr>)"

text \<open>The answer to a switch; one without a region throws like a failed request.\<close>

definition live_switch_answer :: "json option \<Rightarrow> live_client \<Rightarrow> live_client" where
  "live_switch_answer answer c =
     (let c0 = c\<lparr>lc_asked := remove1 AskSwitch (lc_asked c)\<rparr>;
          failed = c0\<lparr>lc_status := (''Region switch failed'', None), lc_statusClass := ''status err''\<rparr> in
      case answer of
        None \<Rightarrow> failed
      | Some data \<Rightarrow>
          (if js_get ''region'' data = JNull then failed
           else connectStream (clearMarkersOutsideAgencies
             (updateTenantList (js_items (js_get ''feeds'' data)) (take_region (js_get ''region'' data) c0)))))"

text \<open>\<open>syncRegionFromServer\<close> with its answer, \<open>None\<close> when the status is not ok.\<close>

definition syncRegion :: "json option \<Rightarrow> live_client \<Rightarrow> live_client" where
  "syncRegion answer c =
     (case answer of
        None \<Rightarrow> c
      | Some data \<Rightarrow>
          (if \<not> truthy (js_get ''region'' data) \<or> \<not> truthy (js_get ''id'' (js_get ''region'' data)) then c
           else
             (let c1 = take_region (js_get ''region'' data) c;
                  c2 = (if truthy (js_get ''feeds'' data) then updateTenantList (js_items (js_get ''feeds'' data)) c1 else c1)
              in if truthy (js_get ''pollSeconds'' data) then setActivePollButton (js_get ''pollSeconds'' data) c2 else c2)))"

definition start_up :: "live_client \<Rightarrow> live_client" where
  "start_up c = c\<lparr>lc_started := True, lc_status := (''Connecting'', None), lc_asked := AskSyncStart # lc_asked c\<rparr>"

text \<open>The outer \<open>None\<close> is a request that threw.\<close>

definition start_answer :: "json option option \<Rightarrow> live_client \<Rightarrow> live_client" where
  "start_answer answer c =
     (let c0 = c\<lparr>lc_asked := remove1 AskSyncStart (lc_asked c)\<rparr> in
      case answer of
        None \<Rightarrow> c0\<lparr>lc_status := (''Connection failed'', None), lc_statusClass := ''status err''\<rparr>
      | Some a \<Rightarrow>
          (let c1 = connectStream (syncRegion a c0) in if lc_debug c1 then c1\<lparr>lc_overlay := (True, snd (lc_overlay c1))\<rparr> else c1))"

definition open_answer :: "json option option \<Rightarrow> live_client \<Rightarrow> live_client" where
  "open_answer answer c =
     (let c0 = c\<lparr>lc_asked := remove1 AskSyncOpen (lc_asked c)\<rparr> in
      case answer of
        None \<Rightarrow> c0
      | Some a \<Rightarrow> (syncRegion a c0)\<lparr>lc_status := (''Connected, waiting for data'', None), lc_statusClass := ''status ok''\<rparr>)"

section \<open>Reactions\<close>

datatype live_input =
    StartUp
  | LiveEvent string json
  | LiveOpen
  | LiveError bool
  | AnimationFrame
  | ChangeDebug bool
  | ClickPoll json
  | ClickRegion json
  | PollAnswer json "json option"
  | RegionAnswer "json option"
  | StartAnswer "json option option"
  | OpenAnswer "json option option"

fun live_react :: "live_input \<Rightarrow> live_client \<Rightarrow> live_client" where
  "live_react StartUp c = start_up c"
| "live_react (LiveEvent name data) c = on_live_event name data c"
| "live_react LiveOpen c = stream_open c"
| "live_react (LiveError is_open) c = stream_error is_open c"
| "live_react AnimationFrame c = animation_frame c"
| "live_react (ChangeDebug checked) c = change_debug checked c"
| "live_react (ClickPoll seconds) c = setPollInterval seconds c"
| "live_react (ClickRegion rid) c = switchRegion rid c"
| "live_react (PollAnswer prev answer) c = poll_answer prev answer c"
| "live_react (RegionAnswer answer) c = live_switch_answer answer c"
| "live_react (StartAnswer answer) c = start_answer answer c"
| "live_react (OpenAnswer answer) c = open_answer answer c"

fun live_possible :: "live_input \<Rightarrow> live_client \<Rightarrow> bool" where
  "live_possible StartUp c \<longleftrightarrow> \<not> lc_started c"
| "live_possible (LiveEvent name data) c \<longleftrightarrow> lc_stream c"
| "live_possible LiveOpen c \<longleftrightarrow> lc_stream c"
| "live_possible (LiveError is_open) c \<longleftrightarrow> lc_stream c"
| "live_possible (ClickPoll seconds) c \<longleftrightarrow> seconds \<in> fst ` set (lc_pollButtons c)"
| "live_possible (ClickRegion rid) c \<longleftrightarrow> rid \<in> fst ` set (lc_regionButtons c)"
| "live_possible (PollAnswer prev answer) c \<longleftrightarrow> AskPoll prev \<in> set (lc_asked c)"
| "live_possible (RegionAnswer answer) c \<longleftrightarrow> AskSwitch \<in> set (lc_asked c)"
| "live_possible (StartAnswer answer) c \<longleftrightarrow> AskSyncStart \<in> set (lc_asked c)"
| "live_possible (OpenAnswer answer) c \<longleftrightarrow> AskSyncOpen \<in> set (lc_asked c)"
| "live_possible i c \<longleftrightarrow> True"

text \<open>The page as it is served: the region, the regions, the feeds, the interval and its options; \<open>debug\<close> is what the session
  storage kept of the debug switch.\<close>

definition live_page :: "MapRegion \<Rightarrow> MapRegion list \<Rightarrow> Feed list \<Rightarrow> int \<Rightarrow> int list \<Rightarrow> bool \<Rightarrow> live_client" where
  "live_page region regions feeds seconds options debug =
     \<lparr>lc_markers = fmempty, lc_agencies = map JString (rg_Agencies region), lc_stream = False, lc_region = JString (rg_ID region),
      lc_label = JString (rg_Label region), lc_poll = JNum (of_int seconds),
      lc_pollButtons = map (\<lambda>s. (JNum (of_int s), s = seconds)) options,
      lc_regionButtons = map (\<lambda>r. (JString (rg_ID r), rg_ID r = rg_ID region)) regions,
      lc_subtitle = JString (rg_Label region), lc_tenants = map (\<lambda>f. (JString (fd_Region f), JString (fd_Agency f))) feeds,
      lc_vehicleCount = JNum 0, lc_lastUpdate = JString em_dash, lc_eventCount = JNum 0, lc_debug = debug, lc_overlay = (False, None),
      lc_status = (''Connecting'', None), lc_statusClass = ''status'', lc_started = False, lc_tasks = [], lc_asked = []\<rparr>"

inductive live_reach :: "live_client \<Rightarrow> bool" where
  live_served: "live_reach (live_page region regions feeds seconds options debug)"
| live_reacts: "live_reach c \<Longrightarrow> live_possible i c \<Longrightarrow> live_reach (live_react i c)"

inductive_cases live_reach_step: "live_reach c"

fun live_inputs :: "live_input list \<Rightarrow> live_client \<Rightarrow> live_client" where
  "live_inputs [] c = c"
| "live_inputs (i # is) c = live_inputs is (live_react i c)"

section \<open>The buttons\<close>

definition buttons_ok :: "live_client \<Rightarrow> bool" where
  "buttons_ok c \<longleftrightarrow> list_all (\<lambda>(b, on). on = (b = lc_poll c)) (lc_pollButtons c) \<and>
     list_all (\<lambda>(b, on). on = (b = lc_region c)) (lc_regionButtons c) \<and>
     lc_subtitle c = lc_label c \<and> (\<not> lc_debug c \<longrightarrow> lc_overlay c = (False, None))"

text \<open>Applying vehicles changes the markers, the tasks and the status.\<close>

lemma fold_updateVehicle:
  "fold (\<lambda>v. updateVehicle v True) vs c = c\<lparr>lc_markers := fold (update_marker (lc_agencies c)) vs (lc_markers c)\<rparr>"
  by (induction vs arbitrary: c) (simp_all add: updateVehicle_def Let_def)

lemma chunk_step_changes: "\<exists>m ts st cls. chunk_step t c = c\<lparr>lc_markers := m, lc_tasks := ts, lc_status := st, lc_statusClass := cls\<rparr>"
proof (cases t)
  case (Pair vs i)
  have "c = c\<lparr>lc_markers := lc_markers c, lc_tasks := lc_tasks c, lc_status := lc_status c, lc_statusClass := lc_statusClass c\<rparr>" by simp
  then show ?thesis
    by (cases "take 40 (drop i vs) = []")
      (simp_all only: Pair chunk_step_def applyAgencyFilter_def dropMissing_def fold_updateVehicle Let_def if_True if_False prod.case; cases c; auto)+
qed

lemma fold_steps_changes: "\<exists>m ts' st cls. fold chunk_step ts c = c\<lparr>lc_markers := m, lc_tasks := ts', lc_status := st, lc_statusClass := cls\<rparr>"
proof (induction ts arbitrary: c)
  case Nil
  show ?case by (cases c) auto
next
  case (Cons t ts)
  obtain m tk st cls where t: "chunk_step t c = c\<lparr>lc_markers := m, lc_tasks := tk, lc_status := st, lc_statusClass := cls\<rparr>"
    using chunk_step_changes by blast
  from Cons [of "chunk_step t c"] obtain m' tk' st' cls' where
    "fold chunk_step ts (chunk_step t c) = (chunk_step t c)\<lparr>lc_markers := m', lc_tasks := tk', lc_status := st', lc_statusClass := cls'\<rparr>" by blast
  then have "fold chunk_step (t # ts) c = c\<lparr>lc_markers := m', lc_tasks := tk', lc_status := st', lc_statusClass := cls'\<rparr>" by (simp add: t)
  then show ?case by blast
qed

lemma animation_changes: "\<exists>m ts st cls. animation_frame c = c\<lparr>lc_markers := m, lc_tasks := ts, lc_status := st, lc_statusClass := cls\<rparr>"
  using fold_steps_changes [of "lc_tasks c" "c\<lparr>lc_tasks := []\<rparr>"] by (auto simp: animation_frame_def)

lemmas live_defs = start_up_def on_live_event_def stream_open_def stream_error_def change_debug_def setPollInterval_def switchRegion_def poll_answer_def
  live_switch_answer_def start_answer_def open_answer_def applyVehiclesChunked_def applyStats_def renderIngest_def setActivePollButton_def
  setActiveRegionButton_def take_region_def syncRegion_def connectStream_def updateTenantList_def clearMarkersOutsideAgencies_def

lemma live_react_buttons: "buttons_ok c \<Longrightarrow> buttons_ok (live_react i c)"
proof (cases i)
  case AnimationFrame
  assume "buttons_ok c"
  with animation_changes [of c] AnimationFrame show ?thesis by (auto simp: buttons_ok_def)
qed (auto simp: buttons_ok_def live_defs Let_def list_all_iff split: option.splits if_splits)

text \<open>Whatever is clicked, received and answered, and in whatever order, exactly the button of the interval in force and that of the active
  region are marked as active on the live map, the subtitle is the label of the active region, and with the
  debug switch off nothing of the ingest is shown.\<close>

lemma live_buttons:
  assumes "live_reach c"
  shows "(\<forall>(b, on) \<in> set (lc_pollButtons c). on \<longleftrightarrow> b = lc_poll c) \<and> (\<forall>(b, on) \<in> set (lc_regionButtons c). on \<longleftrightarrow> b = lc_region c) \<and>
    lc_subtitle c = lc_label c \<and> (\<not> lc_debug c \<longrightarrow> lc_overlay c = (False, None))"
proof -
  have "buttons_ok c" using assms
  proof induction
    case (live_served region regions feeds seconds options debug)
    then show ?case by (auto simp: live_page_def buttons_ok_def list_all_iff)
  qed (rule live_react_buttons)
  then show ?thesis by (auto simp: buttons_ok_def list_all_iff)
qed

lemma live_buttons_example:
  "let c = live_react (ClickPoll (JNum 30)) (live_page (mapRegions ! 0) mapRegions [] 10 AllowedPollSeconds False)
   in lc_poll c = JNum 30 \<and> (JNum 20, True) \<notin> set (lc_pollButtons c) \<and> lc_overlay c = (False, None)"
proof -
  let ?p = "live_page (mapRegions ! 0) mapRegions [] 10 AllowedPollSeconds False"
  have "live_possible (ClickPoll (JNum 30)) ?p" by (simp add: live_page_def AllowedPollSeconds_def)
  note r = live_reacts [OF live_served this]
  have e: "lc_poll (live_react (ClickPoll (JNum 30)) ?p) = JNum 30" "\<not> lc_debug (live_react (ClickPoll (JNum 30)) ?p)"
    by (simp_all add: live_page_def setPollInterval_def setActivePollButton_def)
  from live_buttons [OF r] e show ?thesis by (auto simp: Let_def simp del: live_react.simps)
qed

section \<open>A list on the map\<close>

lemma frame_chunk:
  assumes "lc_tasks c = [(vs, i)]" "i < length vs"
  shows "animation_frame c = c\<lparr>lc_markers := fold (update_marker (lc_agencies c)) (take 40 (drop i vs)) (lc_markers c), lc_tasks := [(vs, i + 40)]\<rparr>"
  using assms by (simp add: animation_frame_def chunk_step_def fold_updateVehicle Let_def)

definition finish_markers :: "json list \<Rightarrow> string set \<Rightarrow> (string, live_marker) fmap \<Rightarrow> (string, live_marker) fmap" where
  "finish_markers agencies seen m = fmmap (\<lambda>mk. mk\<lparr>lm_shown := (lm_agency mk \<in> set agencies)\<rparr>) (fmfilter (\<lambda>k. k \<in> seen) m)"

lemma finish_list: "applyAgencyFilter (dropMissing seen c) = c\<lparr>lc_markers := finish_markers (lc_agencies c) seen (lc_markers c)\<rparr>"
  by (simp add: applyAgencyFilter_def dropMissing_def finish_markers_def)

lemma frame_end:
  assumes "lc_tasks c = [(vs, i)]" "length vs \<le> i"
  shows "animation_frame c = c\<lparr>lc_markers := finish_markers (lc_agencies c) (vehicle_id_of ` set vs) (lc_markers c),
    lc_tasks := [], lc_status := (''Live'', Some (length vs)), lc_statusClass := ''status ok''\<rparr>"
  using assms by (simp add: animation_frame_def chunk_step_def Let_def finish_list)

lemma live_inputs_append: "live_inputs (xs @ ys) c = live_inputs ys (live_inputs xs c)"
  by (induction xs arbitrary: c) simp_all

lemma replicate_snoc: "replicate (Suc n) x = replicate n x @ [x]"
  by (simp add: replicate_append_same)

lemma frames_chunks:
  assumes "lc_tasks c = [(vs, 0)]" "40 * n < length vs + 40"
  shows "live_inputs (replicate n AnimationFrame) c =
    c\<lparr>lc_markers := fold (update_marker (lc_agencies c)) (take (40 * n) vs) (lc_markers c), lc_tasks := [(vs, 40 * n)]\<rparr>"
  using assms(2)
proof (induction n)
  case 0
  show ?case by (cases c) (use assms(1) in simp)
next
  case (Suc n)
  let ?c = "live_inputs (replicate n AnimationFrame) c"
  have lt: "40 * n < length vs" using Suc.prems by simp
  have "?c = c\<lparr>lc_markers := fold (update_marker (lc_agencies c)) (take (40 * n) vs) (lc_markers c), lc_tasks := [(vs, 40 * n)]\<rparr>"
    using Suc by simp
  moreover from this have "lc_tasks ?c = [(vs, 40 * n)]" by simp
  moreover have "take (40 * Suc n) vs = take (40 * n) vs @ take 40 (drop (40 * n) vs)" by (simp add: take_add add.commute [of 40] del: take_drop)
  ultimately show ?case unfolding replicate_snoc live_inputs_append by (simp add: frame_chunk lt add.commute)
qed

text \<open>The frames a list takes: one for each chunk and one to finish.\<close>

definition list_frames :: "nat \<Rightarrow> nat" where
  "list_frames n = Suc ((n + 39) div 40)"

lemma list_applied:
  assumes "lc_tasks c = [(vs, 0)]"
  shows "live_inputs (replicate (list_frames (length vs)) AnimationFrame) c =
    c\<lparr>lc_markers := finish_markers (lc_agencies c) (vehicle_id_of ` set vs) (fold (update_marker (lc_agencies c)) vs (lc_markers c)),
      lc_tasks := [], lc_status := (''Live'', Some (length vs)), lc_statusClass := ''status ok''\<rparr>"
proof -
  let ?n = "(length vs + 39) div 40"
  have n: "40 * ?n < length vs + 40" "length vs \<le> 40 * ?n" by linarith+
  let ?c = "live_inputs (replicate ?n AnimationFrame) c"
  have c: "?c = c\<lparr>lc_markers := fold (update_marker (lc_agencies c)) vs (lc_markers c), lc_tasks := [(vs, 40 * ?n)]\<rparr>"
    using frames_chunks [OF assms n(1)] n(2) by simp
  then have "lc_tasks ?c = [(vs, 40 * ?n)]" by simp
  from frame_end [OF this n(2)] show ?thesis
    unfolding list_frames_def replicate_snoc live_inputs_append by (simp add: c)
qed

text \<open>The markers after a list.\<close>

lemma update_dom: "fmdom' (fold (update_marker ags) vs m) = fmdom' m \<union> vehicle_id_of ` set vs"
  by (induction vs arbitrary: m) (auto simp: update_marker_def Let_def)

lemma update_other: "k \<notin> vehicle_id_of ` set vs \<Longrightarrow> fmlookup (fold (update_marker ags) vs m) k = fmlookup m k"
  by (induction vs arbitrary: m) (auto simp: update_marker_def Let_def)

lemma finish_dom: "fmdom' (finish_markers ags seen m) = fmdom' m \<inter> seen"
  by (auto simp: finish_markers_def fmlookup_dom'_iff)

definition shows_vehicle :: "live_marker \<Rightarrow> json \<Rightarrow> bool" where
  "shows_vehicle mk v \<longleftrightarrow> lm_latlng mk = latlng_of v \<and> lm_popup mk = popup_of v \<and> lm_stale mk = truthy (js_get ''stale'' v) \<and>
     lm_color mk = stale_color (truthy (js_get ''stale'' v))"

lemma update_lookup:
  assumes "distinct (map vehicle_id_of vs)" "v \<in> set vs"
    and "\<And>mk. fmlookup m (vehicle_id_of v) = Some mk \<Longrightarrow> lm_agency mk = js_get ''agency'' v"
  shows "\<exists>mk. fmlookup (fold (update_marker ags) vs m) (vehicle_id_of v) = Some mk \<and> shows_vehicle mk v \<and> lm_agency mk = js_get ''agency'' v"
  using assms
proof (induction vs arbitrary: m)
  case (Cons w vs)
  show ?case
  proof (cases "w = v")
    case True
    then have "vehicle_id_of v \<notin> vehicle_id_of ` set vs" using Cons.prems(1) by (simp add: image_iff)
    then have eq: "fmlookup (fold (update_marker ags) (w # vs) m) (vehicle_id_of v) = fmlookup (update_marker ags v m) (vehicle_id_of v)"
      by (simp add: True update_other)
    show ?thesis
      unfolding eq using Cons.prems(3) by (cases "fmlookup m (vehicle_id_of v)") (simp_all add: update_marker_def Let_def shows_vehicle_def)
  next
    case False
    then have v: "v \<in> set vs" using Cons.prems(2) by simp
    then have "vehicle_id_of w \<noteq> vehicle_id_of v" using Cons.prems(1) by auto
    then have "fmlookup (update_marker ags w m) (vehicle_id_of v) = fmlookup m (vehicle_id_of v)" by (simp add: update_marker_def Let_def)
    with Cons.IH [of "update_marker ags w m"] Cons.prems v show ?thesis by simp
  qed
qed simp

text \<open>The agency of a marker is the part of its identifier before the colon.\<close>

definition markers_keyed :: "live_client \<Rightarrow> bool" where
  "markers_keyed c \<longleftrightarrow> (\<forall>k \<in> fmdom' (lc_markers c). map_option lm_agency (fmlookup (lc_markers c) k) = Some (JString (takeWhile (\<lambda>x. x \<noteq> CHR '':'') k)))"

lemma keyed_agency:
  "markers_keyed c \<Longrightarrow> fmlookup (lc_markers c) k = Some mk \<Longrightarrow> lm_agency mk = JString (takeWhile (\<lambda>x. x \<noteq> CHR '':'') k)"
  unfolding markers_keyed_def by (drule bspec [of _ _ k]) (simp_all add: fmlookup_dom'_iff)

lemma agency_of_key: "CHR '':'' \<notin> set (vp_Agency pos) \<Longrightarrow> takeWhile (\<lambda>x. x \<noteq> CHR '':'') (vehicle_key pos) = vp_Agency pos"
  unfolding vehicle_key_def by (subst takeWhile_append2) auto

lemma liveViews_nth:
  assumes j: "vehicleViews_json (liveViews ps now) = Inr j" and i: "i < length ps"
  shows "i < length (js_items j)" "vehicle_id_of (js_items j ! i) = vehicle_key (ps ! i)" "js_get ''agency'' (js_items j ! i) = JString (vp_Agency (ps ! i))"
    "js_get ''stale'' (js_items j ! i) = JBool (time_Sub now (vp_Timestamp (ps ! i)) > LiveMapFreshWindow)"
    "\<exists>lat lng. vp_Lat (ps ! i) = Fin lat \<and> vp_Lng (ps ! i) = Fin lng \<and> latlng_of (js_items j ! i) = (JNum lat, JNum lng)"
proof -
  have len: "length (liveViews ps now) = length ps" by (simp add: liveViews_def)
  show "i < length (js_items j)" using vehicleViews_items(1) [OF j] i len by simp
  have v: "vehicleView_json ((toView (ps ! i))\<lparr>vv_Stale := time_Sub now (vp_Timestamp (ps ! i)) > LiveMapFreshWindow\<rparr>) = Inr (js_items j ! i)"
    using vehicleViews_items(2) [OF j, of i] i by (simp add: liveViews_def)
  note m = vehicleView_members [OF v]
  show "vehicle_id_of (js_items j ! i) = vehicle_key (ps ! i)" "js_get ''agency'' (js_items j ! i) = JString (vp_Agency (ps ! i))"
    "js_get ''stale'' (js_items j ! i) = JBool (time_Sub now (vp_Timestamp (ps ! i)) > LiveMapFreshWindow)"
    "\<exists>lat lng. vp_Lat (ps ! i) = Fin lat \<and> vp_Lng (ps ! i) = Fin lng \<and> latlng_of (js_items j ! i) = (JNum lat, JNum lng)"
    using m by (simp_all add: vehicle_id_of_def toView_def vehicle_key_def)
qed

text \<open>C14: the live map after the server's snapshot of the positions. If no other list is being applied when the snapshot arrives, and
  nothing but animation frames happens until then, the list, whatever its length, is on the map after a frame per forty
  vehicles and one more: there is a marker for each position and no other, it is
  where the position is, grey with a note exactly when the position is older than five minutes and blue otherwise, and on
  the map exactly when its agency is of the active region. The positions are of different vehicles, and names of agencies have no colon.\<close>

theorem live_map_exact:
  assumes j: "vehicleViews_json (liveViews ps now) = Inr j" and dist: "distinct (map vehicle_key ps)"
    and colon: "list_all (\<lambda>pos. CHR '':'' \<notin> set (vp_Agency pos)) ps" and keyed: "markers_keyed c" and tasks: "lc_tasks c = []"
    and c': "c' = live_inputs (LiveEvent ''vehicles'' j # replicate (list_frames (length ps)) AnimationFrame) c"
  shows "lc_tasks c' = [] \<and> lc_status c' = (''Live'', Some (length ps)) \<and> markers_keyed c' \<and> fmdom' (lc_markers c') = vehicle_key ` set ps \<and>
    (\<forall>pos \<in> set ps. \<exists>mk lat lng. fmlookup (lc_markers c') (vehicle_key pos) = Some mk \<and> vp_Lat pos = Fin lat \<and> vp_Lng pos = Fin lng \<and>
       lm_latlng mk = (JNum lat, JNum lng) \<and> lm_stale mk = (time_Sub now (vp_Timestamp pos) > LiveMapFreshWindow) \<and>
       lm_color mk = (if lm_stale mk then ''#8b949e'' else ''#3498db'') \<and> (lm_shown mk \<longleftrightarrow> JString (vp_Agency pos) \<in> set (lc_agencies c)))"
proof -
  define vs where "vs = js_items j"
  have len: "length vs = length ps" using vehicleViews_items(1) [OF j] by (simp add: vs_def liveViews_def)
  have ids: "map vehicle_id_of vs = map vehicle_key ps"
    using vehicleViews_items(3) [OF j] by (simp add: vs_def liveViews_def toView_def vehicle_key_def)
  have idset: "vehicle_id_of ` set vs = vehicle_key ` set ps" using arg_cong [OF ids, of set] by simp
  let ?m = "fold (update_marker (lc_agencies c)) vs (lc_markers c)"
  have run: "c' = c\<lparr>lc_markers := finish_markers (lc_agencies c) (vehicle_id_of ` set vs) ?m,
      lc_tasks := [], lc_status := (''Live'', Some (length vs)), lc_statusClass := ''status ok''\<rparr>"
    using list_applied [of "applyVehiclesChunked vs c" vs] tasks by (simp add: c' on_live_event_def applyVehiclesChunked_def vs_def [symmetric] len)
  have each: "\<exists>mk lat lng. fmlookup (lc_markers c') (vehicle_key pos) = Some mk \<and> lm_agency mk = JString (vp_Agency pos) \<and>
       vp_Lat pos = Fin lat \<and> vp_Lng pos = Fin lng \<and>
       lm_latlng mk = (JNum lat, JNum lng) \<and> lm_stale mk = (time_Sub now (vp_Timestamp pos) > LiveMapFreshWindow) \<and>
       lm_color mk = (if lm_stale mk then ''#8b949e'' else ''#3498db'') \<and> (lm_shown mk \<longleftrightarrow> JString (vp_Agency pos) \<in> set (lc_agencies c))" if pos: "pos \<in> set ps" for pos
  proof -
    obtain i where i: "i < length ps" "ps ! i = pos" using pos by (auto simp: in_set_conv_nth)
    note v = liveViews_nth [OF j i(1), folded vs_def, unfolded i(2)]
    have "lm_agency mk = js_get ''agency'' (vs ! i)" if "fmlookup (lc_markers c) (vehicle_id_of (vs ! i)) = Some mk" for mk
      using keyed_agency [OF keyed that] colon pos v(2,3) by (simp add: list_all_iff agency_of_key)
    from update_lookup [where ags = "lc_agencies c", OF _ nth_mem [OF v(1)] this] dist ids obtain mk where
      "fmlookup ?m (vehicle_key pos) = Some mk" "shows_vehicle mk (vs ! i)" "lm_agency mk = JString (vp_Agency pos)" using v(2,3) by auto
    then show ?thesis using v(4,5) pos by (auto simp: run finish_markers_def idset shows_vehicle_def stale_color_def)
  qed
  have dom: "fmdom' (lc_markers c') = vehicle_key ` set ps" by (auto simp: run finish_dom update_dom idset)
  have "markers_keyed c'" unfolding markers_keyed_def dom using each colon by (force simp: list_all_iff agency_of_key)
  moreover have "lc_tasks c' = [] \<and> lc_status c' = (''Live'', Some (length ps))" by (simp add: run len)
  ultimately show ?thesis using dom each by (metis (no_types, lifting))
qed

theorem live_map_exact_witness:
  "\<exists>region j mk. RegionByID ''northern'' = Inr region \<and> vehicleViews_json (liveViews [sample_position] (1700000060 * second)) = Inr j \<and>
     fmlookup (lc_markers (live_inputs (LiveEvent ''vehicles'' j # replicate (list_frames 1) AnimationFrame)
       (live_page region mapRegions [] 10 AllowedPollSeconds False))) (vehicle_key sample_position) = Some mk \<and>
     lm_latlng mk = (JNum (459 / 100), JNum (10109 / 100)) \<and> \<not> lm_stale mk \<and> lm_shown mk"
proof -
  obtain region where r: "RegionByID ''northern'' = Inr region" "rg_Agencies region = [''mybas-kangar'', ''mybas-alor-setar'', ''mybas-ipoh'']"
    using sample_region by blast
  let ?c = "live_page region mapRegions [] 10 AllowedPollSeconds False"
  obtain j where j: "vehicleViews_json (liveViews [sample_position] (1700000060 * second)) = Inr j"
    by (simp add: vehicleViews_json_def liveViews_def vehicleView_json_def toView_def sample_position_def VehiclePosition_zero_def json_object_def
        mem_string_def mem_value_def)
  have h: "list_all (\<lambda>pos. CHR '':'' \<notin> set (vp_Agency pos)) [sample_position]" "markers_keyed ?c" "lc_tasks ?c = []"
    by (simp_all add: sample_position_def markers_keyed_def live_page_def)
  have pos: "vp_Lat sample_position = Fin (459 / 100)" "vp_Lng sample_position = Fin (10109 / 100)" "vp_Agency sample_position = ''mybas-ipoh''"
    "\<not> time_Sub (1700000060 * second) (vp_Timestamp sample_position) > LiveMapFreshWindow"
    by (simp_all add: sample_position_def time_Sub_def go_consts)
  have "JString ''mybas-ipoh'' \<in> set (lc_agencies ?c)" by (simp add: live_page_def r(2))
  note shown = this
  have "distinct (map vehicle_key [sample_position])" by simp
  note at_pos = live_map_exact [OF j this h refl, THEN conjunct2, THEN conjunct2, THEN conjunct2, THEN conjunct2, THEN bspec [of _ _ sample_position]]
  obtain mk lat lng where mk: "fmlookup (lc_markers (live_inputs (LiveEvent ''vehicles'' j # replicate (list_frames (length [sample_position])) AnimationFrame) ?c))
      (vehicle_key sample_position) = Some mk" "Fin (459 / 100) = Fin lat" "Fin (10109 / 100) = Fin lng" "lm_latlng mk = (JNum lat, JNum lng)"
      "\<not> lm_stale mk" "lm_shown mk"
    using at_pos [unfolded pos(1,2,3)] pos(4) shown by auto
  have one: "length [sample_position] = 1" by simp
  show ?thesis using r(1) j mk(1) [unfolded one] mk(2-6) by blast
qed

section \<open>Two lists at once\<close>

text \<open>A list that comes while another is being applied: the frames apply both in turns, and each drops the vehicles that are not its
  own when it ends. Of a longer list and a shorter one behind it, the map keeps only the vehicles that are in both, although
  the status tells the length of the first.\<close>

lemma two_lists_on_map:
  assumes tasks: "lc_tasks c = [(vs, 0), (ws, 0)]" and len: "40 < length vs" "length vs \<le> 80" "0 < length ws" "length ws \<le> 40"
    and c': "c' = live_inputs [AnimationFrame, AnimationFrame, AnimationFrame] c"
  shows "fmdom' (lc_markers c') = vehicle_id_of ` set vs \<inter> vehicle_id_of ` set ws" "lc_tasks c' = []" "lc_status c' = (''Live'', Some (length vs))"
proof -
  let ?u = "fold (update_marker (lc_agencies c))"
  define m1 where "m1 = ?u ws (?u (take 40 vs) (lc_markers c))"
  define m2 where "m2 = finish_markers (lc_agencies c) (vehicle_id_of ` set ws) (?u (drop 40 vs) m1)"
  have s: "take 40 vs \<noteq> []" "ws \<noteq> []" "take 40 ws = ws" "take 40 (drop 40 vs) = drop 40 vs" "drop 40 vs \<noteq> []" "drop 40 ws = []" "drop 80 vs = []"
    using len by auto
  have f1: "animation_frame c = c\<lparr>lc_markers := m1, lc_tasks := [(vs, 40), (ws, 40)]\<rparr>"
    using s by (simp add: animation_frame_def tasks chunk_step_def fold_updateVehicle Let_def m1_def)
  have f2: "animation_frame (c\<lparr>lc_markers := m1, lc_tasks := [(vs, 40), (ws, 40)]\<rparr>) =
      c\<lparr>lc_markers := m2, lc_tasks := [(vs, 80)], lc_status := (''Live'', Some (length ws)), lc_statusClass := ''status ok''\<rparr>"
    using s by (simp add: animation_frame_def chunk_step_def fold_updateVehicle Let_def finish_list m2_def)
  have f3: "c' = c\<lparr>lc_markers := finish_markers (lc_agencies c) (vehicle_id_of ` set vs) m2, lc_tasks := [],
      lc_status := (''Live'', Some (length vs)), lc_statusClass := ''status ok''\<rparr>"
    using frame_end [of "c\<lparr>lc_markers := m2, lc_tasks := [(vs, 80)], lc_status := (''Live'', Some (length ws)), lc_statusClass := ''status ok''\<rparr>" vs 80] len
    by (simp add: c' f1 f2)
  show "fmdom' (lc_markers c') = vehicle_id_of ` set vs \<inter> vehicle_id_of ` set ws"
    by (auto simp: f3 m2_def m1_def finish_dom update_dom)
  show "lc_tasks c' = []" "lc_status c' = (''Live'', Some (length vs))" by (simp_all add: f3)
qed

end
