(* ===== verification/Spec2Isabelle.thy ===== *)
theory Spec2Isabelle
  imports Simulation Dev_Server Debug_Main Demo_Poll Demo_Notify Demo_Start Metrics_Stream Metrics_Http Site_Worker_Correct Replay_Page Live_Page
begin

text \<open>
  A verification development for the Go program of this repository: a store of events and vehicle
  positions over the embedded database IsleDB, with a simulation that writes and verifies banking
  events (\<open>internal/simulation\<close>, \<open>internal/pipeline\<close>, \<open>internal/eventgen\<close>) and a live transit map
  (\<open>cmd/demo\<close>, \<open>internal/demo\<close>, \<open>internal/gtfs\<close>, \<open>internal/web/demo\<close>), and two tools: a developer's web
  server that starts simulations (\<open>internal/web\<close>) and experiments that measure how soon writes become
  visible (\<open>cmd/isledb-debug\<close>, \<open>internal/isledbdebug\<close>). A compiler writes a static site from the
  catalogue (\<open>internal/codexsites\<close>), and \<open>ARCHIVE\<close> keeps an earlier pair of metrics programs.

  \<^bold>\<open>How the parts interact.\<close> Every tenant (simulation) and every transit agency (demo) has a database
  prefix of its own with one writer, one reader and a change feed. The simulation generates events,
  writes them to their tenants' prefixes, flushes, compacts, and verifies keys and change feeds. The
  demo polls the GTFS feeds of the regions that browsers are watching, writes the positions to the
  agencies' prefixes, keeps the latest position of each vehicle in memory (recovered from the prefixes
  at start), signals the open streams, and replays history from the change feeds.

  \<^bold>\<open>Conventions.\<close> Structs are records, enums datatypes, errors values of \<open>goerror\<close> (\<open>Inl\<close> of a result,
  or \<open>Some\<close> of an error that may be nil); \<open>errors.Is\<close> follows the chain of wrapped errors. State is
  passed explicitly; a method that changes its receiver returns it. Instants and durations are
  integers of nanoseconds; where the code's 64-bit arithmetic can overflow the wrap-around is written
  out (\<open>wrap64\<close>), and \<open>Time.Sub\<close> saturates. Floating-point values are rationals with NaN and the
  infinities (\<open>float64\<close>), so rounding is not modelled. JSON documents are trees; a text of an instant is
  a leaf of its own, and the texts in them are taken to be valid UTF-8. What the program gets from outside (clock, context, random source, file system,
  HTTP answers, the order in which a map is ranged over) is an argument of the definition that uses
  it, and the theorems hold for all of its values unless a hypothesis says otherwise.

  \<^bold>\<open>The library.\<close>
  \<^item> \<open>Go_Base\<close>, \<open>Go_Text\<close>, \<open>Go_Time\<close>, \<open>Go_Json\<close>, \<open>Go_Http\<close>, \<open>Key_Scan\<close>: the prelude. Errors,
    results and actions, maps in a given order, strings, decimal numbers, instants, JSON encoding and
    decoding, requests and response writers, and the order of keys under a prefix.
  \<^item> \<open>Event_Model\<close> (\<open>internal/model/event.go\<close>): events, keys, values, scan ranges. A key lies in a
    tenant's range exactly when it is the tenant's; values parse back.
  \<^item> \<open>Gtfs_Types\<close>, \<open>Gtfs_Regions\<close>, \<open>Gtfs_Poller\<close> (\<open>internal/gtfs\<close>): positions and their codec, the
    catalogue of feeds and regions, and fetching with retries. The protobuf decoder is an argument.
  \<^item> \<open>Isle_Store\<close>: the database as a record of operations over an abstract state, with the locales
    \<open>change_feed\<close>, \<open>isle_store\<close> and \<open>live_store\<close> that say what the program relies on (pages of a feed
    concatenate and advance; a put is visible after a flush and a refresh; scans are in key order;
    folding the feed, which has not been trimmed, gives the committed contents). They are interpreted on a store in memory.
  \<^item> \<open>Change_Feed\<close> (\<open>changefeed.go\<close>): counting, draining, summarising. The page loop is a
    \<open>partial_function\<close>; it returns whenever pages advance, and a drain applies every change once.
  \<^item> \<open>Pipeline_Config\<close>, \<open>Prefix_DB\<close> (\<open>store.go\<close>, \<open>bucket.go\<close>, \<open>db.go\<close>): configuration, and opening and
    closing a prefix with the trace of handles. No path leaks a handle; closing runs every step.
  \<^item> \<open>Event_Gen\<close>, \<open>Tenant_Pipeline\<close>, \<open>Tenant_Correct\<close>, \<open>Simulation\<close> (\<open>eventgen\<close>, \<open>tenant.go\<close>,
    \<open>verify.go\<close>, \<open>status.go\<close>, \<open>simulation/run.go\<close>): the generator, the tenant writers and
    verification. Verification is sound about the store's own scan and change feed, whatever the store does, and over a store that keeps its
    contract a whole fast simulation succeeds.
  \<^item> \<open>Demo_Session\<close>, \<open>Demo_Poll\<close> (\<open>internal/demo/session.go\<close>, \<open>poll.go\<close>, \<open>health.go\<close>): sessions as a step
    relation with an invariant and a round trip through the file, and the scheduler: which region is
    due, the best one, and at most one download per region in thirty seconds.
  \<^item> \<open>Demo_Pipeline\<close>, \<open>Demo_Write\<close> (\<open>internal/demo/pipeline.go\<close>): writers per agency. A write stores
    exactly a prefix of its batch; a restarted pipeline shows the same map.
  \<^item> \<open>Demo_Notify\<close> (the same file): notification of streams as interleaved steps of goroutines; when it
    panics and when it signals everybody.
  \<^item> \<open>Demo_Replay\<close>, \<open>Demo_Replay_Correct\<close> (\<open>replay.go\<close>, \<open>snapshots.go\<close>): frames, resuming, the catalogue.
    \<open>sort.Slice\<close> is any function of the locale \<open>slice_sort\<close>, interpreted on an insertion sort.
  \<^item> \<open>Demo_App\<close>, \<open>Demo_Start\<close> (\<open>cmd/demo/main.go\<close>): the poll loop over all of the above and the health
    probe; opening everything at the start and closing it at the end. What a round does on success and
    failure, when the probe turns unhealthy, how completed polls are spaced, that a process starts in a
    well-formed state and closes every prefix it has open.
  \<^item> \<open>Demo_Web\<close>, \<open>Demo_Web_Correct\<close> (\<open>internal/web/demo\<close>): middleware, routes, handlers, event streams.
    Every request has a session and keeps the sessions well formed; a region switch decides what is
    shown; a live stream gives its viewer back; a replay stream sends exactly the replay's frames.
  \<^item> \<open>Js_Page\<close>, \<open>Live_Page\<close>, \<open>Replay_Page\<close> (\<open>render.go\<close>, \<open>replay_render.go\<close>): the scripts of the two pages as
    reactions of a state to inputs, where answers come in any order. A snapshot of the server is on the live map
    exactly after its animation frames if no other list is being applied, and what two lists at once leave; the buttons always tell the state. The replay
    page shows each frame of the replay, is always idle, playing or paused, and a stop and a resume lose and repeat nothing.
  \<^item> \<open>Dev_Server\<close> (\<open>internal/web/server.go\<close>, \<open>cmd/simulate\<close>): handlers and the goroutines of simulations as
    a step relation. At most one simulation runs, and results are shown under their backends.
  \<^item> \<open>Debug_Harness\<close>, \<open>Debug_Main\<close> (\<open>internal/isledbdebug\<close>, \<open>cmd/isledb-debug\<close>): the experiments, over the
    locale \<open>resumable_store\<close> that extends \<open>live_store\<close> by what a cursor shows after a flush and is
    interpreted on the store in memory; there every experiment passes. The exit code tells what could not be opened and the verdicts.
  \<^item> \<open>Site_Bundle\<close> (\<open>internal/codexsites/compiler.go\<close>): the catalogue document and the files of a site.
    A successful run writes exactly the bundle, whatever the order.
  \<^item> \<open>Site_Proto\<close>, \<open>Site_Worker\<close>, \<open>Site_Worker_Correct\<close> (\<open>workerTS\<close> and \<open>schemaSQL\<close> in
    \<open>internal/codexsites/templates.go\<close>): the worker of a generated site. Its reader of protocol buffers, with the
    arithmetic of JavaScript's numbers, agrees with the Go parser; claims of a region's poll are spaced, up to the time by which
    the database runs a statement after the clock was read for it; an ingest stores exactly the known
    agencies' readings, in every column, or fails; every request keeps the sessions well formed.
  \<^item> \<open>Proto_Wire\<close>, \<open>Metrics_Codec\<close>, \<open>Metrics_Stream\<close>, \<open>Metrics_Http\<close> (\<open>ARCHIVE/Jul252026/internal\<close>): the
    archived metrics programs. The encoder and decoder of points work over the operations of
    \<open>easyproto\<close>, whose laws are the locale \<open>wire_format\<close>, interpreted on the wire format of protocol
    buffers: decoding returns on every input and gives back what was encoded. The stream server is a
    step relation that counts the goroutines its time-outs leave behind. What several of them get when they
    receive at once, which gRPC rules out, is an argument. Until the first time-out the messages are answered in order; what can be
    lost afterwards and when the server panics. Through the HTTP interface the server sees what the client sends.

  \<^bold>\<open>Loops.\<close> Recursion over lists is structural; the retry loop counts its attempts down; page loops are
  partial functions into \<open>option\<close> whose definedness is proved; the event loops of the poller, of a live
  stream and of the incremental experiment are functions of the list of events they take, so a statement about all lists covers every
  finite run. No fuel is used.

  \<^bold>\<open>Interleaving.\<close> An operation that holds a lock throughout is one step. Where the code releases the
  lock between steps (\<open>NotifyPoll\<close> and its subscribers, a simulation of the developer's server, a poll of the generated worker) the pieces are the steps of a relation. A live
  stream lets the rest of the process act arbitrarily between its turns.

  \<^bold>\<open>Not modelled.\<close> Of the pages the markup, the style sheets, the movements of the map and the tiles; of the
  generated site its pages with their one-line scripts, the schema migration and the deployment files; the rendering by
  \<open>html/template\<close>; the programs' flag parsing, logging, signals and listeners, the background maintenance
  goroutine beyond its cancellation, the concurrent use of one metrics stream by several client
  batches, and the archived router example \<open>httpz\<close>.
\<close>

end
